theory Spec2Isabelle
  imports Main
begin

unbundle bit_operations_syntax

section \<open>Constructor dependency metadata (annotations/common/src/di.ts)\<close>

text \<open>
  TypeScript syntax nodes are kept only as far as the code inspects them: a string literal
  (\<open>ts.isStringLiteralLike\<close>, with its \<open>text\<close>), an object literal
  (\<open>ts.isObjectLiteralExpression\<close>, with its properties), an array literal, or something
  else, identified by a number.
\<close>

datatype TsNode =
    StringLiteralLike string
  | ObjectLiteralExpression "(string \<times> TsNode) list"
  | ArrayLiteralExpression "TsNode list"
  | OtherNode nat

text \<open>
  The output AST of the compiler (\<open>@angular/compiler\<close>), with the expression and statement
  forms that the translated code builds. \<open>UnknownKeywordTypeExpr\<close> stands for the wrapped
  \<open>unknown\<close> keyword type node.
\<close>

datatype Expression =
    WrappedNodeExpr TsNode
  | LiteralExpr string
  | ExternalExpr string string
  | UnknownKeywordTypeExpr
  | LiteralArrayExpr "Expression list"
  | FunctionExpr "string list" "Statement list"
  | InvokeFunctionExpr Expression "Expression list"
and Statement =
    ReturnStatement Expression
  | ExpressionStatement Expression

text \<open>
  \<open>UnavailableValue\<close>: why a parameter's type has no value that could serve as a token. Of
  the syntax nodes each variant carries, only \<open>decl\<close> of \<open>NO_VALUE_DECLARATION\<close> may be null,
  which decides whether a second hint is attached.
\<close>

datatype UnavailableValue =
    UNSUPPORTED
  | NO_VALUE_DECLARATION "TsNode option"
  | TYPE_ONLY_IMPORT
  | NAMESPACE
  | UNKNOWN_REFERENCE
  | MISSING_TYPE

datatype TypeValueReference =
    LOCAL TsNode
  | IMPORTED string string
  | UNAVAILABLE UnavailableValue

record Import =
  import_name :: string
  import_from :: string

record Decorator =
  dec_name :: string
  dec_import :: "Import option"
  dec_args :: "TsNode list option"

record CtorParameter =
  param_name :: "string option"
  typeValueReference :: TypeValueReference
  param_decorators :: "Decorator list option"

datatype ClassMemberKind = Constructor | Getter | Setter | Property | Method

record ClassMember =
  member_name :: string
  member_kind :: ClassMemberKind
  isStatic :: bool
  member_decorators :: "Decorator list option"

text \<open>
  A class declaration together with what the reflection host answers about it:
  \<open>getConstructorParameters\<close>, \<open>hasBaseClass\<close>, \<open>getMembersOfClass\<close>.
\<close>

record ClassDeclaration =
  class_name :: string
  ctorParameters :: "CtorParameter list option"
  hasBaseClass :: bool
  class_members :: "ClassMember list"

record R3DependencyMetadata =
  token :: Expression
  attributeNameType :: "Expression option"
  optional :: bool
  self :: bool
  skipSelf :: bool
  host :: bool

record ConstructorDepError =
  err_index :: nat
  err_param :: CtorParameter
  err_reason :: UnavailableValue

datatype ConstructorDeps =
    Deps "R3DependencyMetadata list"
  | DepErrors "ConstructorDepError list"

datatype ErrorCode =
    DECORATOR_ARG_NOT_LITERAL
  | DECORATOR_ARITY_WRONG
  | DECORATOR_UNEXPECTED
  | VALUE_HAS_WRONG_TYPE
  | DIRECTIVE_MISSING_SELECTOR
  | PARAM_MISSING_TOKEN
  | IMPORT_GENERATION_FAILURE

text \<open>
  What a function throws: a \<open>FatalDiagnosticError\<close> (code, message text, the chained message
  and the texts of the related-information hints) or a plain JavaScript \<open>Error\<close>.
\<close>

datatype Thrown =
    FatalDiagnosticError ErrorCode string "string option" "string list"
  | PlainError string

text \<open>
  \<open>valueReferenceToExpression\<close> and \<open>isAngularCore\<close> live in \<open>./util\<close>, which is not among
  the sources; the functions below take them as parameters \<open>v2e\<close> and \<open>isAngularCore\<close>.
\<close>

record DepAcc =
  acc_token :: "Expression option"
  acc_attributeNameType :: "Expression option"
  acc_optional :: bool
  acc_self :: bool
  acc_skipSelf :: bool
  acc_host :: bool

text \<open>The body of the inner \<open>forEach\<close> over the decorators of one parameter.\<close>

definition applyParamDecorator :: "bool \<Rightarrow> DepAcc \<Rightarrow> Decorator \<Rightarrow> Thrown + DepAcc" where
  "applyParamDecorator isCore acc dec =
    (let name = (if isCore \<or> dec_import dec = None then dec_name dec
                 else import_name (the (dec_import dec)))
     in if name = ''Inject'' then
          (case dec_args dec of
             Some [arg] \<Rightarrow> Inr (acc\<lparr>acc_token := Some (WrappedNodeExpr arg)\<rparr>)
           | _ \<Rightarrow> Inl (FatalDiagnosticError DECORATOR_ARITY_WRONG
                        ''Unexpected number of arguments to @Inject().'' None []))
        else if name = ''Optional'' then Inr (acc\<lparr>acc_optional := True\<rparr>)
        else if name = ''SkipSelf'' then Inr (acc\<lparr>acc_skipSelf := True\<rparr>)
        else if name = ''Self'' then Inr (acc\<lparr>acc_self := True\<rparr>)
        else if name = ''Host'' then Inr (acc\<lparr>acc_host := True\<rparr>)
        else if name = ''Attribute'' then
          (case dec_args dec of
             Some [attributeName] \<Rightarrow>
               Inr (acc\<lparr>acc_token := Some (WrappedNodeExpr attributeName),
                        acc_attributeNameType :=
                          (case attributeName of
                             StringLiteralLike txt \<Rightarrow> Some (LiteralExpr txt)
                           | _ \<Rightarrow> Some UnknownKeywordTypeExpr)\<rparr>)
           | _ \<Rightarrow> Inl (FatalDiagnosticError DECORATOR_ARITY_WRONG
                        ''Unexpected number of arguments to @Attribute().'' None []))
        else Inl (FatalDiagnosticError DECORATOR_UNEXPECTED
                    (''Unexpected decorator '' @ name @ '' on parameter.'') None []))"

fun applyParamDecorators :: "bool \<Rightarrow> DepAcc \<Rightarrow> Decorator list \<Rightarrow> Thrown + DepAcc" where
  "applyParamDecorators isCore acc [] = Inr acc"
| "applyParamDecorators isCore acc (dec # decs) =
    (case applyParamDecorator isCore acc dec of
       Inl e \<Rightarrow> Inl e
     | Inr acc' \<Rightarrow> applyParamDecorators isCore acc' decs)"

text \<open>
  The body of the outer \<open>forEach\<close> for the parameter at position \<open>idx\<close>: the token found and
  refined, or no token (then the caller records an error entry).
\<close>

definition resolveParam ::
  "(TypeValueReference \<Rightarrow> Expression option) \<Rightarrow> (Decorator \<Rightarrow> bool) \<Rightarrow> bool \<Rightarrow>
   CtorParameter \<Rightarrow> Thrown + DepAcc" where
  "resolveParam v2e isAngularCore isCore param =
    applyParamDecorators isCore
      \<lparr>acc_token = v2e (typeValueReference param), acc_attributeNameType = None,
       acc_optional = False, acc_self = False, acc_skipSelf = False, acc_host = False\<rparr>
      (filter (\<lambda>dec. isCore \<or> isAngularCore dec)
         (case param_decorators param of None \<Rightarrow> [] | Some ds \<Rightarrow> ds))"

fun ctorParamsLoop ::
  "(TypeValueReference \<Rightarrow> Expression option) \<Rightarrow> (Decorator \<Rightarrow> bool) \<Rightarrow> bool \<Rightarrow>
   nat \<Rightarrow> CtorParameter list \<Rightarrow> R3DependencyMetadata list \<Rightarrow> ConstructorDepError list \<Rightarrow>
   Thrown + (R3DependencyMetadata list \<times> ConstructorDepError list)" where
  "ctorParamsLoop v2e isAngularCore isCore idx [] deps errors = Inr (deps, errors)"
| "ctorParamsLoop v2e isAngularCore isCore idx (param # params) deps errors =
    (case resolveParam v2e isAngularCore isCore param of
       Inl e \<Rightarrow> Inl e
     | Inr acc \<Rightarrow>
        (case acc_token acc of
           None \<Rightarrow>
             (case typeValueReference param of
                UNAVAILABLE reason \<Rightarrow>
                  ctorParamsLoop v2e isAngularCore isCore (Suc idx) params deps
                    (errors @ [\<lparr>err_index = idx, err_param = param, err_reason = reason\<rparr>])
              | _ \<Rightarrow> Inl (PlainError
                  ''Illegal state: expected value reference to be unavailable if no token is present''))
         | Some tok \<Rightarrow>
             ctorParamsLoop v2e isAngularCore isCore (Suc idx) params
               (deps @ [\<lparr>token = tok, attributeNameType = acc_attributeNameType acc,
                          optional = acc_optional acc, self = acc_self acc,
                          skipSelf = acc_skipSelf acc, host = acc_host acc\<rparr>])
               errors))"

text \<open>
  \<open>getConstructorDependencies\<close>: \<open>None\<close> is the source's \<open>null\<close> result. The reflection host's
  answers for the class (\<open>getConstructorParameters\<close>, \<open>hasBaseClass\<close>) are fields of the
  class record.
\<close>

definition getConstructorDependencies ::
  "(TypeValueReference \<Rightarrow> Expression option) \<Rightarrow> (Decorator \<Rightarrow> bool) \<Rightarrow>
   ClassDeclaration \<Rightarrow> bool \<Rightarrow> Thrown + ConstructorDeps option" where
  "getConstructorDependencies v2e isAngularCore clazz isCore =
    (case ctorParameters clazz of
       None \<Rightarrow>
         (if hasBaseClass clazz then Inr None
          else (case ctorParamsLoop v2e isAngularCore isCore 0 [] [] [] of
                  Inl e \<Rightarrow> Inl e
                | Inr (deps, errors) \<Rightarrow>
                    Inr (Some (if errors = [] then Deps deps else DepErrors errors))))
     | Some ctorParams \<Rightarrow>
         (case ctorParamsLoop v2e isAngularCore isCore 0 ctorParams [] [] of
            Inl e \<Rightarrow> Inl e
          | Inr (deps, errors) \<Rightarrow>
              Inr (Some (if errors = [] then Deps deps else DepErrors errors))))"

datatype UnwrappedDeps = ValidDeps "R3DependencyMetadata list" | Invalid

definition unwrapConstructorDependencies :: "ConstructorDeps option \<Rightarrow> UnwrappedDeps option" where
  "unwrapConstructorDependencies deps =
    (case deps of
       None \<Rightarrow> None
     | Some (Deps ds) \<Rightarrow> Some (ValidDeps ds)
     | Some (DepErrors _) \<Rightarrow> Some Invalid)"

text \<open>Decimal rendering of a number inside a template string.\<close>

definition digitChar :: "nat \<Rightarrow> char" where
  "digitChar d = char_of (d + 48)"

function decimalOfNat :: "nat \<Rightarrow> string" where
  "decimalOfNat n =
    (if 10 \<le> n then decimalOfNat (n div 10) @ [digitChar (n mod 10)] else [digitChar n])"
  by pat_completeness auto
termination
  by (relation "measure id") auto

text \<open>\<open>param.name || index\<close>: a null or empty name falls through to the index.\<close>

definition paramLabel :: "CtorParameter \<Rightarrow> nat \<Rightarrow> string" where
  "paramLabel param index =
    (case param_name param of
       None \<Rightarrow> decimalOfNat index
     | Some n \<Rightarrow> if n = [] then decimalOfNat index else n)"

definition injectHint :: string where
  "injectHint = ''Consider using the @Inject decorator to specify an injection token.''"

definition createUnsuitableInjectionTokenError ::
  "ClassDeclaration \<Rightarrow> ConstructorDepError \<Rightarrow> Thrown" where
  "createUnsuitableInjectionTokenError clazz error =
    (let (chainMessage, hints) =
       (case err_reason error of
          UNSUPPORTED \<Rightarrow>
            (Some injectHint, [''This type is not supported as injection token.''])
        | NO_VALUE_DECLARATION decl \<Rightarrow>
            (Some injectHint,
             [''This type does not have a value, so it cannot be used as injection token.'']
             @ (if decl \<noteq> None then [''The type is declared here.''] else []))
        | TYPE_ONLY_IMPORT \<Rightarrow>
            (Some ''Consider changing the type-only import to a regular import, or use the @Inject decorator to specify an injection token.'',
             [''This type is imported using a type-only import, which prevents it from being usable as an injection token.'',
              ''The type-only import occurs here.''])
        | NAMESPACE \<Rightarrow>
            (Some injectHint,
             [''This type corresponds with a namespace, which cannot be used as injection token.'',
              ''The namespace import occurs here.''])
        | UNKNOWN_REFERENCE \<Rightarrow>
            (Some ''The type should reference a known declaration.'',
             [''This type could not be resolved.''])
        | MISSING_TYPE \<Rightarrow>
            (Some ''Consider adding a type to the parameter or use the @Inject decorator to specify an injection token.'',
             []))
     in FatalDiagnosticError PARAM_MISSING_TOKEN
          (''No suitable injection token for parameter '' @ [CHR 0x27]
             @ paramLabel (err_param error) (err_index error) @ [CHR 0x27]
             @ '' of class '' @ [CHR 0x27] @ class_name clazz @ [CHR 0x27] @ ''.'')
          chainMessage hints)"

text \<open>
  \<open>validateConstructorDependencies\<close>: the source reads \<open>errors[0]\<close>; an empty error list
  cannot come from \<open>getConstructorDependencies\<close>, and reading it would make
  \<open>createUnsuitableInjectionTokenError\<close> fail on \<open>undefined\<close>, a \<open>TypeError\<close>.
\<close>

definition validateConstructorDependencies ::
  "ClassDeclaration \<Rightarrow> ConstructorDeps option \<Rightarrow> Thrown + R3DependencyMetadata list option" where
  "validateConstructorDependencies clazz deps =
    (case deps of
       None \<Rightarrow> Inr None
     | Some (Deps ds) \<Rightarrow> Inr (Some ds)
     | Some (DepErrors errors) \<Rightarrow>
         (case errors of
            [] \<Rightarrow> Inl (PlainError ''TypeError'')
          | error # _ \<Rightarrow> Inl (createUnsuitableInjectionTokenError clazz error)))"

section \<open>Directive metadata extraction (annotations/directive/src/shared.ts)\<close>

text \<open>What the partial evaluator returns for an expression, as far as the code tells it apart.\<close>

datatype ResolvedValue =
    RString string
  | RBoolean bool
  | RArray "ResolvedValue list"
  | ROther nat

text \<open>
  Modelled from the spec: \<open>createValueHasWrongTypeError\<close> comes from \<open>../../common\<close>, which
  is not among the sources ("malformed value types are fatal diagnostics"). Of the diagnostic it
  builds, the error code and the message text handed over by the caller are kept.
\<close>

definition createValueHasWrongTypeError :: "string \<Rightarrow> Thrown" where
  "createValueHasWrongTypeError messageText =
     FatalDiagnosticError VALUE_HAS_WRONG_TYPE messageText None []"

text \<open>Sequencing of steps that may throw.\<close>

definition bindE :: "'x + 'a \<Rightarrow> ('a \<Rightarrow> 'x + 'b) \<Rightarrow> 'x + 'b" where
  "bindE m f = (case m of Inl e \<Rightarrow> Inl e | Inr x \<Rightarrow> f x)"

text \<open>
  The steps of \<open>extractDirectiveMetadata\<close> that are not translated (queries, host bindings,
  \<open>exportAs\<close>, the \<open>standalone\<close> flag, host directives) enter as what they throw, if they
  throw; they keep their place in the order of the source.
\<close>

record OtherSteps =
  queries_step :: "Thrown option"
  host_step :: "Thrown option"
  exportAs_step :: "Thrown option"
  standalone_step :: "Thrown option"
  hostDirectives_step :: "Thrown option"

definition stepE :: "Thrown option \<Rightarrow> Thrown + unit" where
  "stepE t = (case t of Some e \<Rightarrow> Inl e | None \<Rightarrow> Inr ())"

text \<open>
  Modelled from the spec: \<open>reflectObjectLiteral\<close> belongs to the reflection package, which is
  not among the sources ("object literals with recognized keys"). The properties of the literal
  are read in order into a \<open>Map\<close>, so a later property of the same name replaces an earlier
  one.
\<close>

definition reflectObjectLiteral :: "(string \<times> TsNode) list \<Rightarrow> (string \<rightharpoonup> TsNode)" where
  "reflectObjectLiteral props = map_of (rev props)"

definition reflectDecorator :: "Decorator option \<Rightarrow> Thrown + (string \<rightharpoonup> TsNode)" where
  "reflectDecorator decorator =
    (case decorator of
       None \<Rightarrow> Inr Map.empty
     | Some dec \<Rightarrow>
        (case dec_args dec of
           None \<Rightarrow> Inr Map.empty
         | Some [] \<Rightarrow> Inr Map.empty
         | Some [meta] \<Rightarrow>
             (case meta of
                ObjectLiteralExpression props \<Rightarrow> Inr (reflectObjectLiteral props)
              | _ \<Rightarrow> Inl (FatalDiagnosticError DECORATOR_ARG_NOT_LITERAL
                           (''@'' @ dec_name dec @ '' argument must be an object literal'')
                           None []))
         | Some _ \<Rightarrow> Inl (FatalDiagnosticError DECORATOR_ARITY_WRONG
                           (''Incorrect number of arguments to @'' @ dec_name dec @ '' decorator'')
                           None [])))"

fun stringArrayElements :: "string \<Rightarrow> nat \<Rightarrow> ResolvedValue list \<Rightarrow> Thrown + string list" where
  "stringArrayElements name i [] = Inr []"
| "stringArrayElements name i (v # vs) =
    (case v of
       RString s \<Rightarrow> bindE (stringArrayElements name (Suc i) vs) (\<lambda>rest. Inr (s # rest))
     | _ \<Rightarrow> Inl (createValueHasWrongTypeError
                  (''Failed to resolve '' @ name @ '' at position '' @ decimalOfNat i
                     @ '' to a string'')))"

text \<open>\<open>isStringArrayOrDie\<close>: \<open>None\<close> is the result \<open>false\<close> (not an array).\<close>

definition isStringArrayOrDie :: "ResolvedValue \<Rightarrow> string \<Rightarrow> Thrown + string list option" where
  "isStringArrayOrDie v name =
    (case v of
       RArray vs \<Rightarrow> bindE (stringArrayElements name 0 vs) (\<lambda>ss. Inr (Some ss))
     | _ \<Rightarrow> Inr None)"

definition parseFieldArrayValue ::
  "(string \<rightharpoonup> TsNode) \<Rightarrow> string \<Rightarrow> (TsNode \<Rightarrow> ResolvedValue) \<Rightarrow> Thrown + string list option" where
  "parseFieldArrayValue directive field evaluate =
    (case directive field of
       None \<Rightarrow> Inr None
     | Some expression \<Rightarrow>
         bindE (isStringArrayOrDie (evaluate expression) field) (\<lambda>r.
           case r of
             None \<Rightarrow> Inl (createValueHasWrongTypeError
                            (''Failed to resolve @Directive.'' @ field @ '' to a string array''))
           | Some v \<Rightarrow> Inr (Some v)))"

text \<open>
  JavaScript string operations. \<open>split\<close> with a one-character separator always yields at
  least one piece. \<open>trim\<close> drops white space at both ends; of the characters JavaScript counts
  as white space, those below 256 are covered (tab, line feed, vertical tab, form feed,
  carriage return, space, no-break space).
\<close>

fun splitOn :: "char \<Rightarrow> string \<Rightarrow> string list" where
  "splitOn c [] = [[]]"
| "splitOn c (x # xs) =
    (if x = c then [] # splitOn c xs
     else (case splitOn c xs of
             [] \<Rightarrow> [[x]]
           | p # ps \<Rightarrow> (x # p) # ps))"

definition isWhiteSpace :: "char \<Rightarrow> bool" where
  "isWhiteSpace c = (of_char c \<in> {9, 10, 11, 12, 13, 32, 160 :: nat})"

definition trim :: "string \<Rightarrow> string" where
  "trim s = rev (dropWhile isWhiteSpace (rev (dropWhile isWhiteSpace s)))"

datatype MappingValue = Plain string | Joint string string

text \<open>
  One round of the \<open>reduce\<close> in \<open>parseInputOutputMappingArray\<close>:
  \<open>[field, property] = value.split(':', 2).map(str => str.trim())\<close> and
  \<open>results[field] = property || field\<close>.
\<close>

definition parseMappingEntry :: "string \<Rightarrow> string \<times> string" where
  "parseMappingEntry v =
    (case map trim (take 2 (splitOn (CHR '':'') v)) of
       [] \<Rightarrow> ([], [])
     | [field] \<Rightarrow> (field, field)
     | field # property # _ \<Rightarrow> (field, if property = [] then field else property))"

fun mappingArrayLoop :: "string list \<Rightarrow> (string \<rightharpoonup> MappingValue) \<Rightarrow> (string \<rightharpoonup> MappingValue)" where
  "mappingArrayLoop [] results = results"
| "mappingArrayLoop (v # vs) results =
    (let (field, property) = parseMappingEntry v
     in mappingArrayLoop vs (results(field \<mapsto> Plain property)))"

definition parseInputOutputMappingArray :: "string list \<Rightarrow> (string \<rightharpoonup> MappingValue)" where
  "parseInputOutputMappingArray vs = mappingArrayLoop vs Map.empty"

definition parseFieldToPropertyMapping ::
  "(string \<rightharpoonup> TsNode) \<Rightarrow> string \<Rightarrow> (TsNode \<Rightarrow> ResolvedValue) \<Rightarrow>
   Thrown + (string \<rightharpoonup> MappingValue)" where
  "parseFieldToPropertyMapping directive field evaluate =
    bindE (parseFieldArrayValue directive field evaluate) (\<lambda>metaValues.
      case metaValues of
        None \<Rightarrow> Inr Map.empty
      | Some vs \<Rightarrow> Inr (parseInputOutputMappingArray vs))"

text \<open>
  Modelled from the spec: \<open>filterToMembersWithDecorator\<close> belongs to the reflection package,
  which is not among the sources ("property-level markers found via member decorators"). Of the
  non-static members, those with at least one decorator of the given name (imported from the
  given module, when one is given), each paired with these decorators.
\<close>

definition decoratorMatches :: "string \<Rightarrow> string option \<Rightarrow> Decorator \<Rightarrow> bool" where
  "decoratorMatches name module dec =
    (case dec_import dec of
       Some imp \<Rightarrow> import_name imp = name \<and> (module = None \<or> module = Some (import_from imp))
     | None \<Rightarrow> dec_name dec = name \<and> module = None)"

definition filterToMembersWithDecorator ::
  "ClassMember list \<Rightarrow> string \<Rightarrow> string option \<Rightarrow> (ClassMember \<times> Decorator list) list" where
  "filterToMembersWithDecorator members name module =
    List.map_filter
      (\<lambda>member.
         case member_decorators member of
           None \<Rightarrow> None
         | Some decs \<Rightarrow>
             (let decorators = filter (decoratorMatches name module) decs
              in if decorators = [] then None else Some (member, decorators)))
      (filter (\<lambda>member. \<not> isStatic member) members)"

text \<open>The body of the \<open>forEach\<close> over the decorators of one field in \<open>parseDecoratedFields\<close>.\<close>

definition applyFieldDecorator ::
  "(TsNode \<Rightarrow> ResolvedValue) \<Rightarrow> (string \<Rightarrow> string \<Rightarrow> MappingValue) \<Rightarrow> string \<Rightarrow>
   (string \<rightharpoonup> MappingValue) \<Rightarrow> Decorator \<Rightarrow> Thrown + (string \<rightharpoonup> MappingValue)" where
  "applyFieldDecorator evaluate mapValueResolver fieldName results decorator =
    (case dec_args decorator of
       None \<Rightarrow> Inr (results(fieldName \<mapsto> Plain fieldName))
     | Some [] \<Rightarrow> Inr (results(fieldName \<mapsto> Plain fieldName))
     | Some [arg] \<Rightarrow>
         (case evaluate arg of
            RString property \<Rightarrow> Inr (results(fieldName \<mapsto> mapValueResolver property fieldName))
          | _ \<Rightarrow> Inl (createValueHasWrongTypeError
                       (''@'' @ dec_name decorator
                          @ '' decorator argument must resolve to a string'')))
     | Some args \<Rightarrow>
         Inl (FatalDiagnosticError DECORATOR_ARITY_WRONG
                (''@'' @ dec_name decorator @ '' can have at most one argument, got ''
                   @ decimalOfNat (length args) @ '' argument(s)'') None []))"

fun applyFieldDecorators ::
  "(TsNode \<Rightarrow> ResolvedValue) \<Rightarrow> (string \<Rightarrow> string \<Rightarrow> MappingValue) \<Rightarrow> string \<Rightarrow>
   (string \<rightharpoonup> MappingValue) \<Rightarrow> Decorator list \<Rightarrow> Thrown + (string \<rightharpoonup> MappingValue)" where
  "applyFieldDecorators evaluate mapValueResolver fieldName results [] = Inr results"
| "applyFieldDecorators evaluate mapValueResolver fieldName results (d # ds) =
    bindE (applyFieldDecorator evaluate mapValueResolver fieldName results d)
      (\<lambda>results'. applyFieldDecorators evaluate mapValueResolver fieldName results' ds)"

fun decoratedFieldsLoop ::
  "(TsNode \<Rightarrow> ResolvedValue) \<Rightarrow> (string \<Rightarrow> string \<Rightarrow> MappingValue) \<Rightarrow>
   (ClassMember \<times> Decorator list) list \<Rightarrow> (string \<rightharpoonup> MappingValue) \<Rightarrow>
   Thrown + (string \<rightharpoonup> MappingValue)" where
  "decoratedFieldsLoop evaluate mapValueResolver [] results = Inr results"
| "decoratedFieldsLoop evaluate mapValueResolver ((member, decorators) # rest) results =
    bindE (applyFieldDecorators evaluate mapValueResolver (member_name member) results decorators)
      (\<lambda>results'. decoratedFieldsLoop evaluate mapValueResolver rest results')"

definition parseDecoratedFields ::
  "(ClassMember \<times> Decorator list) list \<Rightarrow> (TsNode \<Rightarrow> ResolvedValue) \<Rightarrow>
   (string \<Rightarrow> string \<Rightarrow> MappingValue) \<Rightarrow> Thrown + (string \<rightharpoonup> MappingValue)" where
  "parseDecoratedFields flds evaluate mapValueResolver =
     decoratedFieldsLoop evaluate mapValueResolver flds Map.empty"

definition resolveInput :: "string \<Rightarrow> string \<Rightarrow> MappingValue" where
  "resolveInput publicName internalName = Joint publicName internalName"

definition resolveOutput :: "string \<Rightarrow> string \<Rightarrow> MappingValue" where
  "resolveOutput publicName internalName = Plain publicName"

text \<open>
  The selector block of \<open>extractDirectiveMetadata\<close>: the default selector unless the decorator
  has a \<open>selector\<close> key; \<open>!selector\<close> holds for null and for the empty string.
\<close>

definition resolveSelector ::
  "(string \<rightharpoonup> TsNode) \<Rightarrow> (TsNode \<Rightarrow> ResolvedValue) \<Rightarrow> ClassDeclaration \<Rightarrow> string option \<Rightarrow>
   Thrown + string option" where
  "resolveSelector directive evaluate clazz defaultSelector =
    (case directive ''selector'' of
       None \<Rightarrow> Inr defaultSelector
     | Some expr \<Rightarrow>
        (case evaluate expr of
           RString resolved \<Rightarrow>
             (let selector = (if resolved = [] then defaultSelector else Some resolved)
              in if selector = None \<or> selector = Some []
                 then Inl (FatalDiagnosticError DIRECTIVE_MISSING_SELECTOR
                            (''Directive '' @ class_name clazz @ '' has no selector, please add it!'')
                            None [])
                 else Inr selector)
         | _ \<Rightarrow> Inl (createValueHasWrongTypeError ''selector must be a string'')))"

record DirectiveFront =
  f_directive :: "string \<rightharpoonup> TsNode"
  inputsFromMeta :: "string \<rightharpoonup> MappingValue"
  inputsFromFields :: "string \<rightharpoonup> MappingValue"
  outputsFromMeta :: "string \<rightharpoonup> MappingValue"
  outputsFromFields :: "string \<rightharpoonup> MappingValue"
  f_selector :: "string option"

text \<open>
  The part of \<open>extractDirectiveMetadata\<close> before the constructor dependencies are read:
  \<open>None\<close> is the early \<open>return undefined\<close> for a decorator with a \<open>jit\<close> key.
\<close>

definition extractBeforeCtorDeps ::
  "(TsNode \<Rightarrow> ResolvedValue) \<Rightarrow> OtherSteps \<Rightarrow> ClassDeclaration \<Rightarrow> Decorator option \<Rightarrow> bool \<Rightarrow>
   string option \<Rightarrow> Thrown + DirectiveFront option" where
  "extractBeforeCtorDeps evaluate other clazz decorator isCore defaultSelector =
    bindE (reflectDecorator decorator) (\<lambda>directive.
      if directive ''jit'' \<noteq> None then Inr None
      else
        let members = class_members clazz;
            decoratedElements =
              filter (\<lambda>member. \<not> isStatic member \<and> member_decorators member \<noteq> None) members;
            coreModule = (if isCore then None else Some ''@angular/core'')
        in
        bindE (parseFieldToPropertyMapping directive ''inputs'' evaluate) (\<lambda>inputsFromMeta.
        bindE (parseDecoratedFields
                 (filterToMembersWithDecorator decoratedElements ''Input'' coreModule)
                 evaluate resolveInput) (\<lambda>inputsFromFields.
        bindE (parseFieldToPropertyMapping directive ''outputs'' evaluate) (\<lambda>outputsFromMeta.
        bindE (parseDecoratedFields
                 (filterToMembersWithDecorator decoratedElements ''Output'' coreModule)
                 evaluate resolveOutput) (\<lambda>outputsFromFields.
        bindE (stepE (queries_step other)) (\<lambda>_.
        bindE (resolveSelector directive evaluate clazz defaultSelector) (\<lambda>selector.
        bindE (stepE (host_step other)) (\<lambda>_.
        bindE (stepE (exportAs_step other)) (\<lambda>_.
          Inr (Some \<lparr>f_directive = directive,
                     inputsFromMeta = inputsFromMeta, inputsFromFields = inputsFromFields,
                     outputsFromMeta = outputsFromMeta, outputsFromFields = outputsFromFields,
                     f_selector = selector\<rparr>))))))))))"

record DirectiveResult =
  r_selector :: "string option"
  r_deps :: "UnwrappedDeps option"
  r_isStructural :: bool
  r_inputs :: "string \<rightharpoonup> MappingValue"
  r_outputs :: "string \<rightharpoonup> MappingValue"

definition isTemplateRefDep :: "R3DependencyMetadata \<Rightarrow> bool" where
  "isTemplateRefDep dep = (token dep = ExternalExpr ''@angular/core'' ''TemplateRef'')"

text \<open>
  \<open>extractDirectiveMetadata\<close>. The object spread \<open>{...inputsFromMeta, ...inputsFromFields}\<close>
  is the map override \<open>++\<close>: the entries of the second operand replace those of the first.
\<close>

definition extractDirectiveMetadata ::
  "(TypeValueReference \<Rightarrow> Expression option) \<Rightarrow> (Decorator \<Rightarrow> bool) \<Rightarrow>
   (TsNode \<Rightarrow> ResolvedValue) \<Rightarrow> OtherSteps \<Rightarrow> ClassDeclaration \<Rightarrow> Decorator option \<Rightarrow> bool \<Rightarrow>
   string option \<Rightarrow> Thrown + DirectiveResult option" where
  "extractDirectiveMetadata v2e isAngularCore evaluate other clazz decorator isCore defaultSelector =
    bindE (extractBeforeCtorDeps evaluate other clazz decorator isCore defaultSelector) (\<lambda>front.
      case front of
        None \<Rightarrow> Inr None
      | Some fr \<Rightarrow>
        bindE (getConstructorDependencies v2e isAngularCore clazz isCore) (\<lambda>rawCtorDeps.
        bindE (if f_selector fr \<noteq> None
               then bindE (validateConstructorDependencies clazz rawCtorDeps)
                      (\<lambda>ds. Inr (map_option ValidDeps ds))
               else Inr (unwrapConstructorDependencies rawCtorDeps)) (\<lambda>ctorDeps.
        let isStructural =
              (case ctorDeps of
                 Some (ValidDeps ds) \<Rightarrow> list_ex isTemplateRefDep ds
               | _ \<Rightarrow> False)
        in
        bindE (stepE (standalone_step other)) (\<lambda>_.
        let inputs = inputsFromMeta fr ++ inputsFromFields fr;
            outputs = outputsFromMeta fr ++ outputsFromFields fr
        in
        bindE (stepE (hostDirectives_step other)) (\<lambda>_.
          Inr (Some \<lparr>r_selector = f_selector fr, r_deps = ctorDeps,
                     r_isStructural = isStructural,
                     r_inputs = inputs, r_outputs = outputs\<rparr>))))))"

text \<open>
  Two predicates on a constructor parameter, used to state what extraction does with it:
  its decorators are processed without a throw and it ends with a token or with an
  unavailable type (\<open>paramWellFormed\<close>), and it ends without a token (\<open>lacksToken\<close>).
\<close>

definition paramWellFormed ::
  "(TypeValueReference \<Rightarrow> Expression option) \<Rightarrow> (Decorator \<Rightarrow> bool) \<Rightarrow> bool \<Rightarrow>
   CtorParameter \<Rightarrow> bool" where
  "paramWellFormed v2e isAngularCore isCore param =
    (case resolveParam v2e isAngularCore isCore param of
       Inl _ \<Rightarrow> False
     | Inr acc \<Rightarrow>
         (case acc_token acc of
            Some _ \<Rightarrow> True
          | None \<Rightarrow> (case typeValueReference param of UNAVAILABLE _ \<Rightarrow> True | _ \<Rightarrow> False)))"

definition lacksToken ::
  "(TypeValueReference \<Rightarrow> Expression option) \<Rightarrow> (Decorator \<Rightarrow> bool) \<Rightarrow> bool \<Rightarrow>
   CtorParameter \<Rightarrow> bool" where
  "lacksToken v2e isAngularCore isCore param =
    (case resolveParam v2e isAngularCore isCore param of
       Inl _ \<Rightarrow> False
     | Inr acc \<Rightarrow> acc_token acc = None)"

definition missingTokenMessage :: "string \<Rightarrow> string \<Rightarrow> string" where
  "missingTokenMessage label className =
     ''No suitable injection token for parameter '' @ [CHR 0x27] @ label @ [CHR 0x27]
       @ '' of class '' @ [CHR 0x27] @ className @ [CHR 0x27] @ ''.''"

text \<open>
  Modelled from the spec: \<open>valueReferenceToExpression\<close> and \<open>isAngularCore\<close> of \<open>./util\<close> and
  the partial evaluator are not among the sources. These are the collaborators used where a
  concrete run is evaluated: a token is resolved from a parameter's static type ("resolve an
  injection token from its static type"), unless the type has no value; a decorator counts when
  it is imported from \<open>@angular/core\<close>; string literals evaluate to their text and array
  literals to the array of their elements' values.
\<close>

definition valueReferenceToExpression :: "TypeValueReference \<Rightarrow> Expression option" where
  "valueReferenceToExpression valueRef =
    (case valueRef of
       UNAVAILABLE _ \<Rightarrow> None
     | LOCAL expression \<Rightarrow> Some (WrappedNodeExpr expression)
     | IMPORTED moduleName importedName \<Rightarrow> Some (ExternalExpr moduleName importedName))"

definition isAngularCore :: "Decorator \<Rightarrow> bool" where
  "isAngularCore dec =
    (case dec_import dec of
       None \<Rightarrow> False
     | Some imp \<Rightarrow> import_from imp = ''@angular/core'')"

fun literalEvaluator :: "TsNode \<Rightarrow> ResolvedValue" where
  "literalEvaluator (StringLiteralLike s) = RString s"
| "literalEvaluator (ArrayLiteralExpression ns) = RArray (map literalEvaluator ns)"
| "literalEvaluator (ObjectLiteralExpression props) = ROther 0"
| "literalEvaluator (OtherNode n) = ROther n"

definition noOtherThrows :: OtherSteps where
  "noOtherThrows = \<lparr>queries_step = None, host_step = None, exportAs_step = None,
                     standalone_step = None, hostDirectives_step = None\<rparr>"

text \<open>
  What the input and output maps are said to be, for comparison with what the code computes.
  An entry of a decorator-level array is written "field" or "field: alias": it declares the
  field under its own name, or under the alias (under its own name again when the alias is
  blank). A decorator of a member declares the member under its own name, or under the alias
  that is its one argument; \<open>aliased\<close> is the shape of an aliased declaration, the pair of
  alias and member name for an input and the alias for an output. Of several declarations of
  one field the last one counts.
\<close>

definition entryText :: "string \<times> string option \<Rightarrow> string" where
  "entryText en =
    (case en of
       (field, None) \<Rightarrow> field
     | (field, Some alias) \<Rightarrow> field @ CHR '':'' # alias)"

definition entryDeclares :: "string \<times> string option \<Rightarrow> string \<times> MappingValue" where
  "entryDeclares en =
    (case en of
       (field, None) \<Rightarrow> (trim field, Plain (trim field))
     | (field, Some alias) \<Rightarrow>
         (trim field, Plain (if trim alias = [] then trim field else trim alias)))"

definition arrayDeclared :: "(string \<times> string option) list \<Rightarrow> (string \<rightharpoonup> MappingValue)" where
  "arrayDeclared entries = map_of (rev (map entryDeclares entries))"

definition decoratorDeclares ::
  "(string \<Rightarrow> string \<Rightarrow> MappingValue) \<Rightarrow> (TsNode \<Rightarrow> ResolvedValue) \<Rightarrow> string \<Rightarrow> Decorator \<Rightarrow>
   MappingValue" where
  "decoratorDeclares aliased evaluate name d =
    (case dec_args d of
       Some [arg] \<Rightarrow> (case evaluate arg of RString alias \<Rightarrow> aliased alias name | _ \<Rightarrow> Plain name)
     | _ \<Rightarrow> Plain name)"

definition membersDeclared ::
  "(string \<Rightarrow> string \<Rightarrow> MappingValue) \<Rightarrow> (TsNode \<Rightarrow> ResolvedValue) \<Rightarrow>
   (ClassMember \<times> Decorator list) list \<Rightarrow> (string \<rightharpoonup> MappingValue)" where
  "membersDeclared aliased evaluate flds =
    map_of (rev (concat (map (\<lambda>(member, decorators).
                   map (\<lambda>d. (member_name member,
                             decoratorDeclares aliased evaluate (member_name member) d))
                       decorators) flds)))"

text \<open>An entry is of one of the two forms when neither part contains a colon.\<close>

definition entryForm :: "string \<times> string option \<Rightarrow> bool" where
  "entryForm en =
    (CHR '':'' \<notin> set (fst en)
     \<and> (case snd en of None \<Rightarrow> True | Some alias \<Rightarrow> CHR '':'' \<notin> set alias))"

text \<open>
  The array under a key of the decorator is the given list of entries: the key is missing and
  the list is empty, or the key's expression evaluates to the array of the entries' texts.
\<close>

definition arrayHolds ::
  "(string \<rightharpoonup> TsNode) \<Rightarrow> (TsNode \<Rightarrow> ResolvedValue) \<Rightarrow> string \<Rightarrow>
   (string \<times> string option) list \<Rightarrow> bool" where
  "arrayHolds directive evaluate field entries =
    (case directive field of
       None \<Rightarrow> entries = []
     | Some expression \<Rightarrow>
         evaluate expression = RArray (map (\<lambda>en. RString (entryText en)) entries))"


section \<open>NgModule handler: remote scoping (annotations/ng_module handler)\<close>

text \<open>
  A \<open>Reference\<close> to a class declaration: the declaration node (by number) and the
  \<open>synthetic\<close> flag, set when the reference came out of a foreign-function resolver such as
  the \<open>forwardRef\<close> resolver.
\<close>

record Reference =
  ref_node :: nat
  synthetic :: bool

definition isSyntheticReference :: "Reference \<Rightarrow> bool" where
  "isSyntheticReference ref = synthetic ref"

text \<open>
  The constant computed at the end of \<open>analyze\<close> from the declaration and import references
  that \<open>resolveTypeList\<close> returned.
\<close>

definition remoteScopesMayRequireCycleProtection :: "Reference list \<Rightarrow> Reference list \<Rightarrow> bool" where
  "remoteScopesMayRequireCycleProtection declarationRefs importRefs =
     (list_ex isSyntheticReference declarationRefs \<or> list_ex isSyntheticReference importRefs)"

text \<open>
  The fields of the analysis record that \<open>compileFull\<close> hands to the remote scoping step, as
  \<open>analyze\<close> fills them in its final \<open>return\<close>.
\<close>

record NgModuleAnalysis =
  an_declarations :: "Reference list"
  an_importRefs :: "Reference list"
  an_remoteScopesMayRequireCycleProtection :: bool

definition analysisOf :: "Reference list \<Rightarrow> Reference list \<Rightarrow> NgModuleAnalysis" where
  "analysisOf declarationRefs importRefs =
     \<lparr>an_declarations = declarationRefs, an_importRefs = importRefs,
      an_remoteScopesMayRequireCycleProtection =
        remoteScopesMayRequireCycleProtection declarationRefs importRefs\<rparr>"

text \<open>
  Modelled from the spec: \<open>assertSuccessfulReferenceEmit\<close> belongs to the imports package, which
  is not among the sources. The reference emitter is a parameter \<open>emit\<close> that yields the
  emitted expression or fails (\<open>None\<close>); a failed emit is thrown as a fatal diagnostic that
  says which kind of reference could not be imported.
\<close>

definition assertSuccessfulReferenceEmit :: "Expression option \<Rightarrow> string \<Rightarrow> Thrown + Expression" where
  "assertSuccessfulReferenceEmit emitted typeName =
    (case emitted of
       None \<Rightarrow> Inl (FatalDiagnosticError IMPORT_GENERATION_FAILURE
                      (''Unable to import '' @ typeName) None [])
     | Some expression \<Rightarrow> Inr expression)"

text \<open>
  \<open>refs.map(ref => { emit; assertSuccessfulReferenceEmit; return type.expression })\<close>: the
  first failing reference throws.
\<close>

fun emitAll :: "(Reference \<Rightarrow> Expression option) \<Rightarrow> string \<Rightarrow> Reference list \<Rightarrow>
                Thrown + Expression list" where
  "emitAll emit typeName [] = Inr []"
| "emitAll emit typeName (ref # refs) =
    bindE (assertSuccessfulReferenceEmit (emit ref) typeName) (\<lambda>expression.
    bindE (emitAll emit typeName refs) (\<lambda>expressions.
      Inr (expression # expressions)))"

text \<open>
  \<open>R3Identifiers.setComponentScope\<close> (\<open>@angular/compiler\<close>): the external reference to the
  runtime instruction; its emitted name carries the instruction prefix, left out here.
\<close>

definition setComponentScope :: Expression where
  "setComponentScope = ExternalExpr ''@angular/core'' ''setComponentScope''"

text \<open>
  \<open>appendRemoteScopingStatements\<close>: \<open>getRemoteScope\<close> is the scope registry's answer for a
  declaration node, the directives and pipes of its remote scope or null.
\<close>

fun appendRemoteScopingStatements ::
  "(Reference \<Rightarrow> Expression option) \<Rightarrow> (nat \<Rightarrow> (Reference list \<times> Reference list) option) \<Rightarrow>
   Statement list \<Rightarrow> Reference list \<Rightarrow> bool \<Rightarrow> Thrown + Statement list" where
  "appendRemoteScopingStatements emit getRemoteScope ngModuleStatements [] protection =
     Inr ngModuleStatements"
| "appendRemoteScopingStatements emit getRemoteScope ngModuleStatements (decl # decls) protection =
    (case getRemoteScope (ref_node decl) of
       None \<Rightarrow> appendRemoteScopingStatements emit getRemoteScope ngModuleStatements decls protection
     | Some (scopeDirectives, scopePipes) \<Rightarrow>
        bindE (emitAll emit ''directive'' scopeDirectives) (\<lambda>directives.
        bindE (emitAll emit ''pipe'' scopePipes) (\<lambda>pipes.
          let directiveArray = LiteralArrayExpr directives;
              pipesArray = LiteralArrayExpr pipes;
              directiveExpr = (if protection \<and> length directives > 0
                               then FunctionExpr [] [ReturnStatement directiveArray]
                               else directiveArray);
              pipesExpr = (if protection \<and> length pipes > 0
                           then FunctionExpr [] [ReturnStatement pipesArray]
                           else pipesArray)
          in
          bindE (assertSuccessfulReferenceEmit (emit decl) ''component'') (\<lambda>declExpr.
            let callExpr = InvokeFunctionExpr setComponentScope [declExpr, directiveExpr, pipesExpr]
            in appendRemoteScopingStatements emit getRemoteScope
                 (ngModuleStatements @ [ExpressionStatement callExpr]) decls protection))))"

definition insertMetadataStatement :: "Statement list \<Rightarrow> Expression option \<Rightarrow> Statement list" where
  "insertMetadataStatement ngModuleStatements metadata =
    (case metadata of
       None \<Rightarrow> ngModuleStatements
     | Some m \<Rightarrow> ExpressionStatement m # ngModuleStatements)"

text \<open>
  \<open>compileFull\<close> and \<open>compilePartial\<close>, as far as the statements of the module definition
  entry go. What \<open>compileNgModule(mod)\<close> (or its partial counterpart) contributes, and the
  compiled class metadata, are parameters; the result is the statement list of the
  module definition entry of the returned \<open>CompileResult\<close> array.
\<close>

definition compileFull ::
  "(Reference \<Rightarrow> Expression option) \<Rightarrow> (nat \<Rightarrow> (Reference list \<times> Reference list) option) \<Rightarrow>
   Statement list \<Rightarrow> Expression option \<Rightarrow> NgModuleAnalysis \<Rightarrow> Thrown + Statement list" where
  "compileFull emit getRemoteScope ngModuleDefStatements metadata analysis =
     appendRemoteScopingStatements emit getRemoteScope
       (insertMetadataStatement ngModuleDefStatements metadata)
       (an_declarations analysis) (an_remoteScopesMayRequireCycleProtection analysis)"

definition compilePartial ::
  "Statement list \<Rightarrow> Expression option \<Rightarrow> NgModuleAnalysis \<Rightarrow> Thrown + Statement list" where
  "compilePartial ngModuleDefStatements metadata analysis =
     Inr (insertMetadataStatement ngModuleDefStatements metadata)"

text \<open>
  The statement that patches the scope of one remotely scoped declaration, written from the
  description: a call of \<open>setComponentScope\<close> with the component, its directives and its pipes,
  each array wrapped in a closure without parameters when \<open>wrapped\<close> holds and the array
  is not empty.
\<close>

definition closureWrapped :: "bool \<Rightarrow> Expression list \<Rightarrow> Expression" where
  "closureWrapped wrapped es =
    (if wrapped \<and> es \<noteq> [] then FunctionExpr [] [ReturnStatement (LiteralArrayExpr es)]
     else LiteralArrayExpr es)"

definition scopePatchStatement :: "bool \<Rightarrow> Expression \<Rightarrow> Expression list \<Rightarrow> Expression list \<Rightarrow> Statement" where
  "scopePatchStatement wrapped declExpr directives pipes =
     ExpressionStatement
       (InvokeFunctionExpr setComponentScope
          [declExpr, closureWrapped wrapped directives, closureWrapped wrapped pipes])"

section \<open>Listener dispatch (render3/instructions/listener.ts)\<close>

text \<open>
  What a listener function returns is only compared with \<open>false\<close>. A listener is run on an
  event in an application state; it returns a value or throws, and leaves a new application
  state either way.
\<close>

datatype JsValue = JsFalse | JsTrue | JsUndefined | JsOther nat

type_synonym ('s, 'e, 'x) listenerFn = "'e \<Rightarrow> 's \<Rightarrow> ('x + JsValue) \<times> 's"

text \<open>
  The effects of a dispatch on the view, in the order in which they happen: the two profiler
  calls around a listener, an error handed to the error handler, the view marked dirty.
\<close>

datatype 'x Effect = OutputStart | OutputEnd | HandledError 'x | MarkViewDirty

record ('s, 'x) DispatchState =
  app :: 's
  trace :: "'x Effect list"
  defaultPrevented :: bool
  returnValueFalse :: bool

text \<open>
  Modelled from the spec: \<open>handleError\<close> comes from \<open>./shared\<close>, which is not among the
  sources ("the exception is routed to the error handler"): the error is passed on to the error
  handler, recorded here in the trace.
\<close>

definition handleError :: "('s, 'x) DispatchState \<Rightarrow> 'x \<Rightarrow> ('s, 'x) DispatchState" where
  "handleError lView error = lView\<lparr>trace := trace lView @ [HandledError error]\<rparr>"

definition profiler :: "'x Effect \<Rightarrow> ('s, 'x) DispatchState \<Rightarrow> ('s, 'x) DispatchState" where
  "profiler event lView = lView\<lparr>trace := trace lView @ [event]\<rparr>"

text \<open>
  \<open>executeListenerWithErrorHandling\<close>: \<open>try\<close> runs the listener and compares with \<open>false\<close>,
  \<open>catch\<close> hands the error over and yields \<open>false\<close>, \<open>finally\<close> closes the profiler span.
\<close>

definition executeListenerWithErrorHandling ::
  "('s, 'x) DispatchState \<Rightarrow> ('s, 'e, 'x) listenerFn \<Rightarrow> 'e \<Rightarrow> bool \<times> ('s, 'x) DispatchState" where
  "executeListenerWithErrorHandling lView listenerFn e =
    (let lView1 = profiler OutputStart lView;
         (outcome, app') = listenerFn e (app lView1);
         lView2 = lView1\<lparr>app := app'\<rparr>
     in case outcome of
          Inr v \<Rightarrow> (v \<noteq> JsFalse, profiler OutputEnd lView2)
        | Inl error \<Rightarrow> (False, profiler OutputEnd (handleError lView2 error)))"

text \<open>
  The \<open>while\<close> loop over the coalesced listeners. The chain that \<open>listenerInternal\<close> links
  through \<open>__ngNextListenerFn__\<close> is the list of its functions in the order of registration.
\<close>

fun nextListeners ::
  "('s, 'e, 'x) listenerFn list \<Rightarrow> 'e \<Rightarrow> bool \<Rightarrow> ('s, 'x) DispatchState \<Rightarrow>
   bool \<times> ('s, 'x) DispatchState" where
  "nextListeners [] e result lView = (result, lView)"
| "nextListeners (nextListenerFn # rest) e result lView =
    (let (r, lView') = executeListenerWithErrorHandling lView nextListenerFn e
     in nextListeners rest e (r \<and> result) lView')"

text \<open>
  The event argument: the special token \<open>Function\<close>, which unwraps the listener, or an event.
\<close>

datatype 'e EventArg = FunctionToken | DomEvent 'e

datatype ('s, 'e, 'x) WrapResult = Unwrapped "('s, 'e, 'x) listenerFn" | Dispatched bool

text \<open>
  The function returned by \<open>wrapListener\<close>, applied to its argument; \<open>chained\<close> is the chain
  hanging off the wrapper when it is called.
\<close>

definition wrapListener ::
  "bool \<Rightarrow> ('s, 'e, 'x) listenerFn \<Rightarrow> ('s, 'e, 'x) listenerFn list \<Rightarrow> 'e EventArg \<Rightarrow>
   ('s, 'x) DispatchState \<Rightarrow> ('s, 'e, 'x) WrapResult \<times> ('s, 'x) DispatchState" where
  "wrapListener wrapWithPreventDefault listenerFn chained arg lView =
    (case arg of
       FunctionToken \<Rightarrow> (Unwrapped listenerFn, lView)
     | DomEvent e \<Rightarrow>
        (let lView0 = lView\<lparr>trace := trace lView @ [MarkViewDirty]\<rparr>;
             (result0, lView1) = executeListenerWithErrorHandling lView0 listenerFn e;
             (result, lView2) = nextListeners chained e result0 lView1
         in if wrapWithPreventDefault \<and> result = False
            then (Dispatched result, lView2\<lparr>defaultPrevented := True, returnValueFalse := True\<rparr>)
            else (Dispatched result, lView2)))"

text \<open>
  For comparison: the listener that does to the application state what \<open>h\<close> does and then
  returns \<open>false\<close> explicitly; the application state after all listeners of a chain have run in
  order; the trace without the errors handed to the error handler.
\<close>

definition returningFalse :: "('s, 'e, 'x) listenerFn \<Rightarrow> ('s, 'e, 'x) listenerFn" where
  "returningFalse h = (\<lambda>e s. (Inr JsFalse, snd (h e s)))"

definition allRun :: "('s, 'e, 'x) listenerFn list \<Rightarrow> 'e \<Rightarrow> 's \<Rightarrow> 's" where
  "allRun fs e s = foldl (\<lambda>s f. snd (f e s)) s fs"

definition withoutHandled :: "'x Effect list \<Rightarrow> 'x Effect list" where
  "withoutHandled t = filter (\<lambda>ev. case ev of HandledError _ \<Rightarrow> False | _ \<Rightarrow> True) t"

definition sameButHandled :: "('s, 'x) DispatchState \<Rightarrow> ('s, 'x) DispatchState \<Rightarrow> bool" where
  "sameButHandled a b =
    (app a = app b \<and> defaultPrevented a = defaultPrevented b
     \<and> returnValueFalse a = returnValueFalse b
     \<and> withoutHandled (trace a) = withoutHandled (trace b))"

section \<open>Provider resolution on a node (render3/di_setup.ts)\<close>

text \<open>
  A provider as \<open>resolveProvider\<close> sees it after \<open>resolveForwardRef\<close>: a class used as its
  own token, an object with \<open>provide\<close> and the \<open>multi\<close> flag, or an array of providers.
  \<open>providerToFactory\<close> turns a provider into a function without parameters; such a function
  is represented by the value it produces, which each provider carries here.
\<close>

datatype ('t, 'v) Provider =
    TypeProvider 't 'v
  | ObjectProvider 't 'v bool
  | ProviderArray "('t, 'v) Provider list"

text \<open>
  The function a \<open>NodeInjectorFactory\<close> runs: the factory of a single provider, or one of the
  two resolvers of multi providers.
\<close>

datatype 'v FactoryFn =
    ProviderFactory 'v
  | MultiProvidersFactoryResolver
  | MultiViewProvidersFactoryResolver

text \<open>
  \<open>NodeInjectorFactory\<close> objects are shared: the same object is pushed to the blueprint and to
  the view, and a view-providers factory refers to the providers factory through
  \<open>providerFactory\<close>. They live in a store and are referred to by address. The optional
  fields are \<open>None\<close> while undefined.
\<close>

record 'v NodeInjectorFactory =
  nif_factory :: "'v FactoryFn"
  nif_canSeeViewProviders :: bool
  nif_multi :: "'v list option"
  nif_index :: "nat option"
  nif_componentProviders :: "nat option"
  nif_providerFactory :: "nat option"

datatype 'v Injected = One 'v | Many "'v list" | Undefined

datatype 'v LSlot = LFactory nat | LValue "'v Injected"

text \<open>
  The mutable data \<open>resolveProvider\<close> works on: \<open>tView.data\<close> (a token, or something that is
  no token), \<open>tView.blueprint\<close> (the address of a factory, or an empty slot), the view, the
  store of factory objects, and the three fields of the current node.
\<close>

record ('t, 'v) ProviderState =
  pv_firstCreatePass :: bool
  pv_tData :: "'t option list"
  pv_blueprint :: "nat option list"
  pv_view :: "'v LSlot list"
  pv_store :: "'v NodeInjectorFactory list"
  pv_providerIndexes :: nat
  pv_directiveStart :: nat
  pv_directiveEnd :: nat

text \<open>
  The enum \<open>TNodeProviderIndexes\<close> is declared in \<open>interfaces/node.ts\<close>, which is not among the
  sources; its three members are parameters.
\<close>

record TNodeProviderIndexes =
  ProvidersStartIndexMask :: nat
  CptViewProvidersCountShift :: nat
  CptViewProvidersCountShifter :: nat

datatype JsError = TypeError

definition indexOf :: "'t \<Rightarrow> 't option list \<Rightarrow> nat \<Rightarrow> nat \<Rightarrow> nat option" where
  "indexOf item arr begin end =
     List.find (\<lambda>i. i < length arr \<and> arr ! i = Some item) [begin..<end]"

text \<open>An assignment \<open>arr[i] = v\<close>; JavaScript extends the array when \<open>i\<close> is past its end.\<close>

definition jsAssign :: "'a \<Rightarrow> 'a list \<Rightarrow> nat \<Rightarrow> 'a \<Rightarrow> 'a list" where
  "jsAssign hole arr i v =
    (if i < length arr then arr[i := v]
     else arr @ replicate (i - length arr) hole @ [v])"

definition multiResolve :: "'v list \<Rightarrow> 'v list \<Rightarrow> 'v list" where
  "multiResolve factories result = result @ factories"

text \<open>
  \<open>multiFactoryAdd\<close> on the factory object at address \<open>a\<close>; the result is the index at which
  the factory was inserted. A factory without \<open>multi\<close> makes \<open>push\<close> fail.
\<close>

definition multiFactoryAdd ::
  "'v NodeInjectorFactory list \<Rightarrow> nat \<Rightarrow> 'v \<Rightarrow> bool \<Rightarrow> JsError + (nat \<times> 'v NodeInjectorFactory list)" where
  "multiFactoryAdd store a f isComponentProvider =
    (if a < length store then
       (let multiFactory = store ! a;
            multiFactory1 =
              (if isComponentProvider
               then multiFactory\<lparr>nif_componentProviders :=
                      map_option Suc (nif_componentProviders multiFactory)\<rparr>
               else multiFactory)
        in case nif_multi multiFactory1 of
             None \<Rightarrow> Inl TypeError
           | Some fs \<Rightarrow>
               Inr (length fs, store[a := multiFactory1\<lparr>nif_multi := Some (fs @ [f])\<rparr>]))
     else Inl TypeError)"

text \<open>\<open>multiFactory\<close>: the new factory object, before it is put into the store.\<close>

definition multiFactory :: "'v FactoryFn \<Rightarrow> nat \<Rightarrow> bool \<Rightarrow> bool \<Rightarrow> 'v \<Rightarrow> 'v NodeInjectorFactory" where
  "multiFactory factoryFn index isViewProvider isComponent f =
     \<lparr>nif_factory = factoryFn, nif_canSeeViewProviders = isViewProvider,
      nif_multi = Some [f], nif_index = Some index,
      nif_componentProviders = Some (if isComponent \<and> \<not> isViewProvider then 1 else 0),
      nif_providerFactory = None\<rparr>"

text \<open>
  The pushes shared by the branches that register a new token: \<open>tInjectables.push(token)\<close>,
  the two increments, the count of view providers, and the factory pushed to blueprint and
  view. \<open>diPublicInInjector\<close> (the bloom filter of the node injector) and
  \<open>registerDestroyHooksIfSupported\<close> (\<open>tView.destroyHooks\<close>) touch data that no lookup of a
  provider value reads; they are left out.
\<close>

definition pushFactory ::
  "TNodeProviderIndexes \<Rightarrow> 't \<Rightarrow> 'v NodeInjectorFactory \<Rightarrow> bool \<Rightarrow> ('t, 'v) ProviderState \<Rightarrow>
   ('t, 'v) ProviderState" where
  "pushFactory ix tok factory isViewProvider st =
    (let a = length (pv_store st)
     in st\<lparr>pv_tData := pv_tData st @ [Some tok],
            pv_directiveStart := pv_directiveStart st + 1,
            pv_directiveEnd := pv_directiveEnd st + 1,
            pv_providerIndexes :=
              (if isViewProvider
               then pv_providerIndexes st + CptViewProvidersCountShifter ix
               else pv_providerIndexes st),
            pv_blueprint := pv_blueprint st @ [Some a],
            pv_view := pv_view st @ [LFactory a],
            pv_store := pv_store st @ [factory]\<rparr>)"

text \<open>The slot of the blueprint at an index that \<open>indexOf\<close> returned, if it holds a factory.\<close>

definition blueprintFactory :: "('t, 'v) ProviderState \<Rightarrow> nat option \<Rightarrow> nat option" where
  "blueprintFactory st idx =
    (case idx of
       None \<Rightarrow> None
     | Some i \<Rightarrow> if i < length (pv_blueprint st) then pv_blueprint st ! i else None)"

text \<open>The single provider case of \<open>resolveProvider\<close>.\<close>

definition resolveSingle ::
  "TNodeProviderIndexes \<Rightarrow> 't \<Rightarrow> 'v \<Rightarrow> bool \<Rightarrow> ('t, 'v) ProviderState \<Rightarrow>
   JsError + ('t, 'v) ProviderState" where
  "resolveSingle ix tok providerFactory isViewProvider st =
    (let beginIndex = pv_providerIndexes st AND ProvidersStartIndexMask ix;
         endIndex = pv_directiveStart st;
         cptViewProvidersCount =
           drop_bit (CptViewProvidersCountShift ix) (pv_providerIndexes st);
         factory = \<lparr>nif_factory = ProviderFactory providerFactory,
                     nif_canSeeViewProviders = isViewProvider,
                     nif_multi = None, nif_index = None, nif_componentProviders = None,
                     nif_providerFactory = None\<rparr>
     in case indexOf tok (pv_tData st)
               (if isViewProvider then beginIndex else beginIndex + cptViewProvidersCount)
               endIndex of
          None \<Rightarrow> Inr (pushFactory ix tok factory isViewProvider st)
        | Some existingFactoryIndex \<Rightarrow>
            (let a = length (pv_store st)
             in Inr (st\<lparr>pv_blueprint :=
                          jsAssign None (pv_blueprint st) existingFactoryIndex (Some a),
                        pv_view :=
                          jsAssign (LValue Undefined) (pv_view st) existingFactoryIndex (LFactory a),
                        pv_store := pv_store st @ [factory]\<rparr>)))"

text \<open>The multi provider case of \<open>resolveProvider\<close>.\<close>

definition resolveMulti ::
  "TNodeProviderIndexes \<Rightarrow> 't \<Rightarrow> 'v \<Rightarrow> bool \<Rightarrow> bool \<Rightarrow> ('t, 'v) ProviderState \<Rightarrow>
   JsError + ('t, 'v) ProviderState" where
  "resolveMulti ix tok providerFactory isComponent isViewProvider st =
    (let beginIndex = pv_providerIndexes st AND ProvidersStartIndexMask ix;
         endIndex = pv_directiveStart st;
         cptViewProvidersCount =
           drop_bit (CptViewProvidersCountShift ix) (pv_providerIndexes st);
         existingProvidersFactoryIndex =
           indexOf tok (pv_tData st) (beginIndex + cptViewProvidersCount) endIndex;
         existingViewProvidersFactoryIndex =
           indexOf tok (pv_tData st) beginIndex (beginIndex + cptViewProvidersCount);
         doesProvidersFactoryExist = blueprintFactory st existingProvidersFactoryIndex;
         doesViewProvidersFactoryExist = blueprintFactory st existingViewProvidersFactoryIndex
     in
     bindE
       (if isViewProvider \<and> doesViewProvidersFactoryExist = None
           \<or> \<not> isViewProvider \<and> doesProvidersFactoryExist = None
        then
          (let factory = multiFactory
                 (if isViewProvider then MultiViewProvidersFactoryResolver
                  else MultiProvidersFactoryResolver)
                 (length (pv_blueprint st)) isViewProvider isComponent providerFactory;
               a = length (pv_store st);
               store1 =
                 (case doesViewProvidersFactoryExist of
                    Some va \<Rightarrow>
                      if \<not> isViewProvider \<and> va < length (pv_store st)
                      then (pv_store st)[va := (pv_store st ! va)\<lparr>nif_providerFactory := Some a\<rparr>]
                      else pv_store st
                  | None \<Rightarrow> pv_store st)
           in Inr (pushFactory ix tok factory isViewProvider (st\<lparr>pv_store := store1\<rparr>)))
        else
          (case (if isViewProvider then doesViewProvidersFactoryExist
                 else doesProvidersFactoryExist) of
             None \<Rightarrow> Inl TypeError
           | Some a \<Rightarrow>
               bindE (multiFactoryAdd (pv_store st) a providerFactory
                        (\<not> isViewProvider \<and> isComponent))
                 (\<lambda>(indexInFactory, store'). Inr (st\<lparr>pv_store := store'\<rparr>))))
       (\<lambda>st1.
          case doesViewProvidersFactoryExist of
            Some va \<Rightarrow>
              if \<not> isViewProvider \<and> isComponent \<and> va < length (pv_store st1)
              then Inr (st1\<lparr>pv_store := (pv_store st1)
                         [va := (pv_store st1 ! va)\<lparr>nif_componentProviders :=
                                  map_option Suc (nif_componentProviders (pv_store st1 ! va))\<rparr>]\<rparr>)
              else Inr st1
          | None \<Rightarrow> Inr st1))"

fun resolveProvider ::
  "TNodeProviderIndexes \<Rightarrow> ('t, 'v) Provider \<Rightarrow> bool \<Rightarrow> bool \<Rightarrow> ('t, 'v) ProviderState \<Rightarrow>
   JsError + ('t, 'v) ProviderState"
and resolveProviderArray ::
  "TNodeProviderIndexes \<Rightarrow> ('t, 'v) Provider list \<Rightarrow> bool \<Rightarrow> bool \<Rightarrow> ('t, 'v) ProviderState \<Rightarrow>
   JsError + ('t, 'v) ProviderState" where
  "resolveProvider ix (ProviderArray ps) isComponent isViewProvider st =
     resolveProviderArray ix ps isComponent isViewProvider st"
| "resolveProvider ix (TypeProvider cls inst) isComponent isViewProvider st =
     resolveSingle ix cls inst isViewProvider st"
| "resolveProvider ix (ObjectProvider tok v isMulti) isComponent isViewProvider st =
     (if \<not> isMulti then resolveSingle ix tok v isViewProvider st
      else resolveMulti ix tok v isComponent isViewProvider st)"
| "resolveProviderArray ix [] isComponent isViewProvider st = Inr st"
| "resolveProviderArray ix (p # ps) isComponent isViewProvider st =
     bindE (resolveProvider ix p isComponent isViewProvider st)
       (\<lambda>st'. resolveProviderArray ix ps isComponent isViewProvider st')"

text \<open>
  \<open>providersResolver\<close>: \<open>isComponent\<close> is \<open>isComponentDef(def)\<close>; the view providers are
  processed first.
\<close>

definition providersResolver ::
  "TNodeProviderIndexes \<Rightarrow> bool \<Rightarrow> ('t, 'v) Provider list \<Rightarrow> ('t, 'v) Provider list \<Rightarrow>
   ('t, 'v) ProviderState \<Rightarrow> JsError + ('t, 'v) ProviderState" where
  "providersResolver ix isComponent providers viewProviders st =
    (if pv_firstCreatePass st then
       bindE (resolveProvider ix (ProviderArray viewProviders) isComponent True st)
         (\<lambda>st1. resolveProvider ix (ProviderArray providers) isComponent False st1)
     else Inr st)"

text \<open>\<open>multiProvidersFactoryResolver\<close>, run on the factory object \<open>this\<close>.\<close>

definition multiProvidersFactoryResolver :: "'v NodeInjectorFactory \<Rightarrow> JsError + 'v list" where
  "multiProvidersFactoryResolver this =
    (case nif_multi this of
       None \<Rightarrow> Inl TypeError
     | Some factories \<Rightarrow> Inr (multiResolve factories []))"

text \<open>
  \<open>multiViewProvidersFactoryResolver\<close>, run on the factory object \<open>this\<close>. \<open>inject\<close> is
  \<open>getNodeInjectable\<close> as it is called for the linked providers factory; \<open>None\<close> means that
  this call did not return. An undefined \<open>componentProviders\<close> makes \<open>slice\<close> copy the whole
  array and the final loop copy nothing.
\<close>

definition multiViewProvidersFactoryResolver ::
  "(('t, 'v) ProviderState \<Rightarrow> nat option \<Rightarrow> (JsError + 'v Injected \<times> ('t, 'v) ProviderState) option)
   \<Rightarrow> 'v NodeInjectorFactory \<Rightarrow> ('t, 'v) ProviderState \<Rightarrow>
   (JsError + 'v list \<times> ('t, 'v) ProviderState) option" where
  "multiViewProvidersFactoryResolver inject this lView =
    (case nif_providerFactory this of
       Some pa \<Rightarrow>
         if pa < length (pv_store lView) then
           (let componentCount = nif_componentProviders (pv_store lView ! pa)
            in case inject lView (nif_index (pv_store lView ! pa)) of
                 None \<Rightarrow> None
               | Some (Inl err) \<Rightarrow> Some (Inl err)
               | Some (Inr (Many multiProviders, lView')) \<Rightarrow>
                   (case nif_multi this of
                      None \<Rightarrow> Some (Inl TypeError)
                    | Some factories \<Rightarrow>
                        (let result = (case componentCount of
                                         Some c \<Rightarrow> take c multiProviders
                                       | None \<Rightarrow> multiProviders);
                             result1 = multiResolve factories result;
                             result2 = result1 @ (case componentCount of
                                                    Some c \<Rightarrow> drop c multiProviders
                                                  | None \<Rightarrow> [])
                         in Some (Inr (result2, lView'))))
               | Some (Inr (_, lView')) \<Rightarrow> Some (Inl TypeError))
         else Some (Inl TypeError)
     | None \<Rightarrow>
         (case nif_multi this of
            None \<Rightarrow> Some (Inl TypeError)
          | Some factories \<Rightarrow> Some (Inr (multiResolve factories [], lView))))"

text \<open>
  Modelled from the spec: \<open>getNodeInjectable\<close> is defined in \<open>render3/di.ts\<close>, which is not
  among the sources ("associates a DI token with a lazily-instantiated provider value"). The
  slot of the view at the index holds a value, which is returned, or a factory, which is run
  once: its result replaces it in the slot. The view-providers resolver calls back into
  \<open>getNodeInjectable\<close>; the depth of these calls is bounded by the first argument, and \<open>None\<close>
  means that the bound was reached.
\<close>

primrec getNodeInjectable ::
  "nat \<Rightarrow> ('t, 'v) ProviderState \<Rightarrow> nat option \<Rightarrow>
   (JsError + 'v Injected \<times> ('t, 'v) ProviderState) option" where
  "getNodeInjectable 0 = (\<lambda>lView index. None)"
| "getNodeInjectable (Suc fuel) = (\<lambda>lView index.
    case index of
      None \<Rightarrow> Some (Inr (Undefined, lView))
    | Some i \<Rightarrow>
        if i < length (pv_view lView) then
          (case pv_view lView ! i of
             LValue v \<Rightarrow> Some (Inr (v, lView))
           | LFactory a \<Rightarrow>
               if a < length (pv_store lView) then
                 (case nif_factory (pv_store lView ! a) of
                    ProviderFactory v \<Rightarrow>
                      Some (Inr (One v, lView\<lparr>pv_view := (pv_view lView)[i := LValue (One v)]\<rparr>))
                  | MultiProvidersFactoryResolver \<Rightarrow>
                      (case multiProvidersFactoryResolver (pv_store lView ! a) of
                         Inl err \<Rightarrow> Some (Inl err)
                       | Inr vs \<Rightarrow>
                           Some (Inr (Many vs,
                                      lView\<lparr>pv_view := (pv_view lView)[i := LValue (Many vs)]\<rparr>)))
                  | MultiViewProvidersFactoryResolver \<Rightarrow>
                      (case multiViewProvidersFactoryResolver (getNodeInjectable fuel)
                              (pv_store lView ! a) lView of
                         None \<Rightarrow> None
                       | Some (Inl err) \<Rightarrow> Some (Inl err)
                       | Some (Inr (vs, lView')) \<Rightarrow>
                           Some (Inr (Many vs,
                                      lView'\<lparr>pv_view := (pv_view lView')[i := LValue (Many vs)]\<rparr>))))
               else Some (Inl TypeError))
        else Some (Inr (Undefined, lView)))"

text \<open>
  Modelled from the spec: the lookup of a token among the providers of a node belongs to
  \<open>render3/di.ts\<close>, which is not among the sources ("providers are flattened and registered in
  a fixed order - view providers before component providers before other directives' providers -
  because lookups must find view providers first"). A lookup from within the component's view
  may see the view providers and starts at the first of them; any other lookup starts after
  them. The first slot registered for the token is instantiated.
\<close>

definition lookupProvider ::
  "TNodeProviderIndexes \<Rightarrow> nat \<Rightarrow> bool \<Rightarrow> 't \<Rightarrow> ('t, 'v) ProviderState \<Rightarrow>
   (JsError + 'v Injected \<times> ('t, 'v) ProviderState) option" where
  "lookupProvider ix fuel canAccessViewProviders tok lView =
    (let injectablesStart = pv_providerIndexes lView AND ProvidersStartIndexMask ix;
         cptViewProvidersCount =
           drop_bit (CptViewProvidersCountShift ix) (pv_providerIndexes lView);
         startingIndex = (if canAccessViewProviders then injectablesStart
                          else injectablesStart + cptViewProvidersCount)
     in case indexOf tok (pv_tData lView) startingIndex (pv_directiveStart lView) of
          None \<Rightarrow> Some (Inr (Undefined, lView))
        | Some i \<Rightarrow> getNodeInjectable fuel lView (Some i))"

text \<open>
  The members of \<open>TNodeProviderIndexes\<close> as used where a concrete run is evaluated: the low 20
  bits of \<open>providerIndexes\<close> hold the index of the first provider, the bits above count the view
  providers. A node without providers yet, whose injectables start at position \<open>n\<close>.
\<close>

definition packedIndexes :: TNodeProviderIndexes where
  "packedIndexes = \<lparr>ProvidersStartIndexMask = 1048575, CptViewProvidersCountShift = 20,
                     CptViewProvidersCountShifter = 1048576\<rparr>"

definition freshNode :: "nat \<Rightarrow> ('t, 'v) ProviderState" where
  "freshNode n =
     \<lparr>pv_firstCreatePass = True, pv_tData = replicate n None, pv_blueprint = replicate n None,
      pv_view = replicate n (LValue Undefined), pv_store = [],
      pv_providerIndexes = n, pv_directiveStart = n, pv_directiveEnd = n\<rparr>"

text \<open>
  The factory objects and the state that the multi providers of one token leave behind on a
  fresh node, used to state what \<open>providersResolver\<close> builds: the view-providers factory with
  the values \<open>vs\<close>, linked (or not yet) to the providers factory, which holds the values \<open>ps\<close>,
  of which the first \<open>cc\<close> come from the component.
\<close>

definition viewFactoryObj :: "'v list \<Rightarrow> nat option \<Rightarrow> nat \<Rightarrow> nat \<Rightarrow> 'v NodeInjectorFactory" where
  "viewFactoryObj vs link cc idx =
     \<lparr>nif_factory = MultiViewProvidersFactoryResolver, nif_canSeeViewProviders = True,
      nif_multi = Some vs, nif_index = Some idx, nif_componentProviders = Some cc,
      nif_providerFactory = link\<rparr>"

definition provFactoryObj :: "'v list \<Rightarrow> nat \<Rightarrow> nat \<Rightarrow> 'v NodeInjectorFactory" where
  "provFactoryObj ps cc idx =
     \<lparr>nif_factory = MultiProvidersFactoryResolver, nif_canSeeViewProviders = False,
      nif_multi = Some ps, nif_index = Some idx, nif_componentProviders = Some cc,
      nif_providerFactory = None\<rparr>"

definition stateAfterView :: "TNodeProviderIndexes \<Rightarrow> nat \<Rightarrow> 't \<Rightarrow> 'v list \<Rightarrow> ('t, 'v) ProviderState" where
  "stateAfterView ix n tok vs =
     \<lparr>pv_firstCreatePass = True,
      pv_tData = replicate n None @ [Some tok],
      pv_blueprint = replicate n None @ [Some 0],
      pv_view = replicate n (LValue Undefined) @ [LFactory 0],
      pv_store = [viewFactoryObj vs None 0 n],
      pv_providerIndexes = n + CptViewProvidersCountShifter ix,
      pv_directiveStart = Suc n, pv_directiveEnd = Suc n\<rparr>"

definition stateAfterBoth ::
  "TNodeProviderIndexes \<Rightarrow> nat \<Rightarrow> 't \<Rightarrow> 'v list \<Rightarrow> 'v list \<Rightarrow> nat \<Rightarrow> ('t, 'v) ProviderState" where
  "stateAfterBoth ix n tok vs ps cc =
     \<lparr>pv_firstCreatePass = True,
      pv_tData = replicate n None @ [Some tok, Some tok],
      pv_blueprint = replicate n None @ [Some 0, Some 1],
      pv_view = replicate n (LValue Undefined) @ [LFactory 0, LFactory 1],
      pv_store = [viewFactoryObj vs (Some 1) cc n, provFactoryObj ps cc (Suc n)],
      pv_providerIndexes = n + CptViewProvidersCountShifter ix,
      pv_directiveStart = Suc (Suc n), pv_directiveEnd = Suc (Suc n)\<rparr>"

text \<open>The packing of \<open>providerIndexes\<close> that the three enum members have to describe.\<close>

definition packing :: "TNodeProviderIndexes \<Rightarrow> bool" where
  "packing ix =
    (ProvidersStartIndexMask ix = mask (CptViewProvidersCountShift ix)
     \<and> CptViewProvidersCountShifter ix = 2 ^ CptViewProvidersCountShift ix)"

definition multiOf :: "'t \<Rightarrow> 'v list \<Rightarrow> ('t, 'v) Provider list" where
  "multiOf tok vs = map (\<lambda>v. ObjectProvider tok v True) vs"

text \<open>
  A lookup right after \<open>providersResolver\<close> has run on a state, and the value a lookup
  returned, if it returned one.
\<close>

definition lookupAfterResolving ::
  "TNodeProviderIndexes \<Rightarrow> bool \<Rightarrow> ('t, 'v) Provider list \<Rightarrow> ('t, 'v) Provider list \<Rightarrow>
   nat \<Rightarrow> bool \<Rightarrow> 't \<Rightarrow> ('t, 'v) ProviderState \<Rightarrow>
   (JsError + 'v Injected \<times> ('t, 'v) ProviderState) option" where
  "lookupAfterResolving ix isComponent providers viewProviders fuel canAccessViewProviders tok st =
    (case providersResolver ix isComponent providers viewProviders st of
       Inl err \<Rightarrow> Some (Inl err)
     | Inr st' \<Rightarrow> lookupProvider ix fuel canAccessViewProviders tok st')"

definition injectedValue ::
  "(JsError + 'v Injected \<times> ('t, 'v) ProviderState) option \<Rightarrow> 'v Injected option" where
  "injectedValue r = (case r of Some (Inr (v, _)) \<Rightarrow> Some v | _ \<Rightarrow> None)"

section \<open>View containers (linker/view_container_ref.ts)\<close>

text \<open>
  Views and containers are objects referred to by number. Of a view, the model keeps what its
  \<open>PARENT\<close> slot points to and the destroyed flag. Of a container it keeps the views in
  its slots behind the header, the \<open>VIEW_REFS\<close> slot (null until first used), whether the
  anchor node has a parent node in the DOM, and the views whose nodes stand before the anchor
  in the DOM, in document order.
\<close>

datatype Parent = ParentContainer nat | ParentView nat | ParentNull

record LViewData =
  lv_parent :: Parent
  lv_destroyed :: bool

text \<open>A \<open>ViewRef\<close> object: its identity and the view it wraps.\<close>

record ViewRef =
  vr_id :: nat
  vr_lView :: nat

record LContainer =
  lc_views :: "nat list"
  lc_viewRefs :: "ViewRef list option"
  lc_hasParentNode :: bool
  lc_dom :: "nat list"

text \<open>
  What the operations do, in the order in which they do it: the trace of a run.
\<close>

datatype VcEvent =
    EvInsertView nat nat
  | EvAddViewToContainer nat nat
  | EvViewRefsAdd nat nat
  | EvDetachLogical nat nat
  | EvDetachPhysical nat nat
  | EvViewRefsRemove nat nat
  | EvDestroyHooks nat

record VcState =
  vc_ngDevMode :: bool
  vc_lviews :: "nat \<Rightarrow> LViewData"
  vc_containers :: "nat \<Rightarrow> LContainer"
  vc_events :: "VcEvent list"
  vc_nextRef :: nat
  vc_nextView :: nat

datatype VcError =
    DestroyedView string
  | AssertionError string
  | OutsideModel

text \<open>
  An operation returns a value or throws, and leaves a state either way: what it changed
  before a throw stays changed.
\<close>

type_synonym 'a VcResult = "(VcError + 'a) \<times> VcState"

definition bindV :: "'a VcResult \<Rightarrow> ('a \<Rightarrow> VcState \<Rightarrow> 'b VcResult) \<Rightarrow> 'b VcResult" where
  "bindV m f = (case m of (Inl err, st) \<Rightarrow> (Inl err, st) | (Inr x, st) \<Rightarrow> f x st)"

definition updContainer :: "nat \<Rightarrow> (LContainer \<Rightarrow> LContainer) \<Rightarrow> VcState \<Rightarrow> VcState" where
  "updContainer c f st = st\<lparr>vc_containers := (vc_containers st)(c := f (vc_containers st c))\<rparr>"

definition updView :: "nat \<Rightarrow> (LViewData \<Rightarrow> LViewData) \<Rightarrow> VcState \<Rightarrow> VcState" where
  "updView v f st = st\<lparr>vc_lviews := (vc_lviews st)(v := f (vc_lviews st v))\<rparr>"

definition logEvent :: "VcEvent \<Rightarrow> VcState \<Rightarrow> VcState" where
  "logEvent ev st = st\<lparr>vc_events := vc_events st @ [ev]\<rparr>"

text \<open>Decimal rendering of an integer inside a template string.\<close>

definition decimalOfInt :: "int \<Rightarrow> string" where
  "decimalOfInt i =
    (if 0 \<le> i then decimalOfNat (nat i) else CHR ''-'' # decimalOfNat (nat (- i)))"

text \<open>
  Modelled from the spec: \<open>assertGreaterThan\<close> and \<open>assertLessThan\<close> belong to
  \<open>util/assert\<close>, which is not among the sources ("out-of-range indices are a
  programming-error diagnostic"): they throw the message when the comparison fails.
\<close>

definition assertGreaterThan :: "int \<Rightarrow> int \<Rightarrow> string \<Rightarrow> VcError option" where
  "assertGreaterThan actual expected msg =
     (if actual > expected then None else Some (AssertionError msg))"

definition assertLessThan :: "int \<Rightarrow> int \<Rightarrow> string \<Rightarrow> VcError option" where
  "assertLessThan actual expected msg =
     (if actual < expected then None else Some (AssertionError msg))"

text \<open>
  Modelled from the spec: \<open>addToArray\<close> and \<open>removeFromArray\<close> belong to
  \<open>util/array_utils\<close>, which is not among the sources ("array splice"): an insertion at or
  past the end appends, a removal at or past the last index pops; a negative index counts from
  the end, as \<open>splice\<close> does.
\<close>

definition spliceIndex :: "'a list \<Rightarrow> int \<Rightarrow> nat" where
  "spliceIndex arr index =
     (if index < 0 then nat (int (length arr) + index) else nat index)"

definition addToArray :: "'a list \<Rightarrow> int \<Rightarrow> 'a \<Rightarrow> 'a list" where
  "addToArray arr index v =
    (if index \<ge> int (length arr) then arr @ [v]
     else take (spliceIndex arr index) arr @ [v] @ drop (spliceIndex arr index) arr)"

definition removeFromArray :: "'a list \<Rightarrow> int \<Rightarrow> 'a option \<times> 'a list" where
  "removeFromArray arr index =
    (if index \<ge> int (length arr) - 1
     then (if arr = [] then (None, arr) else (Some (last arr), butlast arr))
     else (Some (arr ! spliceIndex arr index),
           take (spliceIndex arr index) arr @ drop (Suc (spliceIndex arr index)) arr))"

text \<open>The \<open>length\<close> getter: the number of slots of the container behind its header.\<close>

definition vcLength :: "VcState \<Rightarrow> nat \<Rightarrow> int" where
  "vcLength st c = int (length (lc_views (vc_containers st c)))"

definition getViewRefs :: "VcState \<Rightarrow> nat \<Rightarrow> ViewRef list option" where
  "getViewRefs st lContainer = lc_viewRefs (vc_containers st lContainer)"

definition getOrCreateViewRefs :: "VcState \<Rightarrow> nat \<Rightarrow> ViewRef list \<times> VcState" where
  "getOrCreateViewRefs st lContainer =
    (case lc_viewRefs (vc_containers st lContainer) of
       Some refs \<Rightarrow> (refs, st)
     | None \<Rightarrow> ([], updContainer lContainer (\<lambda>lc. lc\<lparr>lc_viewRefs := Some []\<rparr>) st))"

text \<open>
  \<open>_adjustIndex\<close>: \<open>None\<close> is an omitted (null or undefined) index; the two assertions run
  under \<open>ngDevMode\<close> only.
\<close>

definition adjustIndex :: "VcState \<Rightarrow> nat \<Rightarrow> int option \<Rightarrow> int \<Rightarrow> VcError + int" where
  "adjustIndex st c index shift =
    (case index of
       None \<Rightarrow> Inr (vcLength st c + shift)
     | Some i \<Rightarrow>
        if vc_ngDevMode st then
          (case assertGreaterThan i (- 1)
                  (''ViewRef index must be positive, got '' @ decimalOfInt i) of
             Some err \<Rightarrow> Inl err
           | None \<Rightarrow>
              (case assertLessThan i (vcLength st c + 1 + shift) ''index'' of
                 Some err \<Rightarrow> Inl err
               | None \<Rightarrow> Inr i))
        else Inr i)"

text \<open>\<open>indexOf\<close>: the position of the \<open>ViewRef\<close> object in \<open>VIEW_REFS\<close>, or \<open>-1\<close>.\<close>

fun arrayIndexOf :: "'a list \<Rightarrow> 'a \<Rightarrow> int" where
  "arrayIndexOf [] x = - 1"
| "arrayIndexOf (y # ys) x =
    (if y = x then 0 else (let i = arrayIndexOf ys x in if i = - 1 then - 1 else i + 1))"

definition vcIndexOf :: "VcState \<Rightarrow> nat \<Rightarrow> ViewRef \<Rightarrow> int" where
  "vcIndexOf st c viewRef =
    (case getViewRefs st c of
       Some viewRefsArr \<Rightarrow> arrayIndexOf viewRefsArr viewRef
     | None \<Rightarrow> - 1)"

text \<open>
  Modelled from the spec: \<open>viewAttachedToContainer\<close> belongs to \<open>render3/util/view_utils\<close>,
  which is not among the sources ("found by walking the parent pointer"): a view is attached
  when its parent pointer points to a container.
\<close>

definition viewAttachedToContainer :: "VcState \<Rightarrow> nat \<Rightarrow> bool" where
  "viewAttachedToContainer st lView =
    (case lv_parent (vc_lviews st lView) of ParentContainer _ \<Rightarrow> True | _ \<Rightarrow> False)"

text \<open>
  Modelled from the spec: \<open>detachView\<close> belongs to \<open>render3/node_manipulation\<close>, which is
  not among the sources ("remove detaches (both logical and physical) before invoking
  destruction hooks"). The view at the index leaves the container's list and its nodes leave the
  DOM; its parent pointer is cleared; the view is returned. Where the container has no view at
  the index, nothing happens and nothing is returned.
\<close>

definition detachView :: "VcState \<Rightarrow> nat \<Rightarrow> int \<Rightarrow> nat option \<times> VcState" where
  "detachView st lContainer removeIndex =
    (let views = lc_views (vc_containers st lContainer)
     in if 0 \<le> removeIndex \<and> removeIndex < int (length views) then
          (let viewToDetach = views ! nat removeIndex;
               st1 = logEvent (EvDetachLogical lContainer viewToDetach)
                       (updContainer lContainer
                          (\<lambda>lc. lc\<lparr>lc_views := take (nat removeIndex) views
                                                   @ drop (Suc (nat removeIndex)) views\<rparr>) st);
               st2 = logEvent (EvDetachPhysical lContainer viewToDetach)
                       (updContainer lContainer
                          (\<lambda>lc. lc\<lparr>lc_dom := removeAll viewToDetach (lc_dom lc)\<rparr>) st1);
               st3 = updView viewToDetach (\<lambda>lv. lv\<lparr>lv_parent := ParentNull\<rparr>) st2
           in (Some viewToDetach, st3))
        else (None, st))"

text \<open>
  Modelled from the spec: \<open>insertView\<close> belongs to \<open>render3/node_manipulation\<close>, which is
  not among the sources ("logical list mutation"; "a view container node holds an ordered list
  of attached view references"). The view enters the container's list at the index and its
  parent pointer is set to the container. An index outside \<open>0..length\<close> is outside what the
  spec describes; the model reports it as \<open>OutsideModel\<close>.
\<close>

definition insertView :: "nat \<Rightarrow> nat \<Rightarrow> int \<Rightarrow> VcState \<Rightarrow> unit VcResult" where
  "insertView lView lContainer index st =
    (let views = lc_views (vc_containers st lContainer)
     in if 0 \<le> index \<and> index \<le> int (length views) then
          (Inr (),
           logEvent (EvInsertView lContainer lView)
             (updView lView (\<lambda>lv. lv\<lparr>lv_parent := ParentContainer lContainer\<rparr>)
                (updContainer lContainer
                   (\<lambda>lc. lc\<lparr>lc_views := take (nat index) views @ [lView]
                                            @ drop (nat index) views\<rparr>) st)))
        else (Inl OutsideModel, st))"

text \<open>
  Modelled from the spec: \<open>getBeforeNodeForView\<close> and \<open>addViewToContainer\<close> belong to
  \<open>render3/node_manipulation\<close>, which is not among the sources ("a view's position in its
  container's list determines DOM sibling order"). The node before which a view is rendered
  is the first node of the view that follows it in the container's list, or the anchor of the
  container when no view follows; \<open>None\<close> is the anchor.
\<close>

definition getBeforeNodeForView :: "int \<Rightarrow> nat \<Rightarrow> VcState \<Rightarrow> nat option" where
  "getBeforeNodeForView viewIndexInContainer lContainer st =
    (let views = lc_views (vc_containers st lContainer);
         nextViewIndex = viewIndexInContainer + 1
     in if 0 \<le> nextViewIndex \<and> nextViewIndex < int (length views)
        then Some (views ! nat nextViewIndex)
        else None)"

definition addViewToContainer :: "nat \<Rightarrow> nat \<Rightarrow> nat option \<Rightarrow> VcState \<Rightarrow> VcState" where
  "addViewToContainer lContainer lView beforeNode st =
    logEvent (EvAddViewToContainer lContainer lView)
      (updContainer lContainer
         (\<lambda>lc. lc\<lparr>lc_dom :=
            (case beforeNode of
               None \<Rightarrow> lc_dom lc @ [lView]
             | Some nextView \<Rightarrow>
                 takeWhile (\<lambda>x. x \<noteq> nextView) (lc_dom lc) @ [lView]
                 @ dropWhile (\<lambda>x. x \<noteq> nextView) (lc_dom lc))\<rparr>) st)"

text \<open>
  Modelled from the spec: \<open>destroyLView\<close> belongs to \<open>render3/node_manipulation\<close>, which is
  not among the sources ("destruction may recursively touch the same container's
  bookkeeping"). The view is flagged as destroyed and its destruction hooks run; they are a
  parameter \<open>hooks\<close>, any function of the view and the state, so they may call back into any
  container.
\<close>

definition destroyLView :: "(nat \<Rightarrow> VcState \<Rightarrow> VcState) \<Rightarrow> nat \<Rightarrow> VcState \<Rightarrow> VcState" where
  "destroyLView hooks lView st =
    (if lv_destroyed (vc_lviews st lView) then st
     else hooks lView
            (logEvent (EvDestroyHooks lView)
               (updView lView (\<lambda>lv. lv\<lparr>lv_destroyed := True\<rparr>) st)))"

text \<open>
  The two places where the source changes the \<open>VIEW_REFS\<close> array of a container.
\<close>

definition viewRefsRemove :: "nat \<Rightarrow> int \<Rightarrow> VcState \<Rightarrow> ViewRef option \<times> VcState" where
  "viewRefsRemove lContainer index st =
    (let (refs, st1) = getOrCreateViewRefs st lContainer;
         (removed, refs') = removeFromArray refs index
     in (removed,
         logEvent (EvViewRefsRemove lContainer (spliceIndex refs index))
           (updContainer lContainer (\<lambda>lc. lc\<lparr>lc_viewRefs := Some refs'\<rparr>) st1)))"

definition viewRefsAdd :: "nat \<Rightarrow> int \<Rightarrow> ViewRef \<Rightarrow> VcState \<Rightarrow> VcState" where
  "viewRefsAdd lContainer index viewRef st =
    (let (refs, st1) = getOrCreateViewRefs st lContainer
     in logEvent (EvViewRefsAdd lContainer (vr_lView viewRef))
          (updContainer lContainer
             (\<lambda>lc. lc\<lparr>lc_viewRefs := Some (addToArray refs index viewRef)\<rparr>) st1))"

text \<open>\<open>detach\<close>: the result is the new \<open>ViewRef\<close> object for the detached view, or null.\<close>

definition detach :: "nat \<Rightarrow> int option \<Rightarrow> VcState \<Rightarrow> ViewRef option VcResult" where
  "detach c index st =
    (case adjustIndex st c index (- 1) of
       Inl err \<Rightarrow> (Inl err, st)
     | Inr adjustedIdx \<Rightarrow>
        (case detachView st c adjustedIdx of
           (None, st1) \<Rightarrow> (Inr None, st1)
         | (Some view, st1) \<Rightarrow>
            (case viewRefsRemove c adjustedIdx st1 of
               (None, st2) \<Rightarrow> (Inr None, st2)
             | (Some _, st2) \<Rightarrow>
                 (Inr (Some \<lparr>vr_id = vc_nextRef st2, vr_lView = view\<rparr>),
                  st2\<lparr>vc_nextRef := Suc (vc_nextRef st2)\<rparr>))))"

text \<open>\<open>remove\<close>.\<close>

definition remove ::
  "(nat \<Rightarrow> VcState \<Rightarrow> VcState) \<Rightarrow> nat \<Rightarrow> int option \<Rightarrow> VcState \<Rightarrow> unit VcResult" where
  "remove hooks c index st =
    (case adjustIndex st c index (- 1) of
       Inl err \<Rightarrow> (Inl err, st)
     | Inr adjustedIdx \<Rightarrow>
        (case detachView st c adjustedIdx of
           (None, st1) \<Rightarrow> (Inr (), st1)
         | (Some detachedView, st1) \<Rightarrow>
             (let (removed, st2) = viewRefsRemove c adjustedIdx st1
              in (Inr (), destroyLView hooks detachedView st2))))"

text \<open>
  \<open>insert\<close> (named \<open>insert_vcr\<close>, as \<open>insert\<close> is the insertion into a set). The assertion that the parent of an attached view is a container holds by the
  shape of \<open>Parent\<close>. \<open>attachToViewContainerRef\<close> is a method of the \<open>ViewRef\<close> class of
  \<open>render3/view_ref\<close>, which is not among the sources; it marks the \<open>ViewRef\<close> object, of
  which the model keeps no such mark.
\<close>

definition insert_vcr :: "nat \<Rightarrow> ViewRef \<Rightarrow> int option \<Rightarrow> VcState \<Rightarrow> ViewRef VcResult" where
  "insert_vcr c viewRef index st =
    (let lView = vr_lView viewRef
     in if vc_ngDevMode st \<and> lv_destroyed (vc_lviews st lView)
        then (Inl (DestroyedView ''Cannot insert a destroyed View in a ViewContainer!''), st)
        else
          bindV
            (if viewAttachedToContainer st lView then
               (let prevIdx = vcIndexOf st c viewRef
                in if prevIdx \<noteq> - 1 then detach c (Some prevIdx) st
                   else (case lv_parent (vc_lviews st lView) of
                           ParentContainer prevLContainer \<Rightarrow>
                             detach prevLContainer (Some (vcIndexOf st prevLContainer viewRef)) st
                         | _ \<Rightarrow> (Inr None, st)))
             else (Inr None, st))
            (\<lambda>_ st1.
               case adjustIndex st1 c index 0 of
                 Inl err \<Rightarrow> (Inl err, st1)
               | Inr adjustedIdx \<Rightarrow>
                   bindV (insertView lView c adjustedIdx st1)
                     (\<lambda>_ st2.
                        let beforeNode = getBeforeNodeForView adjustedIdx c st2;
                            st3 = (if lc_hasParentNode (vc_containers st2 c)
                                   then addViewToContainer c lView beforeNode st2
                                   else st2)
                        in (Inr viewRef, viewRefsAdd c adjustedIdx viewRef st3))))"

definition move :: "nat \<Rightarrow> ViewRef \<Rightarrow> int \<Rightarrow> VcState \<Rightarrow> ViewRef VcResult" where
  "move c viewRef newIndex st =
    (if vc_ngDevMode st \<and> lv_destroyed (vc_lviews st (vr_lView viewRef))
     then (Inl (DestroyedView ''Cannot move a destroyed View in a ViewContainer!''), st)
     else insert_vcr c viewRef (Some newIndex) st)"






text \<open>
  What the claims about containers are stated with. A state is well formed when, in every
  container, no view occurs twice, the \<open>ViewRef\<close> array wraps the views of the list in the
  same order, the views of the list are those whose parent pointer points to the container,
  and the DOM shows the views of the list in the order of the list when the anchor is in the
  DOM, and none otherwise.
\<close>

definition wfVc :: "VcState \<Rightarrow> bool" where
  "wfVc st =
    (\<forall>c. distinct (lc_views (vc_containers st c))
        \<and> (case lc_viewRefs (vc_containers st c) of
              None \<Rightarrow> lc_views (vc_containers st c) = []
            | Some refs \<Rightarrow> map vr_lView refs = lc_views (vc_containers st c))
        \<and> (\<forall>v. v \<in> set (lc_views (vc_containers st c))
                  \<longleftrightarrow> lv_parent (vc_lviews st v) = ParentContainer c)
        \<and> lc_dom (vc_containers st c)
            = (if lc_hasParentNode (vc_containers st c) then lc_views (vc_containers st c)
               else []))"

text \<open>
  The \<open>ViewRef\<close> array of a container, empty while the slot is null; the state after the
  view at position \<open>k\<close> of container \<open>c\<close> was detached, and the state after view \<open>v\<close> with its
  \<open>ViewRef\<close> was put at position \<open>k\<close> of container \<open>c\<close>, written out field by field.
\<close>

definition refsOf :: "VcState \<Rightarrow> nat \<Rightarrow> ViewRef list" where
  "refsOf st c = (case lc_viewRefs (vc_containers st c) of None \<Rightarrow> [] | Some refs \<Rightarrow> refs)"

definition viewsOf :: "VcState \<Rightarrow> nat \<Rightarrow> nat list" where
  "viewsOf st c = lc_views (vc_containers st c)"

definition detachedState :: "VcState \<Rightarrow> nat \<Rightarrow> nat \<Rightarrow> VcState" where
  "detachedState st c k =
    st\<lparr>vc_containers := (vc_containers st)
          (c := (vc_containers st c)
             \<lparr>lc_views := take k (viewsOf st c) @ drop (Suc k) (viewsOf st c),
              lc_viewRefs := Some (take k (refsOf st c) @ drop (Suc k) (refsOf st c)),
              lc_dom := removeAll (viewsOf st c ! k) (lc_dom (vc_containers st c))\<rparr>),
       vc_lviews := (vc_lviews st)
          (viewsOf st c ! k := (vc_lviews st (viewsOf st c ! k))\<lparr>lv_parent := ParentNull\<rparr>),
       vc_events := vc_events st
          @ [EvDetachLogical c (viewsOf st c ! k), EvDetachPhysical c (viewsOf st c ! k),
             EvViewRefsRemove c k],
       vc_nextRef := Suc (vc_nextRef st)\<rparr>"

definition insertedState :: "VcState \<Rightarrow> nat \<Rightarrow> ViewRef \<Rightarrow> nat \<Rightarrow> VcState" where
  "insertedState st c viewRef k =
    st\<lparr>vc_containers := (vc_containers st)
          (c := (vc_containers st c)
             \<lparr>lc_views := take k (viewsOf st c) @ vr_lView viewRef # drop k (viewsOf st c),
              lc_viewRefs := Some (take k (refsOf st c) @ viewRef # drop k (refsOf st c)),
              lc_dom := (if lc_hasParentNode (vc_containers st c)
                         then take k (viewsOf st c) @ vr_lView viewRef # drop k (viewsOf st c)
                         else lc_dom (vc_containers st c))\<rparr>),
       vc_lviews := (vc_lviews st)
          (vr_lView viewRef := (vc_lviews st (vr_lView viewRef))\<lparr>lv_parent := ParentContainer c\<rparr>),
       vc_events := vc_events st
          @ [EvInsertView c (vr_lView viewRef)]
          @ (if lc_hasParentNode (vc_containers st c)
             then [EvAddViewToContainer c (vr_lView viewRef)] else [])
          @ [EvViewRefsAdd c (vr_lView viewRef)]\<rparr>"

text \<open>\<open>a\<close> occurs in the trace, and \<open>b\<close> occurs after its first occurrence.\<close>

definition precedes :: "'a \<Rightarrow> 'a \<Rightarrow> 'a list \<Rightarrow> bool" where
  "precedes a b xs = (b \<in> set (dropWhile (\<lambda>x. x \<noteq> a) xs) \<and> a \<noteq> b)"

text \<open>
  The state in which \<open>insert\<close> attaches the view: the state of the call when the view is
  attached nowhere, and otherwise that state after the view left the container to which its
  parent pointer points. A \<open>ViewRef\<close> object is registered when the view it wraps is attached
  nowhere, or the object itself is in the \<open>VIEW_REFS\<close> array of the container to which the
  parent pointer of its view points.
\<close>

definition detachedFirst :: "VcState \<Rightarrow> ViewRef \<Rightarrow> VcState" where
  "detachedFirst st viewRef =
    (case lv_parent (vc_lviews st (vr_lView viewRef)) of
       ParentContainer c0 \<Rightarrow> detachedState st c0 (nat (arrayIndexOf (refsOf st c0) viewRef))
     | ParentView _ \<Rightarrow> st
     | ParentNull \<Rightarrow> st)"

definition registered :: "VcState \<Rightarrow> ViewRef \<Rightarrow> bool" where
  "registered st viewRef =
    (case lv_parent (vc_lviews st (vr_lView viewRef)) of
       ParentContainer c0 \<Rightarrow> viewRef \<in> set (refsOf st c0)
     | ParentView _ \<Rightarrow> True
     | ParentNull \<Rightarrow> True)"

text \<open>
  The state that \<open>remove\<close> hands to the destruction hooks of the view at position \<open>k\<close>
  of container \<open>c\<close>, written out field by field.
\<close>

definition hooksState :: "VcState \<Rightarrow> nat \<Rightarrow> nat \<Rightarrow> VcState" where
  "hooksState st c k =
    st\<lparr>vc_containers := (vc_containers st)
          (c := (vc_containers st c)
             \<lparr>lc_views := take k (viewsOf st c) @ drop (Suc k) (viewsOf st c),
              lc_viewRefs := Some (take k (refsOf st c) @ drop (Suc k) (refsOf st c)),
              lc_dom := removeAll (viewsOf st c ! k) (lc_dom (vc_containers st c))\<rparr>),
       vc_lviews := (vc_lviews st)
          (viewsOf st c ! k := \<lparr>lv_parent = ParentNull, lv_destroyed = True\<rparr>),
       vc_events := vc_events st
          @ [EvDetachLogical c (viewsOf st c ! k), EvDetachPhysical c (viewsOf st c ! k),
             EvViewRefsRemove c k, EvDestroyHooks (viewsOf st c ! k)]\<rparr>"

text \<open>
  Example states: no view anywhere, every anchor in the DOM; and container \<open>0\<close> holding the
  views \<open>0\<close> and \<open>1\<close>, in that order.
\<close>

definition emptyVc :: "bool \<Rightarrow> VcState" where
  "emptyVc devMode =
    \<lparr>vc_ngDevMode = devMode,
     vc_lviews = (\<lambda>_. \<lparr>lv_parent = ParentNull, lv_destroyed = False\<rparr>),
     vc_containers =
       (\<lambda>_. \<lparr>lc_views = [], lc_viewRefs = None, lc_hasParentNode = True, lc_dom = []\<rparr>),
     vc_events = [], vc_nextRef = 0, vc_nextView = 0\<rparr>"

definition twoViews :: "bool \<Rightarrow> VcState" where
  "twoViews devMode =
    \<lparr>vc_ngDevMode = devMode,
     vc_lviews = (\<lambda>v. \<lparr>lv_parent = (if v < 2 then ParentContainer 0 else ParentNull),
                         lv_destroyed = False\<rparr>),
     vc_containers =
       (\<lambda>c. if c = 0
            then \<lparr>lc_views = [0, 1],
                  lc_viewRefs = Some [\<lparr>vr_id = 0, vr_lView = 0\<rparr>, \<lparr>vr_id = 1, vr_lView = 1\<rparr>],
                  lc_hasParentNode = True, lc_dom = [0, 1]\<rparr>
            else \<lparr>lc_views = [], lc_viewRefs = None, lc_hasParentNode = True, lc_dom = []\<rparr>),
     vc_events = [], vc_nextRef = 2, vc_nextView = 2\<rparr>"

text \<open>
  A destruction hook that calls back into container \<open>c\<close>: it removes the last view of \<open>c\<close>,
  whose own destruction runs no hook.
\<close>

definition removeLastOnDestroy :: "nat \<Rightarrow> nat \<Rightarrow> VcState \<Rightarrow> VcState" where
  "removeLastOnDestroy c v st = snd (remove (\<lambda>_ s. s) c None st)"

section \<open>Properties of constructor dependency extraction\<close>

lemma ctorParamsLoop_Nil:
  "ctorParamsLoop v2e iac isCore idx [] deps errors = Inr (deps, errors)"
  by simp

text \<open>
  C6. A class without a constructor of its own (the reflection host reports no constructor
  parameters) and with a base class makes \<open>getConstructorDependencies\<close> return null; the same
  class without a base class gets the empty dependency list; so among classes without their
  own constructor the empty list is returned only when there is no base class.
\<close>

theorem getConstructorDependencies_inherits:
  assumes "ctorParameters clazz = None"
  shows "getConstructorDependencies v2e iac clazz isCore =
           (if hasBaseClass clazz then Inr None else Inr (Some (Deps [])))"
  using assms by (simp add: getConstructorDependencies_def)

theorem getConstructorDependencies_inherits_witness:
  "getConstructorDependencies (\<lambda>_. None) (\<lambda>_. True)
     \<lparr>class_name = ''Child'', ctorParameters = None, hasBaseClass = True, class_members = []\<rparr>
     False = Inr None
   \<and> getConstructorDependencies (\<lambda>_. None) (\<lambda>_. True)
     \<lparr>class_name = ''Plain'', ctorParameters = None, hasBaseClass = False, class_members = []\<rparr>
     False = Inr (Some (Deps []))"
  using getConstructorDependencies_inherits
          [of "\<lparr>class_name = ''Child'', ctorParameters = None, hasBaseClass = True,
                 class_members = []\<rparr>" "\<lambda>_. None" "\<lambda>_. True" False]
        getConstructorDependencies_inherits
          [of "\<lparr>class_name = ''Plain'', ctorParameters = None, hasBaseClass = False,
                 class_members = []\<rparr>" "\<lambda>_. None" "\<lambda>_. True" False]
  by simp

section \<open>Properties of directive metadata extraction\<close>

lemma ctorParamsLoop_errors_grow:
  "ctorParamsLoop v2e iac isCore idx ps deps errors = Inr (deps', errors')
   \<Longrightarrow> \<exists>more. errors' = errors @ more"
proof (induction ps arbitrary: idx deps errors)
  case Nil
  then show ?case by simp
next
  case (Cons p ps)
  then show ?case
    by (fastforce split: sum.splits option.splits TypeValueReference.splits)
qed

lemma ctorParamsLoop_total:
  assumes "\<forall>p\<in>set ps. paramWellFormed v2e iac isCore p"
  shows "\<exists>deps' errors'. ctorParamsLoop v2e iac isCore idx ps deps errors = Inr (deps', errors')"
  using assms
proof (induction ps arbitrary: idx deps errors)
  case Nil
  then show ?case by simp
next
  case (Cons p ps)
  then show ?case
    by (auto simp: paramWellFormed_def split: sum.splits option.splits TypeValueReference.splits)
qed

lemma ctorParamsLoop_first_error:
  assumes "\<forall>p\<in>set ps. paramWellFormed v2e iac isCore p"
    and "i < length ps" and "lacksToken v2e iac isCore (ps ! i)"
    and "\<forall>j<i. \<not> lacksToken v2e iac isCore (ps ! j)"
  shows "\<exists>deps' e rest. ctorParamsLoop v2e iac isCore idx ps deps [] = Inr (deps', e # rest)
           \<and> err_index e = idx + i \<and> err_param e = ps ! i"
  using assms
proof (induction ps arbitrary: idx deps i)
  case Nil
  then show ?case by simp
next
  case (Cons p ps)
  show ?case
  proof (cases i)
    case 0
    with Cons.prems have lack: "lacksToken v2e iac isCore p" by simp
    from Cons.prems have wf: "paramWellFormed v2e iac isCore p" 
      and wfs: "\<forall>q\<in>set ps. paramWellFormed v2e iac isCore q" by simp_all
    from lack wf obtain acc reason where
      r: "resolveParam v2e iac isCore p = Inr acc" "acc_token acc = None"
         "typeValueReference p = UNAVAILABLE reason"
      by (auto simp: lacksToken_def paramWellFormed_def
               split: sum.splits option.splits TypeValueReference.splits)
    obtain deps' errors' where
      l: "ctorParamsLoop v2e iac isCore (Suc idx) ps deps
            [\<lparr>err_index = idx, err_param = p, err_reason = reason\<rparr>] = Inr (deps', errors')"
      using ctorParamsLoop_total [OF wfs] by blast
    from ctorParamsLoop_errors_grow [OF l] obtain more where
      "errors' = [\<lparr>err_index = idx, err_param = p, err_reason = reason\<rparr>] @ more" by blast
    with l r 0 show ?thesis by simp
  next
    case (Suc k)
    with Cons.prems have nolack: "\<not> lacksToken v2e iac isCore p" by auto
    from Cons.prems have wf: "paramWellFormed v2e iac isCore p" 
      and wfs: "\<forall>q\<in>set ps. paramWellFormed v2e iac isCore q" by simp_all
    from nolack wf obtain acc tok where
      r: "resolveParam v2e iac isCore p = Inr acc" "acc_token acc = Some tok"
      by (auto simp: lacksToken_def paramWellFormed_def
               split: sum.splits option.splits TypeValueReference.splits)
    have k: "k < length ps" "lacksToken v2e iac isCore (ps ! k)"
      "\<forall>j<k. \<not> lacksToken v2e iac isCore (ps ! j)"
      using Cons.prems Suc by auto
    from Cons.IH [OF wfs k, of "Suc idx"] r Suc show ?thesis by simp
  qed
qed


lemma getConstructorDependencies_first_error:
  assumes "ctorParameters clazz = Some ps"
    and "\<forall>p\<in>set ps. paramWellFormed v2e iac isCore p"
    and "i < length ps" and "lacksToken v2e iac isCore (ps ! i)"
    and "\<forall>j<i. \<not> lacksToken v2e iac isCore (ps ! j)"
  shows "\<exists>e rest. getConstructorDependencies v2e iac clazz isCore = Inr (Some (DepErrors (e # rest)))
           \<and> err_index e = i \<and> err_param e = ps ! i"
proof -
  from ctorParamsLoop_first_error [OF assms(2-5), of 0 "[]"] obtain deps' e rest where
    "ctorParamsLoop v2e iac isCore 0 ps [] [] = Inr (deps', e # rest)"
    "err_index e = i" "err_param e = ps ! i" by auto
  with assms(1) show ?thesis by (simp add: getConstructorDependencies_def)
qed

lemma createUnsuitableInjectionTokenError_message:
  "\<exists>chain hints. createUnsuitableInjectionTokenError clazz e =
     FatalDiagnosticError PARAM_MISSING_TOKEN
       (missingTokenMessage (paramLabel (err_param e) (err_index e)) (class_name clazz)) chain hints"
  by (cases "err_reason e") (simp_all add: createUnsuitableInjectionTokenError_def missingTokenMessage_def)

text \<open>
  C5. Let the extraction steps before the constructor dependencies succeed, let every
  constructor parameter be processed without a throw, and let parameter \<open>i\<close> be the first one
  that ends without an injection token. If the resolved selector is null (and the two later
  steps do not throw), extraction completes and the dependencies are marked \<open>'invalid'\<close>; if
  the selector is not null, extraction fails with the fatal diagnostic
  \<open>PARAM_MISSING_TOKEN\<close>, "No suitable injection token for parameter ...", which names
  parameter \<open>i\<close> (by its name, or by its index when it has no name).
\<close>

theorem abstract_directive_tolerates_invalid_deps:
  assumes front: "extractBeforeCtorDeps evaluate other clazz decorator isCore defaultSelector = Inr (Some fr)"
    and params: "ctorParameters clazz = Some ps"
    and wf: "\<forall>p\<in>set ps. paramWellFormed v2e iac isCore p"
    and i: "i < length ps" "lacksToken v2e iac isCore (ps ! i)"
           "\<forall>j<i. \<not> lacksToken v2e iac isCore (ps ! j)"
  shows "(f_selector fr = None \<and> standalone_step other = None \<and> hostDirectives_step other = None
            \<longrightarrow> (\<exists>r. extractDirectiveMetadata v2e iac evaluate other clazz decorator isCore
                        defaultSelector = Inr (Some r)
                     \<and> r_selector r = None \<and> r_deps r = Some Invalid))
       \<and> (f_selector fr \<noteq> None
            \<longrightarrow> (\<exists>chain hints. extractDirectiveMetadata v2e iac evaluate other clazz decorator isCore
                        defaultSelector =
                     Inl (FatalDiagnosticError PARAM_MISSING_TOKEN
                            (missingTokenMessage (paramLabel (ps ! i) i) (class_name clazz))
                            chain hints)))"
proof -
  from getConstructorDependencies_first_error [OF params wf i] obtain e rest where
    raw: "getConstructorDependencies v2e iac clazz isCore = Inr (Some (DepErrors (e # rest)))"
    and e: "err_index e = i" "err_param e = ps ! i" by blast
  from createUnsuitableInjectionTokenError_message [of clazz e] e obtain chain hints where
    msg: "createUnsuitableInjectionTokenError clazz e =
            FatalDiagnosticError PARAM_MISSING_TOKEN
              (missingTokenMessage (paramLabel (ps ! i) i) (class_name clazz)) chain hints"
    by auto
  have abstract: "f_selector fr = None \<and> standalone_step other = None
        \<and> hostDirectives_step other = None
      \<longrightarrow> (\<exists>r. extractDirectiveMetadata v2e iac evaluate other clazz decorator isCore
                  defaultSelector = Inr (Some r)
               \<and> r_selector r = None \<and> r_deps r = Some Invalid)"
    using front raw
    by (simp add: extractDirectiveMetadata_def bindE_def stepE_def
                  unwrapConstructorDependencies_def)
  have concrete: "f_selector fr \<noteq> None
      \<longrightarrow> (\<exists>chain hints. extractDirectiveMetadata v2e iac evaluate other clazz decorator isCore
                  defaultSelector =
               Inl (FatalDiagnosticError PARAM_MISSING_TOKEN
                      (missingTokenMessage (paramLabel (ps ! i) i) (class_name clazz))
                      chain hints))"
    using front raw msg
    by (auto simp add: extractDirectiveMetadata_def bindE_def validateConstructorDependencies_def)
  from abstract concrete show ?thesis by blast
qed


theorem abstract_directive_tolerates_invalid_deps_witness:
  "(\<exists>r. extractDirectiveMetadata valueReferenceToExpression isAngularCore literalEvaluator noOtherThrows
      \<lparr>class_name = ''Dir'',
        ctorParameters = Some [\<lparr>param_name = Some ''svc'',
                                  typeValueReference = UNAVAILABLE MISSING_TYPE,
                                  param_decorators = None\<rparr>],
        hasBaseClass = False, class_members = []\<rparr>
      (Some \<lparr>dec_name = ''Directive'', dec_import = None, dec_args = Some []\<rparr>) False None
      = Inr (Some r) \<and> r_selector r = None \<and> r_deps r = Some Invalid)
   \<and> (\<exists>chain hints. extractDirectiveMetadata valueReferenceToExpression isAngularCore literalEvaluator noOtherThrows
      \<lparr>class_name = ''Dir'',
        ctorParameters = Some [\<lparr>param_name = Some ''svc'',
                                  typeValueReference = UNAVAILABLE MISSING_TYPE,
                                  param_decorators = None\<rparr>],
        hasBaseClass = False, class_members = []\<rparr>
      (Some \<lparr>dec_name = ''Directive'', dec_import = None,
              dec_args = Some [ObjectLiteralExpression [(''selector'', StringLiteralLike ''x'')]]\<rparr>)
      False None
      = Inl (FatalDiagnosticError PARAM_MISSING_TOKEN
              (''No suitable injection token for parameter '' @ [CHR 0x27] @ ''svc'' @ [CHR 0x27]
                 @ '' of class '' @ [CHR 0x27] @ ''Dir'' @ [CHR 0x27] @ ''.'') chain hints))"
proof -
  let ?p = "\<lparr>param_name = Some ''svc'', typeValueReference = UNAVAILABLE MISSING_TYPE,
              param_decorators = None\<rparr>"
  let ?c = "\<lparr>class_name = ''Dir'', ctorParameters = Some [?p],
              hasBaseClass = False, class_members = []\<rparr>"
  let ?d0 = "Some \<lparr>dec_name = ''Directive'', dec_import = None, dec_args = Some []\<rparr>"
  let ?dx = "Some \<lparr>dec_name = ''Directive'', dec_import = None,
              dec_args = Some [ObjectLiteralExpression [(''selector'', StringLiteralLike ''x'')]]\<rparr>"
  let ?f0 = "\<lparr>f_directive = Map.empty, inputsFromMeta = Map.empty, inputsFromFields = Map.empty,
               outputsFromMeta = Map.empty, outputsFromFields = Map.empty, f_selector = None\<rparr>"
  let ?fx = "\<lparr>f_directive = reflectObjectLiteral [(''selector'', StringLiteralLike ''x'')],
               inputsFromMeta = Map.empty, inputsFromFields = Map.empty,
               outputsFromMeta = Map.empty, outputsFromFields = Map.empty, f_selector = Some ''x''\<rparr>"
  have front0: "extractBeforeCtorDeps literalEvaluator noOtherThrows ?c ?d0 False None = Inr (Some ?f0)"
    by (simp add: extractBeforeCtorDeps_def reflectDecorator_def bindE_def stepE_def
          parseFieldToPropertyMapping_def parseFieldArrayValue_def parseDecoratedFields_def
          filterToMembersWithDecorator_def List.map_filter_simps resolveSelector_def noOtherThrows_def)
  have frontx: "extractBeforeCtorDeps literalEvaluator noOtherThrows ?c ?dx False None = Inr (Some ?fx)"
    by (simp add: extractBeforeCtorDeps_def reflectDecorator_def bindE_def stepE_def
          parseFieldToPropertyMapping_def parseFieldArrayValue_def parseDecoratedFields_def
          filterToMembersWithDecorator_def List.map_filter_simps resolveSelector_def noOtherThrows_def
          reflectObjectLiteral_def)
  have params: "ctorParameters ?c = Some [?p]" by simp
  have wf: "\<forall>p\<in>set [?p]. paramWellFormed valueReferenceToExpression isAngularCore False p"
    by (simp add: paramWellFormed_def resolveParam_def valueReferenceToExpression_def)
  have i: "0 < length [?p]" "lacksToken valueReferenceToExpression isAngularCore False ([?p] ! 0)"
      "\<forall>j<0. \<not> lacksToken valueReferenceToExpression isAngularCore False ([?p] ! j)"
    by (simp_all add: lacksToken_def resolveParam_def valueReferenceToExpression_def)
  from abstract_directive_tolerates_invalid_deps [OF front0 params wf i]
       abstract_directive_tolerates_invalid_deps [OF frontx params wf i]
  show ?thesis
    by (simp add: noOtherThrows_def missingTokenMessage_def paramLabel_def)
qed


lemma mappingArrayLoop_last_wins:
  "mappingArrayLoop vs results k =
     (case map_of (rev (map parseMappingEntry vs)) k of
        Some property \<Rightarrow> Some (Plain property)
      | None \<Rightarrow> results k)"
proof (induction vs arbitrary: results)
  case Nil
  then show ?case by simp
next
  case (Cons v vs)
  then show ?case
    by (cases "parseMappingEntry v") (auto simp: map_add_def split: option.splits)
qed

lemma parseInputOutputMappingArray_last_wins:
  "parseInputOutputMappingArray vs k =
     map_option Plain (map_of (rev (map parseMappingEntry vs)) k)"
  by (simp add: parseInputOutputMappingArray_def mappingArrayLoop_last_wins split: option.splits)

lemma splitOn_no_separator: "c \<notin> set s \<Longrightarrow> splitOn c s = [s]"
  by (induction s) auto

lemma splitOn_append:
  "c \<notin> set s \<Longrightarrow> splitOn c (s @ c # t) = s # splitOn c t"
  by (induction s) auto

lemma splitOn_nonempty: "splitOn c s \<noteq> []"
  by (induction s) (auto split: list.splits)

lemma parseMappingEntry_field:
  "CHR '':'' \<notin> set field \<Longrightarrow> parseMappingEntry field = (trim field, trim field)"
  by (simp add: parseMappingEntry_def splitOn_no_separator)

lemma parseMappingEntry_alias:
  assumes "CHR '':'' \<notin> set field" and "CHR '':'' \<notin> set alias"
  shows "parseMappingEntry (field @ CHR '':'' # alias) =
           (trim field, if trim alias = [] then trim field else trim alias)"
  using assms by (simp add: parseMappingEntry_def splitOn_append splitOn_no_separator)

lemma stringArrayElements_strings:
  "stringArrayElements name i (map (\<lambda>x. RString (f x)) xs) = Inr (map f xs)"
  by (induction xs arbitrary: i) (simp_all add: bindE_def)

lemma map_of_map_prod:
  "map_of (map (map_prod id f) xs) k = map_option f (map_of xs k)"
  by (induction xs) auto

lemma parseFieldToPropertyMapping_holds:
  assumes "arrayHolds directive evaluate field entries"
  shows "parseFieldToPropertyMapping directive field evaluate
         = Inr (parseInputOutputMappingArray (map entryText entries))"
proof (cases "directive field")
  case None
  with assms have "entries = []" by (simp add: arrayHolds_def)
  with None show ?thesis
    by (simp add: parseFieldToPropertyMapping_def parseFieldArrayValue_def bindE_def
          parseInputOutputMappingArray_def)
next
  case (Some expression)
  with assms have "evaluate expression = RArray (map (\<lambda>en. RString (entryText en)) entries)"
    by (simp add: arrayHolds_def)
  with Some show ?thesis
    by (simp add: parseFieldToPropertyMapping_def parseFieldArrayValue_def bindE_def
          isStringArrayOrDie_def stringArrayElements_strings)
qed

lemma parseMappingEntry_entryText:
  assumes "entryForm en"
  shows "map_prod id Plain (parseMappingEntry (entryText en)) = entryDeclares en"
proof (cases en)
  case (Pair fld al)
  show ?thesis
  proof (cases al)
    case None
    with Pair assms show ?thesis
      by (simp add: entryForm_def entryText_def entryDeclares_def parseMappingEntry_field)
  next
    case (Some a)
    with Pair assms show ?thesis
      by (simp add: entryForm_def entryText_def entryDeclares_def parseMappingEntry_alias)
  qed
qed

lemma parseInputOutputMappingArray_declared:
  assumes "\<forall>en\<in>set entries. entryForm en"
  shows "parseInputOutputMappingArray (map entryText entries) = arrayDeclared entries"
proof
  fix k
  have m: "map (map_prod id Plain) (map parseMappingEntry (map entryText entries))
           = map entryDeclares entries"
    using assms by (induction entries) (simp_all add: parseMappingEntry_entryText)
  have "map_option Plain (map_of (rev (map parseMappingEntry (map entryText entries))) k)
        = map_of (map (map_prod id Plain) (rev (map parseMappingEntry (map entryText entries)))) k"
    by (simp only: map_of_map_prod)
  also have "\<dots> = map_of (rev (map (map_prod id Plain)
                       (map parseMappingEntry (map entryText entries)))) k"
    by (simp only: rev_map)
  also have "\<dots> = map_of (rev (map entryDeclares entries)) k"
    by (simp only: m)
  finally show "parseInputOutputMappingArray (map entryText entries) k = arrayDeclared entries k"
    by (simp only: parseInputOutputMappingArray_last_wins arrayDeclared_def)
qed

lemma applyFieldDecorator_declares:
  assumes "applyFieldDecorator evaluate aliased name results d = Inr results'"
  shows "results' = results(name \<mapsto> decoratorDeclares aliased evaluate name d)"
  using assms
  by (auto simp: applyFieldDecorator_def decoratorDeclares_def
           split: option.splits list.splits ResolvedValue.splits)

lemma applyFieldDecorators_declare:
  assumes "applyFieldDecorators evaluate aliased name results ds = Inr results'"
  shows "results' = results
           ++ map_of (rev (map (\<lambda>d. (name, decoratorDeclares aliased evaluate name d)) ds))"
  using assms
proof (induction ds arbitrary: results)
  case Nil
  then show ?case by simp
next
  case (Cons d ds)
  from Cons.prems obtain r1 where
    a: "applyFieldDecorator evaluate aliased name results d = Inr r1"
    and b: "applyFieldDecorators evaluate aliased name r1 ds = Inr results'"
    by (auto simp: bindE_def split: sum.splits)
  note r1 = applyFieldDecorator_declares [OF a]
  from Cons.IH [OF b] have "results' = r1
      ++ map_of (rev (map (\<lambda>d. (name, decoratorDeclares aliased evaluate name d)) ds))" .
  then show ?case unfolding r1 by simp
qed

lemma decoratedFieldsLoop_declares:
  assumes "decoratedFieldsLoop evaluate aliased flds results = Inr results'"
  shows "results' = results ++ membersDeclared aliased evaluate flds"
  using assms
proof (induction flds arbitrary: results)
  case Nil
  then show ?case by (simp add: membersDeclared_def)
next
  case (Cons fd flds)
  obtain member decorators where fd: "fd = (member, decorators)" by (cases fd)
  from Cons.prems fd obtain r1 where
    a: "applyFieldDecorators evaluate aliased (member_name member) results decorators = Inr r1"
    and b: "decoratedFieldsLoop evaluate aliased flds r1 = Inr results'"
    by (auto simp: bindE_def split: sum.splits)
  note r1 = applyFieldDecorators_declare [OF a]
  from Cons.IH [OF b] have "results' = r1 ++ membersDeclared aliased evaluate flds" .
  then show ?case unfolding r1 fd by (simp add: membersDeclared_def)
qed

lemma parseDecoratedFields_declares:
  assumes "parseDecoratedFields flds evaluate aliased = Inr results"
  shows "results = membersDeclared aliased evaluate flds"
  using decoratedFieldsLoop_declares [of evaluate aliased flds Map.empty results] assms
  by (simp add: parseDecoratedFields_def)

lemma resolveInput_Joint: "resolveInput = Joint"
  by (rule ext)+ (simp add: resolveInput_def)

lemma resolveOutput_Plain: "resolveOutput = (\<lambda>alias name. Plain alias)"
  by (rule ext)+ (simp add: resolveOutput_def)

text \<open>
  C7. When extraction succeeds on a decorator whose \<open>inputs\<close> array holds entries of the form
  "field" or "field: alias", the resolved input map is the union of what the entries declare
  and what the \<open>@Input\<close> decorators of the members declare: an entry declares its field under
  the field's name or under the alias, a member decorator declares the member under its name
  or, with an argument, as the pair of alias and name; of two declarations of one field the
  later one counts, and every member-level declaration counts over every entry of the array.
  The same holds for outputs, where an aliased member is declared under the alias.
\<close>

theorem inputs_outputs_merged:
  assumes ok: "extractDirectiveMetadata v2e iac evaluate other clazz decorator isCore defaultSelector
             = Inr (Some r)"
    and dir: "reflectDecorator decorator = Inr directive"
    and arrI: "arrayHolds directive evaluate ''inputs'' entriesI"
    and arrO: "arrayHolds directive evaluate ''outputs'' entriesO"
    and formI: "\<forall>en\<in>set entriesI. entryForm en"
    and formO: "\<forall>en\<in>set entriesO. entryForm en"
  shows "r_inputs r
           = arrayDeclared entriesI
             ++ membersDeclared Joint evaluate
                  (filterToMembersWithDecorator
                     (filter (\<lambda>member. \<not> isStatic member \<and> member_decorators member \<noteq> None)
                        (class_members clazz))
                     ''Input'' (if isCore then None else Some ''@angular/core''))
       \<and> r_outputs r
           = arrayDeclared entriesO
             ++ membersDeclared (\<lambda>alias name. Plain alias) evaluate
                  (filterToMembersWithDecorator
                     (filter (\<lambda>member. \<not> isStatic member \<and> member_decorators member \<noteq> None)
                        (class_members clazz))
                     ''Output'' (if isCore then None else Some ''@angular/core''))
       \<and> dom (r_inputs r)
           = dom (arrayDeclared entriesI)
             \<union> dom (membersDeclared Joint evaluate
                  (filterToMembersWithDecorator
                     (filter (\<lambda>member. \<not> isStatic member \<and> member_decorators member \<noteq> None)
                        (class_members clazz))
                     ''Input'' (if isCore then None else Some ''@angular/core'')))
       \<and> dom (r_outputs r)
           = dom (arrayDeclared entriesO)
             \<union> dom (membersDeclared (\<lambda>alias name. Plain alias) evaluate
                  (filterToMembersWithDecorator
                     (filter (\<lambda>member. \<not> isStatic member \<and> member_decorators member \<noteq> None)
                        (class_members clazz))
                     ''Output'' (if isCore then None else Some ''@angular/core'')))
       \<and> (\<forall>k. r_inputs r k
              = (case membersDeclared Joint evaluate
                  (filterToMembersWithDecorator
                     (filter (\<lambda>member. \<not> isStatic member \<and> member_decorators member \<noteq> None)
                        (class_members clazz))
                     ''Input'' (if isCore then None else Some ''@angular/core'')) k of
                   Some v \<Rightarrow> Some v
                 | None \<Rightarrow> arrayDeclared entriesI k))
       \<and> (\<forall>k. r_outputs r k
              = (case membersDeclared (\<lambda>alias name. Plain alias) evaluate
                  (filterToMembersWithDecorator
                     (filter (\<lambda>member. \<not> isStatic member \<and> member_decorators member \<noteq> None)
                        (class_members clazz))
                     ''Output'' (if isCore then None else Some ''@angular/core'')) k of
                   Some v \<Rightarrow> Some v
                 | None \<Rightarrow> arrayDeclared entriesO k))"
proof -
  let ?fI = "filterToMembersWithDecorator
               (filter (\<lambda>member. \<not> isStatic member \<and> member_decorators member \<noteq> None)
                  (class_members clazz))
               ''Input'' (if isCore then None else Some ''@angular/core'')"
  let ?fO = "filterToMembersWithDecorator
               (filter (\<lambda>member. \<not> isStatic member \<and> member_decorators member \<noteq> None)
                  (class_members clazz))
               ''Output'' (if isCore then None else Some ''@angular/core'')"
  from ok obtain fr where
    front: "extractBeforeCtorDeps evaluate other clazz decorator isCore defaultSelector
              = Inr (Some fr)"
    and ins: "r_inputs r = inputsFromMeta fr ++ inputsFromFields fr"
    and outs: "r_outputs r = outputsFromMeta fr ++ outputsFromFields fr"
    by (auto simp: extractDirectiveMetadata_def bindE_def stepE_def
             split: sum.splits option.splits if_splits)
  from front dir have
    mi: "parseFieldToPropertyMapping directive ''inputs'' evaluate = Inr (inputsFromMeta fr)"
    and mo: "parseFieldToPropertyMapping directive ''outputs'' evaluate = Inr (outputsFromMeta fr)"
    and fi: "parseDecoratedFields ?fI evaluate resolveInput = Inr (inputsFromFields fr)"
    and fo: "parseDecoratedFields ?fO evaluate resolveOutput = Inr (outputsFromFields fr)"
    by (auto simp: extractBeforeCtorDeps_def bindE_def Let_def
             split: sum.splits option.splits if_splits)
  from mi parseFieldToPropertyMapping_holds [OF arrI]
    parseInputOutputMappingArray_declared [OF formI]
  have aI: "inputsFromMeta fr = arrayDeclared entriesI" by simp
  from mo parseFieldToPropertyMapping_holds [OF arrO]
    parseInputOutputMappingArray_declared [OF formO]
  have aO: "outputsFromMeta fr = arrayDeclared entriesO" by simp
  from parseDecoratedFields_declares [OF fi]
  have bI: "inputsFromFields fr = membersDeclared Joint evaluate ?fI"
    by (simp only: resolveInput_Joint)
  from parseDecoratedFields_declares [OF fo]
  have bO: "outputsFromFields fr = membersDeclared (\<lambda>alias name. Plain alias) evaluate ?fO"
    by (simp only: resolveOutput_Plain)
  have i: "r_inputs r = arrayDeclared entriesI ++ membersDeclared Joint evaluate ?fI"
    by (simp only: ins aI bI)
  have o: "r_outputs r
           = arrayDeclared entriesO ++ membersDeclared (\<lambda>alias name. Plain alias) evaluate ?fO"
    by (simp only: outs aO bO)
  have di: "dom (r_inputs r)
            = dom (arrayDeclared entriesI) \<union> dom (membersDeclared Joint evaluate ?fI)"
    unfolding i by auto
  have dmo: "dom (r_outputs r)
            = dom (arrayDeclared entriesO)
              \<union> dom (membersDeclared (\<lambda>alias name. Plain alias) evaluate ?fO)"
    unfolding o by auto
  have ki: "\<forall>k. r_inputs r k
              = (case membersDeclared Joint evaluate ?fI k of
                   Some v \<Rightarrow> Some v | None \<Rightarrow> arrayDeclared entriesI k)"
    unfolding i by (simp add: map_add_def)
  have ko: "\<forall>k. r_outputs r k
              = (case membersDeclared (\<lambda>alias name. Plain alias) evaluate ?fO k of
                   Some v \<Rightarrow> Some v | None \<Rightarrow> arrayDeclared entriesO k)"
    unfolding o by (simp add: map_add_def)
  from i o di dmo ki ko show ?thesis by (intro conjI)
qed

theorem inputs_outputs_merged_witness:
  "\<exists>r. extractDirectiveMetadata valueReferenceToExpression isAngularCore literalEvaluator
          noOtherThrows
          \<lparr>class_name = ''Dir'', ctorParameters = None, hasBaseClass = False,
            class_members =
              [\<lparr>member_name = ''foo'', member_kind = Property, isStatic = False,
                 member_decorators =
                   Some [\<lparr>dec_name = ''Input'',
                           dec_import = Some \<lparr>import_name = ''Input'', import_from = ''@angular/core''\<rparr>,
                           dec_args = Some []\<rparr>]\<rparr>,
               \<lparr>member_name = ''zed'', member_kind = Property, isStatic = False,
                 member_decorators =
                   Some [\<lparr>dec_name = ''Input'',
                           dec_import = Some \<lparr>import_name = ''Input'', import_from = ''@angular/core''\<rparr>,
                           dec_args = Some [StringLiteralLike ''zAlias'']\<rparr>]\<rparr>,
               \<lparr>member_name = ''finished'', member_kind = Property, isStatic = False,
                 member_decorators =
                   Some [\<lparr>dec_name = ''Output'',
                           dec_import = Some \<lparr>import_name = ''Output'', import_from = ''@angular/core''\<rparr>,
                           dec_args = Some [StringLiteralLike ''done'']\<rparr>]\<rparr>]\<rparr>
          (Some \<lparr>dec_name = ''Directive'', dec_import = None,
                  dec_args = Some [ObjectLiteralExpression
                    [(''selector'', StringLiteralLike ''x''),
                     (''inputs'', ArrayLiteralExpression
                        [StringLiteralLike ''foo: bar'', StringLiteralLike ''baz: qux'',
                         StringLiteralLike ''plain''])]]\<rparr>)
          False None = Inr (Some r)
      \<and> r_inputs r ''foo'' = Some (Plain ''foo'')
      \<and> r_inputs r ''baz'' = Some (Plain ''qux'')
      \<and> r_inputs r ''plain'' = Some (Plain ''plain'')
      \<and> r_inputs r ''zed'' = Some (Joint ''zAlias'' ''zed'')
      \<and> r_outputs r ''finished'' = Some (Plain ''done'')
      \<and> dom (r_inputs r) = {''foo'', ''baz'', ''plain'', ''zed''}
      \<and> dom (r_outputs r) = {''finished''}"
proof -
  let ?dI = "\<lambda>args. \<lparr>dec_name = ''Input'',
                dec_import = Some \<lparr>import_name = ''Input'', import_from = ''@angular/core''\<rparr>,
                dec_args = Some args\<rparr>"
  let ?dO = "\<lparr>dec_name = ''Output'',
                dec_import = Some \<lparr>import_name = ''Output'', import_from = ''@angular/core''\<rparr>,
                dec_args = Some [StringLiteralLike ''done'']\<rparr>"
  let ?mFoo = "\<lparr>member_name = ''foo'', member_kind = Property, isStatic = False,
                 member_decorators = Some [?dI []]\<rparr>"
  let ?mZed = "\<lparr>member_name = ''zed'', member_kind = Property, isStatic = False,
                 member_decorators = Some [?dI [StringLiteralLike ''zAlias'']]\<rparr>"
  let ?mFin = "\<lparr>member_name = ''finished'', member_kind = Property, isStatic = False,
                 member_decorators = Some [?dO]\<rparr>"
  let ?c = "\<lparr>class_name = ''Dir'', ctorParameters = None, hasBaseClass = False,
            class_members = [?mFoo, ?mZed, ?mFin]\<rparr>"
  let ?props = "[(''selector'', StringLiteralLike ''x''),
                     (''inputs'', ArrayLiteralExpression
                        [StringLiteralLike ''foo: bar'', StringLiteralLike ''baz: qux'',
                         StringLiteralLike ''plain''])]"
  let ?d = "Some \<lparr>dec_name = ''Directive'', dec_import = None,
                  dec_args = Some [ObjectLiteralExpression ?props]\<rparr>"
  let ?eI = "[(''foo'', Some '' bar''), (''baz'', Some '' qux''), (''plain'', None)]
               :: (string \<times> string option) list"
  let ?eO = "[] :: (string \<times> string option) list"
  let ?fI = "filterToMembersWithDecorator
               (filter (\<lambda>member. \<not> isStatic member \<and> member_decorators member \<noteq> None)
                  (class_members ?c)) ''Input'' (if False then None else Some ''@angular/core'')"
  let ?fO = "filterToMembersWithDecorator
               (filter (\<lambda>member. \<not> isStatic member \<and> member_decorators member \<noteq> None)
                  (class_members ?c)) ''Output'' (if False then None else Some ''@angular/core'')"
  have rd: "reflectDecorator ?d = Inr (reflectObjectLiteral ?props)"
    by (simp add: reflectDecorator_def)
  have arrI: "arrayHolds (reflectObjectLiteral ?props) literalEvaluator ''inputs'' ?eI"
    by (simp add: arrayHolds_def reflectObjectLiteral_def entryText_def)
  have arrO: "arrayHolds (reflectObjectLiteral ?props) literalEvaluator ''outputs'' ?eO"
    by (simp add: arrayHolds_def reflectObjectLiteral_def)
  have formI: "\<forall>en\<in>set ?eI. entryForm en" by (simp add: entryForm_def)
  have formO: "\<forall>en\<in>set ?eO. entryForm en" by simp
  have fI: "?fI = [(?mFoo, [?dI []]), (?mZed, [?dI [StringLiteralLike ''zAlias'']])]"
    by (simp add: filterToMembersWithDecorator_def List.map_filter_simps decoratorMatches_def
          Let_def)
  have fO: "?fO = [(?mFin, [?dO])]"
    by (simp add: filterToMembersWithDecorator_def List.map_filter_simps decoratorMatches_def
          Let_def)
  have meta: "parseFieldToPropertyMapping (reflectObjectLiteral ?props) ''inputs'' literalEvaluator
                = Inr (arrayDeclared ?eI)"
    by (simp only: parseFieldToPropertyMapping_holds [OF arrI]
          parseInputOutputMappingArray_declared [OF formI])
  have metaO: "parseFieldToPropertyMapping (reflectObjectLiteral ?props) ''outputs'' literalEvaluator
                = Inr (arrayDeclared ?eO)"
    by (simp only: parseFieldToPropertyMapping_holds [OF arrO]
          parseInputOutputMappingArray_declared [OF formO])
  have flds: "parseDecoratedFields ?fI literalEvaluator resolveInput
                = Inr [''foo'' \<mapsto> Plain ''foo'', ''zed'' \<mapsto> Joint ''zAlias'' ''zed'']"
    unfolding fI
    by (simp add: parseDecoratedFields_def applyFieldDecorator_def bindE_def resolveInput_def)
  have fldsO: "parseDecoratedFields ?fO literalEvaluator resolveOutput
                = Inr [''finished'' \<mapsto> Plain ''done'']"
    unfolding fO
    by (simp add: parseDecoratedFields_def applyFieldDecorator_def bindE_def resolveOutput_def)
  have sel: "resolveSelector (reflectObjectLiteral ?props) literalEvaluator ?c None = Inr (Some ''x'')"
    by (simp add: resolveSelector_def reflectObjectLiteral_def)
  have jit: "reflectObjectLiteral ?props ''jit'' = None"
    by (simp add: reflectObjectLiteral_def)
  let ?fr = "\<lparr>f_directive = reflectObjectLiteral ?props,
      inputsFromMeta = arrayDeclared ?eI,
      inputsFromFields = [''foo'' \<mapsto> Plain ''foo'', ''zed'' \<mapsto> Joint ''zAlias'' ''zed''],
      outputsFromMeta = arrayDeclared ?eO,
      outputsFromFields = [''finished'' \<mapsto> Plain ''done''], f_selector = Some ''x''\<rparr>"
  have front: "extractBeforeCtorDeps literalEvaluator noOtherThrows ?c ?d False None
                 = Inr (Some ?fr)"
    unfolding extractBeforeCtorDeps_def rd Let_def
    using meta metaO flds fldsO sel jit
    by (simp add: bindE_def stepE_def noOtherThrows_def)
  have raw: "getConstructorDependencies valueReferenceToExpression isAngularCore ?c False
               = Inr (Some (Deps []))"
    by (simp add: getConstructorDependencies_def)
  have "\<exists>r. extractDirectiveMetadata valueReferenceToExpression isAngularCore
      literalEvaluator noOtherThrows ?c ?d False None = Inr (Some r)"
    unfolding extractDirectiveMetadata_def front raw
    by (simp add: bindE_def stepE_def noOtherThrows_def validateConstructorDependencies_def)
  then obtain r where run: "extractDirectiveMetadata valueReferenceToExpression isAngularCore
      literalEvaluator noOtherThrows ?c ?d False None = Inr (Some r)" by blast
  note inst = inputs_outputs_merged [OF run rd arrI arrO formI formO]
  have aI: "arrayDeclared ?eI = [''foo'' \<mapsto> Plain ''bar'', ''baz'' \<mapsto> Plain ''qux'',
                                 ''plain'' \<mapsto> Plain ''plain'']"
    by (rule ext) (simp add: arrayDeclared_def entryDeclares_def trim_def isWhiteSpace_def)
  have aO: "arrayDeclared ?eO = Map.empty" by (simp add: arrayDeclared_def)
  have mI: "membersDeclared Joint literalEvaluator ?fI
            = [''foo'' \<mapsto> Plain ''foo'', ''zed'' \<mapsto> Joint ''zAlias'' ''zed'']"
    unfolding fI by (rule ext) (simp add: membersDeclared_def decoratorDeclares_def)
  have mO: "membersDeclared (\<lambda>alias name. Plain alias) literalEvaluator ?fO
            = [''finished'' \<mapsto> Plain ''done'']"
    unfolding fO by (rule ext) (simp add: membersDeclared_def decoratorDeclares_def)
  from inst have i: "r_inputs r = arrayDeclared ?eI ++ membersDeclared Joint literalEvaluator ?fI"
    and o: "r_outputs r
            = arrayDeclared ?eO ++ membersDeclared (\<lambda>alias name. Plain alias) literalEvaluator ?fO"
    by blast+
  have vals: "r_inputs r ''foo'' = Some (Plain ''foo'')"
    "r_inputs r ''baz'' = Some (Plain ''qux'')"
    "r_inputs r ''plain'' = Some (Plain ''plain'')"
    "r_inputs r ''zed'' = Some (Joint ''zAlias'' ''zed'')"
    "r_outputs r ''finished'' = Some (Plain ''done'')"
    unfolding i o aI aO mI mO by simp_all
  have doms: "dom (r_inputs r) = {''foo'', ''baz'', ''plain'', ''zed''}"
    "dom (r_outputs r) = {''finished''}"
    unfolding i o aI aO mI mO by auto
  from run vals doms show ?thesis by blast
qed

section \<open>Properties of remote scoping in the NgModule handler\<close>

lemma emitAll_Inr:
  "emitAll emit typeName refs = Inr es \<Longrightarrow> map emit refs = map Some es"
proof (induction refs arbitrary: es)
  case Nil
  then show ?case by simp
next
  case (Cons r rs)
  then show ?case
    by (auto simp: bindE_def assertSuccessfulReferenceEmit_def split: sum.splits option.splits)
qed

lemma emitAll_total:
  "\<forall>r. emit r \<noteq> None \<Longrightarrow> \<exists>es. emitAll emit typeName refs = Inr es"
proof (induction refs)
  case Nil
  then show ?case by simp
next
  case (Cons r rs)
  then obtain es e where "emitAll emit typeName rs = Inr es" "emit r = Some e" by fastforce
  then show ?case by (simp add: bindE_def assertSuccessfulReferenceEmit_def)
qed

lemma appendRemoteScopingStatements_total:
  "\<forall>r. emit r \<noteq> None \<Longrightarrow>
   \<exists>stmts. appendRemoteScopingStatements emit getRemoteScope acc decls protection = Inr stmts"
proof (induction decls arbitrary: acc)
  case Nil
  then show ?case by simp
next
  case (Cons d ds)
  show ?case
  proof (cases "getRemoteScope (ref_node d)")
    case None
    with Cons show ?thesis by simp
  next
    case (Some sc)
    obtain sd sp where sc: "sc = (sd, sp)" by (cases sc)
    from Cons.prems obtain de where de: "emit d = Some de" by fastforce
    from emitAll_total [OF Cons.prems] obtain es where es: "emitAll emit ''directive'' sd = Inr es"
      by blast
    from emitAll_total [OF Cons.prems] obtain ps where ps: "emitAll emit ''pipe'' sp = Inr ps"
      by blast
    from Cons.IH [OF Cons.prems] Some sc de es ps show ?thesis
      by (simp add: bindE_def assertSuccessfulReferenceEmit_def Let_def)
  qed
qed

lemma appendRemoteScopingStatements_keeps:
  "appendRemoteScopingStatements emit getRemoteScope acc decls protection = Inr stmts
   \<Longrightarrow> set acc \<subseteq> set stmts"
proof (induction decls arbitrary: acc)
  case Nil
  then show ?case by simp
next
  case (Cons d ds)
  show ?case
  proof (cases "getRemoteScope (ref_node d)")
    case None
    with Cons show ?thesis by simp
  next
    case (Some sc)
    obtain sd sp where sc: "sc = (sd, sp)" by (cases sc)
    from Cons.prems Some sc
    have "\<exists>x. appendRemoteScopingStatements emit getRemoteScope (acc @ [x]) ds protection
                = Inr stmts"
      by (auto simp: bindE_def Let_def split: sum.splits)
    then obtain x where
      "appendRemoteScopingStatements emit getRemoteScope (acc @ [x]) ds protection = Inr stmts"
      by blast
    from Cons.IH [OF this] show ?thesis by simp
  qed
qed

lemma appendRemoteScopingStatements_contains:
  assumes "appendRemoteScopingStatements emit getRemoteScope acc decls protection = Inr stmts"
    and "decl \<in> set decls"
    and "getRemoteScope (ref_node decl) = Some (scopeDirectives, scopePipes)"
  shows "\<exists>declExpr directives pipes.
           emit decl = Some declExpr
         \<and> map emit scopeDirectives = map Some directives
         \<and> map emit scopePipes = map Some pipes
         \<and> scopePatchStatement protection declExpr directives pipes \<in> set stmts"
  using assms
proof (induction decls arbitrary: acc)
  case Nil
  then show ?case by simp
next
  case (Cons d ds)
  show ?case
  proof (cases "getRemoteScope (ref_node d)")
    case None
    with Cons.prems have "decl \<in> set ds" by auto
    with Cons None show ?thesis by simp
  next
    case (Some sc)
    obtain sd sp where sc: "sc = (sd, sp)" by (cases sc)
    from Cons.prems(1) Some sc obtain es ps de where
      es: "emitAll emit ''directive'' sd = Inr es" and ps: "emitAll emit ''pipe'' sp = Inr ps"
      and de: "emit d = Some de"
      and rest: "appendRemoteScopingStatements emit getRemoteScope
            (acc @ [scopePatchStatement protection de es ps]) ds protection = Inr stmts"
      by (auto simp: bindE_def Let_def assertSuccessfulReferenceEmit_def scopePatchStatement_def
            closureWrapped_def split: sum.splits option.splits)
    show ?thesis
    proof (cases "decl \<in> set ds")
      case True
      from Cons.IH [OF rest True Cons.prems(3)] show ?thesis .
    next
      case False
      with Cons.prems(2) have eq: "decl = d" by simp
      with Cons.prems(3) Some sc have "sd = scopeDirectives" "sp = scopePipes" by simp_all
      moreover from appendRemoteScopingStatements_keeps [OF rest]
      have "scopePatchStatement protection de es ps \<in> set stmts" by auto
      ultimately show ?thesis
        using emitAll_Inr [OF es] emitAll_Inr [OF ps] de eq by blast
    qed
  qed
qed


text \<open>
  C8. In full compilation, the statements of the module definition contain, for every
  declaration that has a remote scope, the call of \<open>setComponentScope\<close> with the emitted
  component, directives and pipes; the directive and pipe arrays are wrapped in closures
  without parameters exactly when a declaration or import reference of the module is synthetic
  and the array is not empty. Compilation succeeds whenever every reference can be emitted.
\<close>

theorem remote_scoping_statements:
  "((\<forall>r. emit r \<noteq> None) \<longrightarrow>
      (\<exists>stmts. compileFull emit getRemoteScope defStmts metadata
                 (analysisOf declarationRefs importRefs) = Inr stmts))
   \<and> (\<forall>stmts decl scopeDirectives scopePipes.
         compileFull emit getRemoteScope defStmts metadata
           (analysisOf declarationRefs importRefs) = Inr stmts
         \<and> decl \<in> set declarationRefs
         \<and> getRemoteScope (ref_node decl) = Some (scopeDirectives, scopePipes)
         \<longrightarrow> (\<exists>declExpr directives pipes.
                 emit decl = Some declExpr
               \<and> map emit scopeDirectives = map Some directives
               \<and> map emit scopePipes = map Some pipes
               \<and> scopePatchStatement
                    (\<exists>r \<in> set declarationRefs \<union> set importRefs. synthetic r)
                    declExpr directives pipes \<in> set stmts))"
proof -
  have prot: "an_remoteScopesMayRequireCycleProtection (analysisOf declarationRefs importRefs)
                = (\<exists>r \<in> set declarationRefs \<union> set importRefs. synthetic r)"
    by (auto simp: analysisOf_def remoteScopesMayRequireCycleProtection_def
                   isSyntheticReference_def list_ex_iff)
  have decls: "an_declarations (analysisOf declarationRefs importRefs) = declarationRefs"
    by (simp add: analysisOf_def)
  have total: "(\<forall>r. emit r \<noteq> None) \<longrightarrow>
      (\<exists>stmts. compileFull emit getRemoteScope defStmts metadata
                 (analysisOf declarationRefs importRefs) = Inr stmts)"
    unfolding compileFull_def using appendRemoteScopingStatements_total by blast
  have contains: "\<exists>declExpr directives pipes.
                 emit decl = Some declExpr
               \<and> map emit scopeDirectives = map Some directives
               \<and> map emit scopePipes = map Some pipes
               \<and> scopePatchStatement
                    (\<exists>r \<in> set declarationRefs \<union> set importRefs. synthetic r)
                    declExpr directives pipes \<in> set stmts"
    if "compileFull emit getRemoteScope defStmts metadata
           (analysisOf declarationRefs importRefs) = Inr stmts"
      and "decl \<in> set declarationRefs"
      and "getRemoteScope (ref_node decl) = Some (scopeDirectives, scopePipes)"
    for stmts decl scopeDirectives scopePipes
    using appendRemoteScopingStatements_contains [OF that(1) [unfolded compileFull_def decls] that(2,3)]
    unfolding prot .
  from total contains show ?thesis by blast
qed

theorem remote_scoping_statements_witness:
  "\<exists>stmts.
     compileFull (\<lambda>r. Some (WrappedNodeExpr (OtherNode (ref_node r))))
       (\<lambda>n. if n = 1 then Some ([\<lparr>ref_node = 3, synthetic = False\<rparr>], []) else None)
       [] None
       (analysisOf [\<lparr>ref_node = 1, synthetic = False\<rparr>, \<lparr>ref_node = 2, synthetic = True\<rparr>] [])
     = Inr stmts
   \<and> ExpressionStatement (InvokeFunctionExpr setComponentScope
         [WrappedNodeExpr (OtherNode 1),
          FunctionExpr [] [ReturnStatement (LiteralArrayExpr [WrappedNodeExpr (OtherNode 3)])],
          LiteralArrayExpr []]) \<in> set stmts"
proof -
  let ?emit = "\<lambda>r. Some (WrappedNodeExpr (OtherNode (ref_node r)))"
  let ?scope = "\<lambda>n::nat. if n = 1 then Some ([\<lparr>ref_node = 3, synthetic = False\<rparr>], []) else None"
  let ?decls = "[\<lparr>ref_node = 1, synthetic = False\<rparr>, \<lparr>ref_node = 2, synthetic = True\<rparr>]"
  note inst = remote_scoping_statements [of ?emit ?scope "[]" None ?decls "[]"]
  have e: "\<forall>r. ?emit r \<noteq> None" by simp
  from inst e
  obtain stmts where run: "compileFull ?emit ?scope [] None (analysisOf ?decls []) = Inr stmts"
    by blast
  have "scopePatchStatement True (WrappedNodeExpr (OtherNode 1))
          [WrappedNodeExpr (OtherNode 3)] [] \<in> set stmts"
    using conjunct2 [OF inst, rule_format, of stmts "\<lparr>ref_node = 1, synthetic = False\<rparr>"
                       "[\<lparr>ref_node = 3, synthetic = False\<rparr>]" "[]"] run
    by (auto simp: Cons_eq_map_conv)
  then show ?thesis
    using run by (auto simp: scopePatchStatement_def closureWrapped_def)
qed

section \<open>Properties of listener dispatch\<close>

lemma exec_app:
  "app (snd (executeListenerWithErrorHandling lView f e)) = snd (f e (app lView))"
  by (simp add: executeListenerWithErrorHandling_def profiler_def handleError_def Let_def
           split: prod.splits sum.splits)

lemma exec_flags:
  "defaultPrevented (snd (executeListenerWithErrorHandling lView f e)) = defaultPrevented lView"
  "returnValueFalse (snd (executeListenerWithErrorHandling lView f e)) = returnValueFalse lView"
  by (simp_all add: executeListenerWithErrorHandling_def profiler_def handleError_def Let_def
           split: prod.splits sum.splits)

lemma exec_throw:
  "fst (f e (app lView)) = Inl x \<Longrightarrow>
   fst (executeListenerWithErrorHandling lView f e) = False
   \<and> trace (snd (executeListenerWithErrorHandling lView f e))
       = trace lView @ [OutputStart, HandledError x, OutputEnd]"
  by (auto simp: executeListenerWithErrorHandling_def profiler_def handleError_def Let_def
           split: prod.splits sum.splits)

lemma exec_returningFalse:
  "fst (executeListenerWithErrorHandling lView (returningFalse h) e) = False
   \<and> trace (snd (executeListenerWithErrorHandling lView (returningFalse h) e))
       = trace lView @ [OutputStart, OutputEnd]"
  by (simp add: executeListenerWithErrorHandling_def profiler_def handleError_def Let_def
           returningFalse_def split: prod.splits sum.splits)

lemma exec_trace_grows:
  "\<exists>t. trace (snd (executeListenerWithErrorHandling lView f e)) = trace lView @ t"
  by (auto simp: executeListenerWithErrorHandling_def profiler_def handleError_def Let_def
           split: prod.splits sum.splits)

lemma exec_same:
  assumes "sameButHandled a b"
  shows "fst (executeListenerWithErrorHandling a f e) = fst (executeListenerWithErrorHandling b f e)
       \<and> sameButHandled (snd (executeListenerWithErrorHandling a f e))
                         (snd (executeListenerWithErrorHandling b f e))"
  using assms
  by (auto simp: executeListenerWithErrorHandling_def profiler_def handleError_def Let_def
                 sameButHandled_def withoutHandled_def split: prod.splits sum.splits)

lemma exec_twin:
  assumes "sameButHandled a b" and "fst (h e (app b)) = Inl x"
  shows "fst (executeListenerWithErrorHandling a (returningFalse h) e)
           = fst (executeListenerWithErrorHandling b h e)
       \<and> sameButHandled (snd (executeListenerWithErrorHandling a (returningFalse h) e))
                         (snd (executeListenerWithErrorHandling b h e))"
  using assms
  by (auto simp: executeListenerWithErrorHandling_def profiler_def handleError_def Let_def
                 sameButHandled_def withoutHandled_def returningFalse_def
           split: prod.splits sum.splits)

lemma nextListeners_app:
  "app (snd (nextListeners fs e r lView)) = allRun fs e (app lView)"
proof (induction fs arbitrary: r lView)
  case Nil
  then show ?case by (simp add: allRun_def)
next
  case (Cons f fs)
  obtain r' lView' where x: "executeListenerWithErrorHandling lView f e = (r', lView')"
    by (cases "executeListenerWithErrorHandling lView f e")
  with exec_app [of lView f e] have "app lView' = snd (f e (app lView))" by simp
  with Cons x show ?case by (simp add: allRun_def)
qed

lemma nextListeners_flags:
  "defaultPrevented (snd (nextListeners fs e r lView)) = defaultPrevented lView
   \<and> returnValueFalse (snd (nextListeners fs e r lView)) = returnValueFalse lView"
proof (induction fs arbitrary: r lView)
  case Nil
  then show ?case by simp
next
  case (Cons f fs)
  obtain r' lView' where x: "executeListenerWithErrorHandling lView f e = (r', lView')"
    by (cases "executeListenerWithErrorHandling lView f e")
  with exec_flags [of lView f e] Cons show ?case by simp
qed

lemma nextListeners_trace_grows:
  "\<exists>t. trace (snd (nextListeners fs e r lView)) = trace lView @ t"
proof (induction fs arbitrary: r lView)
  case Nil
  then show ?case by simp
next
  case (Cons f fs)
  obtain r' lView' where x: "executeListenerWithErrorHandling lView f e = (r', lView')"
    by (cases "executeListenerWithErrorHandling lView f e")
  from exec_trace_grows [of lView f e] x obtain t where t: "trace lView' = trace lView @ t"
    by auto
  from Cons [of "r' \<and> r" lView'] obtain t' where
    "trace (snd (nextListeners fs e (r' \<and> r) lView')) = trace lView' @ t'" by blast
  with x t show ?case by simp
qed

lemma nextListeners_False:
  "fst (nextListeners fs e False lView) = False"
  by (induction fs arbitrary: lView) (auto split: prod.splits)

lemma nextListeners_append:
  "nextListeners (fs @ gs) e r lView =
     nextListeners gs e (fst (nextListeners fs e r lView)) (snd (nextListeners fs e r lView))"
  by (induction fs arbitrary: r lView) (auto split: prod.splits)

lemma nextListeners_same:
  assumes "sameButHandled a b"
  shows "fst (nextListeners fs e r a) = fst (nextListeners fs e r b)
       \<and> sameButHandled (snd (nextListeners fs e r a)) (snd (nextListeners fs e r b))"
  using assms
proof (induction fs arbitrary: r a b)
  case Nil
  then show ?case by simp
next
  case (Cons f fs)
  obtain ra a' where xa: "executeListenerWithErrorHandling a f e = (ra, a')"
    by (cases "executeListenerWithErrorHandling a f e")
  obtain rb b' where xb: "executeListenerWithErrorHandling b f e = (rb, b')"
    by (cases "executeListenerWithErrorHandling b f e")
  from exec_same [OF Cons.prems, of f e] xa xb have "ra = rb" "sameButHandled a' b'" by simp_all
  with Cons.IH [of a' b' "rb \<and> r"] xa xb show ?case by simp
qed


lemma wrapListener_dispatch:
  "wrapListener wpd lf ch (DomEvent e) lView =
    (let r = nextListeners (lf # ch) e True (lView\<lparr>trace := trace lView @ [MarkViewDirty]\<rparr>)
     in if wpd \<and> \<not> fst r
        then (Dispatched (fst r), (snd r)\<lparr>defaultPrevented := True, returnValueFalse := True\<rparr>)
        else (Dispatched (fst r), snd r))"
  by (simp add: wrapListener_def Let_def split: prod.splits)

lemma sameButHandled_refl: "sameButHandled a a"
  by (simp add: sameButHandled_def)

lemma chain_throws:
  assumes "fst (h e (allRun pre e (app lView))) = Inl x"
  shows "fst (nextListeners (pre @ h # post) e r lView) = False
       \<and> HandledError x \<in> set (trace (snd (nextListeners (pre @ h # post) e r lView)))"
proof -
  let ?p = "nextListeners pre e r lView"
  obtain rh lh where xh: "executeListenerWithErrorHandling (snd ?p) h e = (rh, lh)"
    by (cases "executeListenerWithErrorHandling (snd ?p) h e")
  from assms have hx: "fst (h e (app (snd ?p))) = Inl x" by (simp add: nextListeners_app)
  from exec_throw [of h e "snd ?p" x] hx xh have rh: "rh = False"
    and th: "trace lh = trace (snd ?p) @ [OutputStart, HandledError x, OutputEnd]" by simp_all
  have eq: "nextListeners (pre @ h # post) e r lView = nextListeners post e False lh"
    using xh rh by (simp add: nextListeners_append)
  from nextListeners_trace_grows [of post e False lh] obtain t where
    "trace (snd (nextListeners post e False lh)) = trace lh @ t" by blast
  with th have "HandledError x \<in> set (trace (snd (nextListeners post e False lh)))" by simp
  with eq nextListeners_False [of post e lh] show ?thesis by auto
qed

lemma chain_twin:
  assumes "fst (h e (allRun pre e (app lView))) = Inl x"
  shows "fst (nextListeners (pre @ returningFalse h # post) e r lView)
           = fst (nextListeners (pre @ h # post) e r lView)
       \<and> sameButHandled (snd (nextListeners (pre @ returningFalse h # post) e r lView))
                         (snd (nextListeners (pre @ h # post) e r lView))"
proof -
  let ?p = "nextListeners pre e r lView"
  obtain rh lh where xh: "executeListenerWithErrorHandling (snd ?p) h e = (rh, lh)"
    by (cases "executeListenerWithErrorHandling (snd ?p) h e")
  obtain rt lt where xt: "executeListenerWithErrorHandling (snd ?p) (returningFalse h) e = (rt, lt)"
    by (cases "executeListenerWithErrorHandling (snd ?p) (returningFalse h) e")
  from assms have hx: "fst (h e (app (snd ?p))) = Inl x" by (simp add: nextListeners_app)
  from exec_twin [of "snd ?p" "snd ?p" h e x] sameButHandled_refl [of "snd ?p"] hx xh xt
  have r: "rt = rh" and s: "sameButHandled lt lh" by simp_all
  have e1: "nextListeners (pre @ h # post) e r lView = nextListeners post e (rh \<and> fst ?p) lh"
    using xh by (simp add: nextListeners_append)
  have e2: "nextListeners (pre @ returningFalse h # post) e r lView
              = nextListeners post e (rh \<and> fst ?p) lt"
    using xt r by (simp add: nextListeners_append)
  from nextListeners_same [OF s, of post e "rh \<and> fst ?p"] e1 e2 show ?thesis by simp
qed

text \<open>
  C10. Let \<open>h\<close> be one of the listeners of a wrapped listener and its chain, and let \<open>h\<close>
  throw \<open>x\<close> when the dispatch calls it, that is in the application state the listeners before
  it have left. The dispatch then returns \<open>false\<close> to its caller; every listener of the chain
  has run, in order, also those after \<open>h\<close>; \<open>x\<close> was handed to the error handler; with
  \<open>wrapWithPreventDefault\<close> the default is prevented. Replacing \<open>h\<close> by a listener that does
  the same and returns \<open>false\<close> explicitly gives the same result and the same state, except
  that no error is handed over.
\<close>

theorem throwing_listener_like_false:
  assumes chain: "listenerFn # chained = pre @ h # post"
    and throws: "fst (h e (allRun pre e (app lView))) = Inl x"
    and twin: "listenerFn' # chained' = pre @ returningFalse h # post"
  shows "fst (wrapListener wpd listenerFn chained (DomEvent e) lView) = Dispatched False
       \<and> app (snd (wrapListener wpd listenerFn chained (DomEvent e) lView))
           = allRun (listenerFn # chained) e (app lView)
       \<and> HandledError x
           \<in> set (trace (snd (wrapListener wpd listenerFn chained (DomEvent e) lView)))
       \<and> defaultPrevented (snd (wrapListener wpd listenerFn chained (DomEvent e) lView))
           = (wpd \<or> defaultPrevented lView)
       \<and> fst (wrapListener wpd listenerFn' chained' (DomEvent e) lView)
           = fst (wrapListener wpd listenerFn chained (DomEvent e) lView)
       \<and> sameButHandled (snd (wrapListener wpd listenerFn' chained' (DomEvent e) lView))
                         (snd (wrapListener wpd listenerFn chained (DomEvent e) lView))"
proof -
  let ?l0 = "lView\<lparr>trace := trace lView @ [MarkViewDirty]\<rparr>"
  let ?r = "nextListeners (listenerFn # chained) e True ?l0"
  let ?t = "nextListeners (listenerFn' # chained') e True ?l0"
  from throws have throws0: "fst (h e (allRun pre e (app ?l0))) = Inl x" by simp
  from chain_throws [of h e pre ?l0 x post True] throws0 chain
  have res: "fst ?r = False" and handled: "HandledError x \<in> set (trace (snd ?r))"
    by simp_all
  have apps: "app (snd ?r) = allRun (listenerFn # chained) e (app lView)"
    using nextListeners_app [of "listenerFn # chained" e True ?l0] by simp
  have flags: "defaultPrevented (snd ?r) = defaultPrevented lView"
    using nextListeners_flags [of "listenerFn # chained" e True ?l0] by simp
  from chain_twin [of h e pre ?l0 x post True] throws0 chain twin
  have tw: "fst ?t = fst ?r" "sameButHandled (snd ?t) (snd ?r)" by simp_all
  have w: "wrapListener wpd listenerFn chained (DomEvent e) lView =
      (if wpd then (Dispatched False, (snd ?r)\<lparr>defaultPrevented := True, returnValueFalse := True\<rparr>)
       else (Dispatched False, snd ?r))"
    unfolding wrapListener_dispatch using res by (simp add: Let_def)
  have w': "wrapListener wpd listenerFn' chained' (DomEvent e) lView =
      (if wpd then (Dispatched False, (snd ?t)\<lparr>defaultPrevented := True, returnValueFalse := True\<rparr>)
       else (Dispatched False, snd ?t))"
    unfolding wrapListener_dispatch using res tw(1) by (simp add: Let_def)
  show ?thesis
    unfolding w w' using apps handled flags tw(2)
    by (auto simp: sameButHandled_def)
qed

text \<open>
  An instance: the second of three listeners throws only in the state in which the dispatch
  calls it, and returns \<open>true\<close> in every other state.
\<close>

theorem throwing_listener_like_false_witness:
  "fst (wrapListener True (\<lambda>e s. (Inr JsUndefined, s + 1))
          [\<lambda>e s. if s = 1 then (Inl ''boom'', s + 10) else (Inr JsTrue, s),
           \<lambda>e s. (Inr JsTrue, s + 100)] (DomEvent ())
          \<lparr>app = 0::nat, trace = [], defaultPrevented = False, returnValueFalse = False\<rparr>)
     = Dispatched False
   \<and> app (snd (wrapListener True (\<lambda>e s. (Inr JsUndefined, s + 1))
          [\<lambda>e s. if s = 1 then (Inl ''boom'', s + 10) else (Inr JsTrue, s),
           \<lambda>e s. (Inr JsTrue, s + 100)] (DomEvent ())
          \<lparr>app = 0::nat, trace = [], defaultPrevented = False, returnValueFalse = False\<rparr>))
     = 111
   \<and> HandledError ''boom''
     \<in> set (trace (snd (wrapListener True (\<lambda>e s. (Inr JsUndefined, s + 1))
          [\<lambda>e s. if s = 1 then (Inl ''boom'', s + 10) else (Inr JsTrue, s),
           \<lambda>e s. (Inr JsTrue, s + 100)] (DomEvent ())
          \<lparr>app = 0::nat, trace = [], defaultPrevented = False, returnValueFalse = False\<rparr>)))
   \<and> defaultPrevented (snd (wrapListener True (\<lambda>e s. (Inr JsUndefined, s + 1))
          [\<lambda>e s. if s = 1 then (Inl ''boom'', s + 10) else (Inr JsTrue, s),
           \<lambda>e s. (Inr JsTrue, s + 100)] (DomEvent ())
          \<lparr>app = 0::nat, trace = [], defaultPrevented = False, returnValueFalse = False\<rparr>))
   \<and> fst (wrapListener True (\<lambda>e s. (Inr JsUndefined, s + 1))
          [returningFalse (\<lambda>e s. if s = 1 then (Inl ''boom'', s + 10) else (Inr JsTrue, s)),
           \<lambda>e s. (Inr JsTrue, s + 100)]
          (DomEvent ())
          \<lparr>app = 0::nat, trace = [], defaultPrevented = False, returnValueFalse = False\<rparr>)
     = Dispatched False"
proof -
  let ?L = "(\<lambda>e s. (Inr JsUndefined, s + 1)) :: (nat, unit, string) listenerFn"
  let ?H = "(\<lambda>e s. if s = 1 then (Inl ''boom'', s + 10) else (Inr JsTrue, s))
              :: (nat, unit, string) listenerFn"
  let ?T = "(\<lambda>e s. (Inr JsTrue, s + 100)) :: (nat, unit, string) listenerFn"
  let ?st = "\<lparr>app = 0::nat, trace = [] :: string Effect list, defaultPrevented = False,
              returnValueFalse = False\<rparr>"
  have chain: "?L # [?H, ?T] = [?L] @ ?H # [?T]" by simp
  have throws: "fst (?H () (allRun [?L] () (app ?st))) = Inl ''boom''" by (simp add: allRun_def)
  have twin: "?L # [returningFalse ?H, ?T] = [?L] @ returningFalse ?H # [?T]" by simp
  have run: "allRun (?L # [?H, ?T]) () (app ?st) = 111" by (simp add: allRun_def)
  from throwing_listener_like_false [where listenerFn = ?L and chained = "[?H, ?T]"
         and pre = "[?L]" and h = ?H and post = "[?T]" and e = "()" and x = "''boom''"
         and listenerFn' = ?L and chained' = "[returningFalse ?H, ?T]"
         and wpd = True and lView = ?st, OF chain throws twin]
  show ?thesis by (simp only: run) simp
qed
section \<open>Properties of multi provider resolution\<close>

lemma packed_start:
  assumes "packing ix" and "n < 2 ^ CptViewProvidersCountShift ix"
  shows "n AND ProvidersStartIndexMask ix = n"
    and "(n + CptViewProvidersCountShifter ix) AND ProvidersStartIndexMask ix = n"
    and "drop_bit (CptViewProvidersCountShift ix) n = 0"
    and "drop_bit (CptViewProvidersCountShift ix) (n + CptViewProvidersCountShifter ix) = 1"
proof -
  let ?k = "CptViewProvidersCountShift ix"
  from assms have m: "ProvidersStartIndexMask ix = mask ?k"
    and s: "CptViewProvidersCountShifter ix = 2 ^ ?k" by (simp_all add: packing_def)
  show "n AND ProvidersStartIndexMask ix = n"
    using assms(2) by (simp add: m take_bit_eq_mod flip: take_bit_eq_mask)
  show "(n + CptViewProvidersCountShifter ix) AND ProvidersStartIndexMask ix = n"
    using assms(2) by (simp add: m s take_bit_eq_mod flip: take_bit_eq_mask)
  show "drop_bit ?k n = 0"
    using assms(2) by (simp add: drop_bit_eq_div)
  show "drop_bit ?k (n + CptViewProvidersCountShifter ix) = 1"
  proof -
    have "(n + 2 ^ ?k) div 2 ^ ?k = n div 2 ^ ?k + 1"
      by (rule div_add_self2) simp
    with assms(2) show ?thesis by (simp add: s drop_bit_eq_div)
  qed
qed

lemma indexOf_one [simp]:
  "indexOf tok (replicate n None @ Some tok # rest) n (Suc n) = Some n"
  by (simp add: indexOf_def nth_append)

lemma indexOf_empty [simp]: "indexOf tok arr n n = None"
  by (simp add: indexOf_def)

lemma indexOf_second [simp]:
  "indexOf tok (replicate n None @ [x, Some tok]) (Suc n) (Suc (Suc n)) = Some (Suc n)"
  by (simp add: indexOf_def nth_append)

lemma indexOf_past [simp]:
  "indexOf tok (replicate n None @ [x]) (Suc n) (Suc n) = None"
  by (simp add: indexOf_def)

lemma view_first:
  assumes "packing ix" and "n < 2 ^ CptViewProvidersCountShift ix"
  shows "resolveMulti ix tok v True True (freshNode n) = Inr (stateAfterView ix n tok [v])"
  using packed_start [OF assms]
  by (simp add: resolveMulti_def freshNode_def stateAfterView_def blueprintFactory_def bindE_def
        multiFactory_def pushFactory_def viewFactoryObj_def Let_def)

lemma view_next:
  assumes "packing ix" and "n < 2 ^ CptViewProvidersCountShift ix"
  shows "resolveMulti ix tok v isComponent True (stateAfterView ix n tok vs)
           = Inr (stateAfterView ix n tok (vs @ [v]))"
  using packed_start [OF assms]
  by (simp add: resolveMulti_def stateAfterView_def blueprintFactory_def bindE_def
        multiFactoryAdd_def viewFactoryObj_def Let_def nth_append)

lemma prov_first:
  assumes "packing ix" and "n < 2 ^ CptViewProvidersCountShift ix"
  shows "resolveMulti ix tok c True False (stateAfterView ix n tok vs)
           = Inr (stateAfterBoth ix n tok vs [c] 1)"
  using packed_start [OF assms]
  by (simp add: resolveMulti_def stateAfterView_def stateAfterBoth_def blueprintFactory_def
        bindE_def multiFactory_def pushFactory_def viewFactoryObj_def provFactoryObj_def
        Let_def nth_append)

lemma prov_next:
  assumes "packing ix" and "n < 2 ^ CptViewProvidersCountShift ix"
  shows "resolveMulti ix tok c True False (stateAfterBoth ix n tok vs ps cc)
           = Inr (stateAfterBoth ix n tok vs (ps @ [c]) (Suc cc))"
  using packed_start [OF assms]
  by (simp add: resolveMulti_def stateAfterBoth_def blueprintFactory_def
        bindE_def multiFactoryAdd_def viewFactoryObj_def provFactoryObj_def
        Let_def nth_append)

lemma directive_next:
  assumes "packing ix" and "n < 2 ^ CptViewProvidersCountShift ix"
  shows "resolveMulti ix tok d False False (stateAfterBoth ix n tok vs ps cc)
           = Inr (stateAfterBoth ix n tok vs (ps @ [d]) cc)"
  using packed_start [OF assms]
  by (simp add: resolveMulti_def stateAfterBoth_def blueprintFactory_def
        bindE_def multiFactoryAdd_def viewFactoryObj_def provFactoryObj_def
        Let_def nth_append)


lemma view_loop:
  assumes "packing ix" and "n < 2 ^ CptViewProvidersCountShift ix"
  shows "resolveProviderArray ix (multiOf tok vs) isComponent True (stateAfterView ix n tok vs0)
           = Inr (stateAfterView ix n tok (vs0 @ vs))"
proof (induction vs arbitrary: vs0)
  case Nil
  then show ?case by (simp add: multiOf_def)
next
  case (Cons v vs)
  from Cons [of "vs0 @ [v]"] view_next [OF assms, of tok v isComponent vs0]
  show ?case by (simp add: multiOf_def bindE_def)
qed

lemma prov_loop:
  assumes "packing ix" and "n < 2 ^ CptViewProvidersCountShift ix"
  shows "resolveProviderArray ix (multiOf tok cs) True False (stateAfterBoth ix n tok vs ps cc)
           = Inr (stateAfterBoth ix n tok vs (ps @ cs) (cc + length cs))"
proof (induction cs arbitrary: ps cc)
  case Nil
  then show ?case by (simp add: multiOf_def)
next
  case (Cons c cs)
  from Cons [of "ps @ [c]" "Suc cc"] prov_next [OF assms, of tok c vs ps cc]
  show ?case by (simp add: multiOf_def bindE_def)
qed

lemma directive_loop:
  assumes "packing ix" and "n < 2 ^ CptViewProvidersCountShift ix"
  shows "resolveProviderArray ix (multiOf tok ds) False False (stateAfterBoth ix n tok vs ps cc)
           = Inr (stateAfterBoth ix n tok vs (ps @ ds) cc)"
proof (induction ds arbitrary: ps)
  case Nil
  then show ?case by (simp add: multiOf_def)
next
  case (Cons d ds)
  from Cons [of "ps @ [d]"] directive_next [OF assms, of tok d vs ps cc]
  show ?case by (simp add: multiOf_def bindE_def)
qed

lemma component_registered:
  assumes "packing ix" and "n < 2 ^ CptViewProvidersCountShift ix"
  shows "providersResolver ix True (multiOf tok (c # cs)) (multiOf tok (v # vs)) (freshNode n)
           = Inr (stateAfterBoth ix n tok (v # vs) (c # cs) (Suc (length cs)))"
proof -
  have a: "resolveProviderArray ix (multiOf tok (v # vs)) True True (freshNode n)
             = Inr (stateAfterView ix n tok (v # vs))"
    using view_first [OF assms, of tok v] view_loop [OF assms, of tok vs True "[v]"]
    by (simp add: multiOf_def bindE_def)
  have b: "resolveProviderArray ix (multiOf tok (c # cs)) True False
             (stateAfterView ix n tok (v # vs))
             = Inr (stateAfterBoth ix n tok (v # vs) (c # cs) (Suc (length cs)))"
    using prov_first [OF assms, of tok c "v # vs"]
          prov_loop [OF assms, of tok cs "v # vs" "[c]" 1]
    by (simp add: multiOf_def bindE_def)
  show ?thesis
    using a b by (simp add: providersResolver_def bindE_def freshNode_def)
qed

lemma directive_registered:
  assumes "packing ix" and "n < 2 ^ CptViewProvidersCountShift ix"
  shows "providersResolver ix False (multiOf tok ds) [] (stateAfterBoth ix n tok vs ps cc)
           = Inr (stateAfterBoth ix n tok vs (ps @ ds) cc)"
  using directive_loop [OF assms, of tok ds vs ps cc]
  by (simp add: providersResolver_def bindE_def stateAfterBoth_def)

lemma lookup_from_content:
  assumes "packing ix" and "n < 2 ^ CptViewProvidersCountShift ix"
  shows "\<exists>lView'. lookupProvider ix (Suc fuel) False tok (stateAfterBoth ix n tok vs ps cc)
           = Some (Inr (Many ps, lView'))"
  using packed_start [OF assms]
  by (simp add: lookupProvider_def stateAfterBoth_def Let_def nth_append
        provFactoryObj_def multiProvidersFactoryResolver_def multiResolve_def)

lemma lookup_from_view:
  assumes "packing ix" and "n < 2 ^ CptViewProvidersCountShift ix"
  shows "\<exists>lView'. lookupProvider ix (Suc (Suc fuel)) True tok (stateAfterBoth ix n tok vs ps cc)
           = Some (Inr (Many (take cc ps @ vs @ drop cc ps), lView'))"
  using packed_start [OF assms]
  by (simp add: lookupProvider_def stateAfterBoth_def Let_def nth_append
        provFactoryObj_def viewFactoryObj_def multiProvidersFactoryResolver_def
        multiViewProvidersFactoryResolver_def multiResolve_def indexOf_def)


text \<open>
  C1, as the code has it. On a fresh node, let the component contribute the values
  \<open>c # cs\<close> through its providers and \<open>v # vs\<close> through its view providers to one multi
  token. A lookup from within the component's view yields the values of the component's
  providers first, then those of the view providers; a lookup that may not see view providers,
  which reaches the provider-level factory, yields the providers' values only. After another
  directive has contributed \<open>ds\<close>, these come last in both.
\<close>

theorem view_lookup_component_first:
  assumes "packing ix" and "n < 2 ^ CptViewProvidersCountShift ix"
  shows "\<exists>st. providersResolver ix True (multiOf tok (c # cs)) (multiOf tok (v # vs)) (freshNode n)
                 = Inr st
           \<and> injectedValue (lookupProvider ix 2 True tok st) = Some (Many (c # cs @ v # vs))
           \<and> injectedValue (lookupProvider ix 2 False tok st) = Some (Many (c # cs))
           \<and> (\<forall>ds. \<exists>st2. providersResolver ix False (multiOf tok ds) [] st = Inr st2
                 \<and> injectedValue (lookupProvider ix 2 True tok st2)
                     = Some (Many (c # cs @ v # vs @ ds))
                 \<and> injectedValue (lookupProvider ix 2 False tok st2)
                     = Some (Many (c # cs @ ds)))"
proof -
  let ?st = "stateAfterBoth ix n tok (v # vs) (c # cs) (Suc (length cs))"
  have run: "providersResolver ix True (multiOf tok (c # cs)) (multiOf tok (v # vs)) (freshNode n)
               = Inr ?st"
    by (rule component_registered [OF assms])
  have l: "injectedValue (lookupProvider ix 2 True tok
             (stateAfterBoth ix n tok (v # vs) (c # cs @ ds) (Suc (length cs))))
             = Some (Many (c # cs @ v # vs @ ds))"
      "injectedValue (lookupProvider ix 2 False tok
             (stateAfterBoth ix n tok (v # vs) (c # cs @ ds) (Suc (length cs))))
             = Some (Many (c # cs @ ds))" for ds
    using lookup_from_view [OF assms, of 0 tok "v # vs" "c # cs @ ds" "Suc (length cs)"]
          lookup_from_content [OF assms, of 1 tok "v # vs" "c # cs @ ds" "Suc (length cs)"]
    by (auto simp: injectedValue_def numeral_2_eq_2)
  have d: "providersResolver ix False (multiOf tok ds) [] ?st
             = Inr (stateAfterBoth ix n tok (v # vs) (c # cs @ ds) (Suc (length cs)))" for ds
    using directive_registered [OF assms, of tok ds "v # vs" "c # cs" "Suc (length cs)"] by simp
  from l [of "[]"] have l0: "injectedValue (lookupProvider ix 2 True tok ?st)
                               = Some (Many (c # cs @ v # vs))"
    "injectedValue (lookupProvider ix 2 False tok ?st) = Some (Many (c # cs))"
    by simp_all
  from run l0 l d show ?thesis by blast
qed

theorem view_lookup_component_first_witness:
  "injectedValue (lookupAfterResolving packedIndexes True
      [ObjectProvider ''TOK'' ''X_component'' True] [ObjectProvider ''TOK'' ''X_view'' True]
      2 True ''TOK'' (freshNode 5))
   = Some (Many [''X_component'', ''X_view''])"
proof -
  have p: "packing packedIndexes" by (simp add: packing_def packedIndexes_def mask_eq_exp_minus_1)
  have n: "(5::nat) < 2 ^ CptViewProvidersCountShift packedIndexes"
    by (simp add: packedIndexes_def)
  from view_lookup_component_first [OF p n, of "''TOK''" "''X_component''" "[]" "''X_view''" "[]"]
  show ?thesis
    by (auto simp: lookupAfterResolving_def multiOf_def)
qed

theorem view_lookup_order_counterexample:
  "injectedValue (lookupAfterResolving packedIndexes True
      [ObjectProvider ''TOK'' ''X_component'' True] [ObjectProvider ''TOK'' ''X_view'' True]
      2 True ''TOK'' (freshNode 0))
   = Some (Many [''X_component'', ''X_view''])
   \<and> injectedValue (lookupAfterResolving packedIndexes True
      [ObjectProvider ''TOK'' ''X_component'' True] [ObjectProvider ''TOK'' ''X_view'' True]
      2 True ''TOK'' (freshNode 0))
   \<noteq> Some (Many [''X_view'', ''X_component''])
   \<and> injectedValue (lookupAfterResolving packedIndexes True
      [ObjectProvider ''TOK'' ''X_component'' True] [ObjectProvider ''TOK'' ''X_view'' True]
      2 False ''TOK'' (freshNode 0))
   = Some (Many [''X_component''])"
proof -
  have p: "packing packedIndexes" by (simp add: packing_def packedIndexes_def mask_eq_exp_minus_1)
  have n: "(0::nat) < 2 ^ CptViewProvidersCountShift packedIndexes"
    by (simp add: packedIndexes_def)
  have run: "providersResolver packedIndexes True
      [ObjectProvider ''TOK'' ''X_component'' True] [ObjectProvider ''TOK'' ''X_view'' True]
      (freshNode 0) = Inr (stateAfterBoth packedIndexes 0 ''TOK'' [''X_view''] [''X_component''] 1)"
    using component_registered [OF p n, of "''TOK''" "''X_component''" "[]" "''X_view''" "[]"]
    by (simp add: multiOf_def)
  from lookup_from_view [OF p n, of 0 "''TOK''" "[''X_view'']" "[''X_component'']" 1]
       lookup_from_content [OF p n, of 1 "''TOK''" "[''X_view'']" "[''X_component'']" 1]
  show ?thesis
    by (auto simp: injectedValue_def lookupAfterResolving_def run numeral_2_eq_2)
qed

section \<open>Properties of view containers\<close>

lemma removeFromArray_valid:
  assumes "k < length arr"
  shows "removeFromArray arr (int k) = (Some (arr ! k), take k arr @ drop (Suc k) arr)"
proof (cases "Suc k = length arr")
  case True
  then have "arr \<noteq> []" by auto
  moreover from True have "last arr = arr ! k" by (metis \<open>arr \<noteq> []\<close> diff_Suc_1 last_conv_nth)
  moreover from True have "butlast arr = take k arr" by (metis butlast_conv_take diff_Suc_1)
  ultimately show ?thesis using True
    by (simp add: removeFromArray_def)
next
  case False
  with assms show ?thesis
    by (auto simp: removeFromArray_def spliceIndex_def)
qed

lemma addToArray_valid:
  assumes "k \<le> length arr"
  shows "addToArray arr (int k) v = take k arr @ v # drop k arr"
  using assms by (auto simp: addToArray_def spliceIndex_def)

lemma arrayIndexOf_range: "- 1 \<le> arrayIndexOf xs x \<and> arrayIndexOf xs x < int (length xs)"
  by (induction xs) (auto simp: Let_def)

lemma arrayIndexOf_found:
  "x \<in> set xs \<Longrightarrow> 0 \<le> arrayIndexOf xs x \<and> xs ! nat (arrayIndexOf xs x) = x"
proof (induction xs)
  case Nil
  then show ?case by simp
next
  case (Cons y ys)
  show ?case
  proof (cases "y = x")
    case True
    then show ?thesis by simp
  next
    case False
    with Cons have ih: "0 \<le> arrayIndexOf ys x" "ys ! nat (arrayIndexOf ys x) = x" by auto
    with False show ?thesis by (simp add: Let_def nat_add_distrib)
  qed
qed

lemma arrayIndexOf_missing: "x \<notin> set xs \<Longrightarrow> arrayIndexOf xs x = - 1"
  by (induction xs) (auto simp: Let_def)

lemma removeAll_nth_distinct:
  "distinct xs \<Longrightarrow> k < length xs \<Longrightarrow> removeAll (xs ! k) xs = take k xs @ drop (Suc k) xs"
proof (induction xs arbitrary: k)
  case Nil
  then show ?case by simp
next
  case (Cons x xs)
  show ?case
  proof (cases k)
    case 0
    with Cons.prems show ?thesis by (simp add: removeAll_id)
  next
    case (Suc j)
    with Cons.prems have "xs ! j \<noteq> x" by auto
    with Cons Suc show ?thesis by auto
  qed
qed

lemma takeWhile_nth_distinct:
  "distinct xs \<Longrightarrow> k < length xs \<Longrightarrow> takeWhile (\<lambda>x. x \<noteq> xs ! k) xs = take k xs"
proof (induction xs arbitrary: k)
  case Nil
  then show ?case by simp
next
  case (Cons x xs)
  show ?case
  proof (cases k)
    case 0
    then show ?thesis by simp
  next
    case (Suc j)
    with Cons.prems have "xs ! j \<noteq> x" by auto
    with Cons Suc show ?thesis by auto
  qed
qed

lemma dropWhile_nth_distinct:
  "distinct xs \<Longrightarrow> k < length xs \<Longrightarrow> dropWhile (\<lambda>x. x \<noteq> xs ! k) xs = drop k xs"
proof (induction xs arbitrary: k)
  case Nil
  then show ?case by simp
next
  case (Cons x xs)
  show ?case
  proof (cases k)
    case 0
    then show ?thesis by simp
  next
    case (Suc j)
    with Cons.prems have "xs ! j \<noteq> x" by auto
    with Cons Suc show ?thesis by auto
  qed
qed


lemma fun_upd_same_eq: "(f(x := a) = f(x := b)) \<longleftrightarrow> a = b"
  by (metis fun_upd_same)

lemma wfVc_at:
  assumes "wfVc st"
  shows "distinct (lc_views (vc_containers st c))
       \<and> (case lc_viewRefs (vc_containers st c) of
             None \<Rightarrow> lc_views (vc_containers st c) = []
           | Some refs \<Rightarrow> map vr_lView refs = lc_views (vc_containers st c))
       \<and> (\<forall>v. v \<in> set (lc_views (vc_containers st c))
                 \<longleftrightarrow> lv_parent (vc_lviews st v) = ParentContainer c)
       \<and> lc_dom (vc_containers st c)
           = (if lc_hasParentNode (vc_containers st c) then lc_views (vc_containers st c)
              else [])"
  using assms unfolding wfVc_def by (rule spec)

lemma wfVc_refs:
  assumes "wfVc st"
  shows "map vr_lView (refsOf st c) = viewsOf st c"
    and "length (refsOf st c) = length (viewsOf st c)"
    and "distinct (viewsOf st c)"
proof -
  from wfVc_at [OF assms, of c] show m: "map vr_lView (refsOf st c) = viewsOf st c"
    by (cases "lc_viewRefs (vc_containers st c)") (simp_all add: refsOf_def viewsOf_def)
  from m show "length (refsOf st c) = length (viewsOf st c)" by (metis length_map)
  from wfVc_at [OF assms, of c] show "distinct (viewsOf st c)" by (simp add: viewsOf_def)
qed

lemma wfVc_parent:
  assumes "wfVc st"
  shows "v \<in> set (viewsOf st c) \<longleftrightarrow> lv_parent (vc_lviews st v) = ParentContainer c"
  using wfVc_at [OF assms, of c] by (simp add: viewsOf_def)

lemma wfVc_dom:
  assumes "wfVc st"
  shows "lc_dom (vc_containers st c)
           = (if lc_hasParentNode (vc_containers st c) then viewsOf st c else [])"
  using wfVc_at [OF assms, of c] by (simp add: viewsOf_def)

lemma adjustIndex_in_range:
  assumes "0 \<le> i" and "i \<le> vcLength st c + shift"
  shows "adjustIndex st c (Some i) shift = Inr i"
  using assms by (simp add: adjustIndex_def assertGreaterThan_def assertLessThan_def)

lemma getOrCreateViewRefs_refsOf:
  "fst (getOrCreateViewRefs st c) = refsOf st c"
  by (simp add: getOrCreateViewRefs_def refsOf_def split: option.splits)

lemma detachView_valid:
  assumes "k < length (viewsOf st c)"
  shows "detachView st c (int k) =
     (Some (viewsOf st c ! k),
      st\<lparr>vc_containers := (vc_containers st)
            (c := (vc_containers st c)
               \<lparr>lc_views := take k (viewsOf st c) @ drop (Suc k) (viewsOf st c),
                lc_dom := removeAll (viewsOf st c ! k) (lc_dom (vc_containers st c))\<rparr>),
         vc_lviews := (vc_lviews st)
            (viewsOf st c ! k := (vc_lviews st (viewsOf st c ! k))\<lparr>lv_parent := ParentNull\<rparr>),
         vc_events := vc_events st
            @ [EvDetachLogical c (viewsOf st c ! k), EvDetachPhysical c (viewsOf st c ! k)]\<rparr>)"
  using assms
  by (simp add: detachView_def viewsOf_def Let_def logEvent_def updContainer_def updView_def)

lemma detach_valid:
  assumes wf: "wfVc st" and k: "k < length (viewsOf st c)"
  shows "detach c (Some (int k)) st =
           (Inr (Some \<lparr>vr_id = vc_nextRef st, vr_lView = viewsOf st c ! k\<rparr>), detachedState st c k)"
proof -
  have len: "vcLength st c = int (length (viewsOf st c))" by (simp add: vcLength_def viewsOf_def)
  have adj: "adjustIndex st c (Some (int k)) (- 1) = Inr (int k)"
    using k by (intro adjustIndex_in_range) (simp_all add: len)
  from wfVc_refs(2) [OF wf, of c] k have kr: "k < length (refsOf st c)" by simp
  then obtain rs where rs: "lc_viewRefs (vc_containers st c) = Some rs" "refsOf st c = rs"
    by (cases "lc_viewRefs (vc_containers st c)") (simp_all add: refsOf_def)
  from kr rs have krs: "k < length rs" by simp
  have vr: "viewRefsRemove c (int k) st' =
      (Some (rs ! k),
       st'\<lparr>vc_containers := (vc_containers st')
              (c := (vc_containers st' c)\<lparr>lc_viewRefs := Some (take k rs @ drop (Suc k) rs)\<rparr>),
           vc_events := vc_events st' @ [EvViewRefsRemove c k]\<rparr>)"
    if "lc_viewRefs (vc_containers st' c) = Some rs" for st'
    using that removeFromArray_valid [OF krs]
    by (simp add: viewRefsRemove_def getOrCreateViewRefs_def updContainer_def logEvent_def
          spliceIndex_def)
  show ?thesis
    by (simp add: detach_def adj detachView_valid [OF k] vr rs detachedState_def)
       (auto intro!: VcState.equality LContainer.equality simp: fun_upd_same_eq)
qed


lemma adjustIndex_insert:
  assumes "k \<le> length (viewsOf st c)"
    and "index = None \<and> k = length (viewsOf st c) \<or> index = Some (int k)"
  shows "adjustIndex st c index 0 = Inr (int k)"
proof -
  have len: "vcLength st c = int (length (viewsOf st c))" by (simp add: vcLength_def viewsOf_def)
  from assms(2) show ?thesis
  proof
    assume "index = None \<and> k = length (viewsOf st c)"
    then show ?thesis by (simp add: adjustIndex_def len)
  next
    assume "index = Some (int k)"
    with assms(1) adjustIndex_in_range [of "int k" st c 0] show ?thesis by (simp add: len)
  qed
qed

lemma insertView_valid:
  assumes "k \<le> length (viewsOf st c)"
  shows "insertView v c (int k) st =
    (Inr (),
     st\<lparr>vc_lviews := (vc_lviews st)(v := (vc_lviews st v)\<lparr>lv_parent := ParentContainer c\<rparr>),
        vc_containers := (vc_containers st)
          (c := (vc_containers st c)
             \<lparr>lc_views := take k (viewsOf st c) @ v # drop k (viewsOf st c)\<rparr>),
        vc_events := vc_events st @ [EvInsertView c v]\<rparr>)"
  using assms
  by (simp add: insertView_def viewsOf_def Let_def logEvent_def updContainer_def updView_def)

lemma nth_after_insert:
  assumes "k < length views"
  shows "(take k views @ v # drop k views) ! Suc k = views ! k"
  using assms by (simp add: nth_append min_def)

lemma dom_after_insert:
  assumes "distinct views" and "k < length views"
  shows "takeWhile (\<lambda>x. x \<noteq> views ! k) views @ v # dropWhile (\<lambda>x. x \<noteq> views ! k) views
         = take k views @ v # drop k views"
  using assms takeWhile_nth_distinct [of views k] dropWhile_nth_distinct [of views k] by simp

lemma insert_unattached:
  assumes wf: "wfVc st"
    and na: "\<not> viewAttachedToContainer st (vr_lView viewRef)"
    and nd: "\<not> (vc_ngDevMode st \<and> lv_destroyed (vc_lviews st (vr_lView viewRef)))"
    and k: "k \<le> length (viewsOf st c)"
    and idx: "index = None \<and> k = length (viewsOf st c) \<or> index = Some (int k)"
  shows "insert_vcr c viewRef index st = (Inr viewRef, insertedState st c viewRef k)"
proof -
  let ?v = "vr_lView viewRef"
  let ?views = "viewsOf st c"
  let ?st2 = "st\<lparr>vc_lviews := (vc_lviews st)(?v := (vc_lviews st ?v)\<lparr>lv_parent := ParentContainer c\<rparr>),
        vc_containers := (vc_containers st)
          (c := (vc_containers st c)\<lparr>lc_views := take k ?views @ ?v # drop k ?views\<rparr>),
        vc_events := vc_events st @ [EvInsertView c ?v]\<rparr>"
  have adj: "adjustIndex st c index 0 = Inr (int k)" by (rule adjustIndex_insert [OF k idx])
  have iv: "insertView ?v c (int k) st = (Inr (), ?st2)" by (rule insertView_valid [OF k])
  have dist: "distinct ?views" by (rule wfVc_refs(3) [OF wf])
  have dom: "lc_dom (vc_containers st c)
               = (if lc_hasParentNode (vc_containers st c) then ?views else [])"
    by (rule wfVc_dom [OF wf])
  have before: "getBeforeNodeForView (int k) c ?st2
      = (if k < length ?views then Some (?views ! k) else None)"
  proof (cases "k < length ?views")
    case True
    then have "nat (int k + 1) = Suc k" by simp
    with True nth_after_insert [OF True, of ?v] show ?thesis
      by (simp add: getBeforeNodeForView_def Let_def viewsOf_def)
  next
    case False
    with k have "k = length ?views" by simp
    then show ?thesis by (simp add: getBeforeNodeForView_def Let_def viewsOf_def)
  qed
  have hp: "lc_hasParentNode (vc_containers ?st2 c) = lc_hasParentNode (vc_containers st c)"
    by simp
  have st3: "(if lc_hasParentNode (vc_containers ?st2 c)
              then addViewToContainer c ?v (getBeforeNodeForView (int k) c ?st2) ?st2 else ?st2)
      = ?st2\<lparr>vc_containers := (vc_containers ?st2)
            (c := (vc_containers ?st2 c)
               \<lparr>lc_dom := (if lc_hasParentNode (vc_containers st c)
                           then take k ?views @ ?v # drop k ?views
                           else lc_dom (vc_containers st c))\<rparr>),
          vc_events := vc_events ?st2
            @ (if lc_hasParentNode (vc_containers st c) then [EvAddViewToContainer c ?v] else [])\<rparr>"
  proof (cases "lc_hasParentNode (vc_containers st c)")
    case False
    then show ?thesis unfolding hp by (auto intro!: VcState.equality LContainer.equality)
  next
    case True
    with dom have d: "lc_dom (vc_containers st c) = ?views" by simp
    show ?thesis
    proof (cases "k < length ?views")
      case lt: True
      from True lt d dom_after_insert [OF dist lt, of ?v] show ?thesis
        unfolding hp before
        by (auto simp: addViewToContainer_def logEvent_def updContainer_def
                 intro!: VcState.equality LContainer.equality)
    next
      case ge: False
      with k have "k = length ?views" by simp
      with True ge d show ?thesis
        unfolding hp before
        by (auto simp: addViewToContainer_def logEvent_def updContainer_def
                 intro!: VcState.equality LContainer.equality)
    qed
  qed
  from wfVc_refs(2) [OF wf, of c] k have kr: "k \<le> length (refsOf st c)" by simp
  have add: "viewRefsAdd c (int k) viewRef st' =
      st'\<lparr>vc_containers := (vc_containers st')
             (c := (vc_containers st' c)
                \<lparr>lc_viewRefs := Some (take k (refsOf st c) @ viewRef # drop k (refsOf st c))\<rparr>),
          vc_events := vc_events st' @ [EvViewRefsAdd c ?v]\<rparr>"
    if "lc_viewRefs (vc_containers st' c) = lc_viewRefs (vc_containers st c)" for st'
    using that addToArray_valid [OF kr, of viewRef]
    by (cases "lc_viewRefs (vc_containers st c)")
       (auto simp: viewRefsAdd_def getOrCreateViewRefs_def updContainer_def logEvent_def
          refsOf_def intro!: VcState.equality LContainer.equality)
  have body: "insert_vcr c viewRef index st
      = (Inr viewRef, viewRefsAdd c (int k) viewRef
           (if lc_hasParentNode (vc_containers ?st2 c)
            then addViewToContainer c ?v (getBeforeNodeForView (int k) c ?st2) ?st2 else ?st2))"
  proof -
    from nd have nd': "(vc_ngDevMode st \<and> lv_destroyed (vc_lviews st (vr_lView viewRef))) = False"
      by simp
    from na show ?thesis unfolding insert_vcr_def Let_def
      by (simp add: nd' bindV_def adj iv split del: if_split)
  qed
  show ?thesis
    unfolding body st3
    apply (subst add)
     apply simp
    apply (auto simp: insertedState_def fun_upd_same_eq
                intro!: VcState.equality LContainer.equality)
    done
qed

lemma wfVc_detachedState:
  assumes wf: "wfVc st" and k: "k < length (viewsOf st c)"
  shows "wfVc (detachedState st c k)"
proof -
  let ?views = "viewsOf st c"
  let ?v = "?views ! k"
  have dist: "distinct ?views" by (rule wfVc_refs(3) [OF wf])
  have vin: "?v \<in> set ?views" using k by simp
  have par: "lv_parent (vc_lviews st ?v) = ParentContainer c"
    using wfVc_parent [OF wf, of ?v c] vin by simp
  have setv: "set (take k ?views @ drop (Suc k) ?views) = set ?views - {?v}"
    using removeAll_nth_distinct [OF dist k] by (metis set_removeAll)
  have "distinct (lc_views (vc_containers (detachedState st c k) c'))
       \<and> (case lc_viewRefs (vc_containers (detachedState st c k) c') of
             None \<Rightarrow> lc_views (vc_containers (detachedState st c k) c') = []
           | Some refs \<Rightarrow> map vr_lView refs = lc_views (vc_containers (detachedState st c k) c'))
       \<and> (\<forall>v. v \<in> set (lc_views (vc_containers (detachedState st c k) c'))
                 \<longleftrightarrow> lv_parent (vc_lviews (detachedState st c k) v) = ParentContainer c')
       \<and> lc_dom (vc_containers (detachedState st c k) c')
           = (if lc_hasParentNode (vc_containers (detachedState st c k) c')
              then lc_views (vc_containers (detachedState st c k) c') else [])" for c'
  proof (cases "c' = c")
    case True
    have d1: "distinct (take k ?views @ drop (Suc k) ?views)"
      using removeAll_nth_distinct [OF dist k] dist by (metis distinct_removeAll)
    have d2: "map vr_lView (take k (refsOf st c) @ drop (Suc k) (refsOf st c))
              = take k ?views @ drop (Suc k) ?views"
    proof -
      have "map vr_lView (take k (refsOf st c) @ drop (Suc k) (refsOf st c))
            = take k (map vr_lView (refsOf st c)) @ drop (Suc k) (map vr_lView (refsOf st c))"
        by (simp add: take_map drop_map)
      then show ?thesis by (simp only: wfVc_refs(1) [OF wf, of c])
    qed
    have d3: "v \<in> set (take k ?views @ drop (Suc k) ?views)
              \<longleftrightarrow> lv_parent (vc_lviews (detachedState st c k) v) = ParentContainer c" for v
      unfolding setv using wfVc_parent [OF wf, of v c] by (simp add: detachedState_def)
    have d4: "removeAll ?v (lc_dom (vc_containers st c))
              = (if lc_hasParentNode (vc_containers st c)
                 then take k ?views @ drop (Suc k) ?views else [])"
      using wfVc_dom [OF wf, of c] removeAll_nth_distinct [OF dist k] by simp
    from True d1 d2 d3 d4 show ?thesis by (simp add: detachedState_def)
  next
    case False
    have nin: "?v \<notin> set (viewsOf st c')"
      using wfVc_parent [OF wf, of ?v c'] par False by simp
    have e3: "v \<in> set (viewsOf st c')
              \<longleftrightarrow> lv_parent (vc_lviews (detachedState st c k) v) = ParentContainer c'" for v
      using wfVc_parent [OF wf, of v c'] nin by (auto simp: detachedState_def)
    from False have same: "vc_containers (detachedState st c k) c' = vc_containers st c'"
      by (simp add: detachedState_def)
    from wfVc_at [OF wf, of c'] e3 show ?thesis
      unfolding same viewsOf_def by blast
  qed
  then show ?thesis unfolding wfVc_def by blast
qed

lemma unattached_notin:
  assumes wf: "wfVc st" and na: "\<not> viewAttachedToContainer st v"
  shows "v \<notin> set (viewsOf st c)"
proof
  assume "v \<in> set (viewsOf st c)"
  with wfVc_parent [OF wf, of v c] have "lv_parent (vc_lviews st v) = ParentContainer c" by simp
  with na show False by (simp add: viewAttachedToContainer_def)
qed

lemma wfVc_insertedState:
  assumes wf: "wfVc st" and na: "\<not> viewAttachedToContainer st (vr_lView viewRef)"
    and k: "k \<le> length (viewsOf st c)"
  shows "wfVc (insertedState st c viewRef k)"
proof -
  let ?views = "viewsOf st c"
  let ?v = "vr_lView viewRef"
  let ?st' = "insertedState st c viewRef k"
  have dist: "distinct ?views" by (rule wfVc_refs(3) [OF wf])
  have nin: "?v \<notin> set (viewsOf st c')" for c' by (rule unattached_notin [OF wf na])
  have setv: "set (take k ?views @ ?v # drop k ?views) = insert ?v (set ?views)"
  proof -
    have "set (take k ?views @ ?v # drop k ?views) = insert ?v (set (take k ?views @ drop k ?views))"
      by (simp only: set_append set_simps) blast
    then show ?thesis by simp
  qed
  have "distinct (lc_views (vc_containers ?st' c'))
       \<and> (case lc_viewRefs (vc_containers ?st' c') of
             None \<Rightarrow> lc_views (vc_containers ?st' c') = []
           | Some refs \<Rightarrow> map vr_lView refs = lc_views (vc_containers ?st' c'))
       \<and> (\<forall>v. v \<in> set (lc_views (vc_containers ?st' c'))
                 \<longleftrightarrow> lv_parent (vc_lviews ?st' v) = ParentContainer c')
       \<and> lc_dom (vc_containers ?st' c')
           = (if lc_hasParentNode (vc_containers ?st' c')
              then lc_views (vc_containers ?st' c') else [])" for c'
  proof (cases "c' = c")
    case True
    have d1: "distinct (take k ?views @ ?v # drop k ?views)"
    proof -
      have "distinct (take k ?views) \<and> distinct (drop k ?views)
            \<and> set (take k ?views) \<inter> set (drop k ?views) = {}"
        using dist by (metis append_take_drop_id distinct_append)
      moreover have "?v \<notin> set (take k ?views)" "?v \<notin> set (drop k ?views)"
        using nin [of c] by (auto dest: in_set_takeD in_set_dropD)
      ultimately show ?thesis by auto
    qed
    have d2: "map vr_lView (take k (refsOf st c) @ viewRef # drop k (refsOf st c))
              = take k ?views @ ?v # drop k ?views"
    proof -
      have "map vr_lView (take k (refsOf st c) @ viewRef # drop k (refsOf st c))
            = take k (map vr_lView (refsOf st c)) @ ?v # drop k (map vr_lView (refsOf st c))"
        by (simp add: take_map drop_map)
      then show ?thesis by (simp only: wfVc_refs(1) [OF wf, of c])
    qed
    have d3: "v \<in> set (take k ?views @ ?v # drop k ?views)
              \<longleftrightarrow> lv_parent (vc_lviews ?st' v) = ParentContainer c" for v
      unfolding setv using wfVc_parent [OF wf, of v c] by (simp add: insertedState_def)
    have d4: "(if lc_hasParentNode (vc_containers st c)
               then take k ?views @ ?v # drop k ?views else lc_dom (vc_containers st c))
              = (if lc_hasParentNode (vc_containers st c)
                 then take k ?views @ ?v # drop k ?views else [])"
      using wfVc_dom [OF wf, of c] by simp
    from True d1 d2 d3 d4 show ?thesis by (simp add: insertedState_def)
  next
    case False
    have e3: "v \<in> set (viewsOf st c')
              \<longleftrightarrow> lv_parent (vc_lviews ?st' v) = ParentContainer c'" for v
      using wfVc_parent [OF wf, of v c'] nin [of c'] False by (auto simp: insertedState_def)
    from False have same: "vc_containers ?st' c' = vc_containers st c'"
      by (simp add: insertedState_def)
    from wfVc_at [OF wf, of c'] e3 show ?thesis
      unfolding same viewsOf_def by blast
  qed
  then show ?thesis unfolding wfVc_def by blast
qed

lemma insert_vcr_after_detach:
  assumes att: "viewAttachedToContainer st (vr_lView viewRef)"
    and nd: "\<not> (vc_ngDevMode st \<and> lv_destroyed (vc_lviews st (vr_lView viewRef)))"
    and det: "(let prevIdx = vcIndexOf st c viewRef
                in if prevIdx \<noteq> - 1 then detach c (Some prevIdx) st
                   else (case lv_parent (vc_lviews st (vr_lView viewRef)) of
                           ParentContainer prevLContainer \<Rightarrow>
                             detach prevLContainer (Some (vcIndexOf st prevLContainer viewRef)) st
                         | _ \<Rightarrow> (Inr None, st))) = (Inr r, st1)"
    and na1: "\<not> viewAttachedToContainer st1 (vr_lView viewRef)"
    and same: "vc_ngDevMode st1 = vc_ngDevMode st"
       "lv_destroyed (vc_lviews st1 (vr_lView viewRef)) = lv_destroyed (vc_lviews st (vr_lView viewRef))"
  shows "insert_vcr c viewRef index st = insert_vcr c viewRef index st1"
proof -
  from nd have nd': "(vc_ngDevMode st \<and> lv_destroyed (vc_lviews st (vr_lView viewRef))) = False"
    by simp
  from nd same
  have nd1: "(vc_ngDevMode st1 \<and> lv_destroyed (vc_lviews st1 (vr_lView viewRef))) = False"
    by simp
  have l: "insert_vcr c viewRef index st
     = (case adjustIndex st1 c index 0 of
                 Inl err \<Rightarrow> (Inl err, st1)
               | Inr adjustedIdx \<Rightarrow>
                   bindV (insertView (vr_lView viewRef) c adjustedIdx st1)
                     (\<lambda>_ st2.
                        let beforeNode = getBeforeNodeForView adjustedIdx c st2;
                            st3 = (if lc_hasParentNode (vc_containers st2 c)
                                   then addViewToContainer c (vr_lView viewRef) beforeNode st2
                                   else st2)
                        in (Inr viewRef, viewRefsAdd c adjustedIdx viewRef st3)))"
    unfolding insert_vcr_def [of c viewRef index st]
    apply (simp only: Let_def [of "vr_lView viewRef"] nd' if_False att if_True)
    apply (simp only: det [unfolded Let_def [of "vcIndexOf st c viewRef"]] Let_def [of "vcIndexOf st c viewRef"])
    apply (simp add: bindV_def)
    done
  have r: "insert_vcr c viewRef index st1
     = (case adjustIndex st1 c index 0 of
                 Inl err \<Rightarrow> (Inl err, st1)
               | Inr adjustedIdx \<Rightarrow>
                   bindV (insertView (vr_lView viewRef) c adjustedIdx st1)
                     (\<lambda>_ st2.
                        let beforeNode = getBeforeNodeForView adjustedIdx c st2;
                            st3 = (if lc_hasParentNode (vc_containers st2 c)
                                   then addViewToContainer c (vr_lView viewRef) beforeNode st2
                                   else st2)
                        in (Inr viewRef, viewRefsAdd c adjustedIdx viewRef st3)))"
    unfolding insert_vcr_def [of c viewRef index st1]
    apply (simp only: Let_def [of "vr_lView viewRef"] nd1 if_False na1)
    apply (simp add: bindV_def)
    done
  show ?thesis by (simp only: l r)
qed

lemma vcIndexOf_refsOf: "vcIndexOf st c viewRef = arrayIndexOf (refsOf st c) viewRef"
  by (simp add: vcIndexOf_def getViewRefs_def refsOf_def split: option.splits)

lemma registered_position:
  assumes wf: "wfVc st" and reg: "viewRef \<in> set (refsOf st c0)"
  shows "0 \<le> arrayIndexOf (refsOf st c0) viewRef"
    and "nat (arrayIndexOf (refsOf st c0) viewRef) < length (viewsOf st c0)"
    and "viewsOf st c0 ! nat (arrayIndexOf (refsOf st c0) viewRef) = vr_lView viewRef"
proof -
  let ?j = "arrayIndexOf (refsOf st c0) viewRef"
  from arrayIndexOf_found [OF reg] show nonneg: "0 \<le> ?j" by simp
  from arrayIndexOf_range [of "refsOf st c0" viewRef] nonneg wfVc_refs(2) [OF wf, of c0]
  show lt: "nat ?j < length (viewsOf st c0)" by simp
  from lt wfVc_refs(2) [OF wf, of c0] have "nat ?j < length (refsOf st c0)" by simp
  then have "map vr_lView (refsOf st c0) ! nat ?j = vr_lView (refsOf st c0 ! nat ?j)"
    by (rule nth_map)
  with arrayIndexOf_found [OF reg] wfVc_refs(1) [OF wf, of c0]
  show "viewsOf st c0 ! nat ?j = vr_lView viewRef" by simp
qed

lemma insert_vcr_detachedState:
  assumes wf: "wfVc st"
    and par: "lv_parent (vc_lviews st (vr_lView viewRef)) = ParentContainer c0"
    and reg: "viewRef \<in> set (refsOf st c0)"
    and nd: "\<not> (vc_ngDevMode st \<and> lv_destroyed (vc_lviews st (vr_lView viewRef)))"
  shows "insert_vcr c viewRef index st
         = insert_vcr c viewRef index
             (detachedState st c0 (nat (arrayIndexOf (refsOf st c0) viewRef)))"
    and "wfVc (detachedState st c0 (nat (arrayIndexOf (refsOf st c0) viewRef)))"
    and "\<not> viewAttachedToContainer
             (detachedState st c0 (nat (arrayIndexOf (refsOf st c0) viewRef))) (vr_lView viewRef)"
    and "\<not> (vc_ngDevMode (detachedState st c0 (nat (arrayIndexOf (refsOf st c0) viewRef)))
            \<and> lv_destroyed
                 (vc_lviews (detachedState st c0 (nat (arrayIndexOf (refsOf st c0) viewRef)))
                    (vr_lView viewRef)))"
proof -
  let ?v = "vr_lView viewRef"
  let ?j0 = "arrayIndexOf (refsOf st c0) viewRef"
  let ?st1 = "detachedState st c0 (nat ?j0)"
  note pos = registered_position [OF wf reg]
  have att: "viewAttachedToContainer st ?v" by (simp add: viewAttachedToContainer_def par)
  have d0: "detach c0 (Some ?j0) st
           = (Inr (Some \<lparr>vr_id = vc_nextRef st, vr_lView = viewsOf st c0 ! nat ?j0\<rparr>), ?st1)"
    using detach_valid [OF wf pos(2)] pos(1) by simp
  have det: "(let prevIdx = vcIndexOf st c viewRef
                in if prevIdx \<noteq> - 1 then detach c (Some prevIdx) st
                   else (case lv_parent (vc_lviews st ?v) of
                           ParentContainer prevLContainer \<Rightarrow>
                             detach prevLContainer (Some (vcIndexOf st prevLContainer viewRef)) st
                         | _ \<Rightarrow> (Inr None, st)))
             = (Inr (Some \<lparr>vr_id = vc_nextRef st, vr_lView = viewsOf st c0 ! nat ?j0\<rparr>), ?st1)"
  proof (cases "c = c0")
    case True
    from pos(1) have "?j0 \<noteq> - 1" by simp
    with True d0 show ?thesis by (simp add: vcIndexOf_refsOf Let_def)
  next
    case False
    have "viewRef \<notin> set (refsOf st c)"
    proof
      assume "viewRef \<in> set (refsOf st c)"
      then have "?v \<in> set (map vr_lView (refsOf st c))" by simp
      with wfVc_refs(1) [OF wf, of c] have "?v \<in> set (viewsOf st c)" by simp
      with wfVc_parent [OF wf, of ?v c] par False show False by simp
    qed
    then have "arrayIndexOf (refsOf st c) viewRef = - 1" by (rule arrayIndexOf_missing)
    with d0 show ?thesis by (simp add: vcIndexOf_refsOf Let_def par)
  qed
  show na1: "\<not> viewAttachedToContainer ?st1 ?v"
    using pos(3) by (simp add: viewAttachedToContainer_def detachedState_def)
  have same: "vc_ngDevMode ?st1 = vc_ngDevMode st"
    "lv_destroyed (vc_lviews ?st1 ?v) = lv_destroyed (vc_lviews st ?v)"
    by (simp_all add: detachedState_def)
  show "wfVc ?st1" by (rule wfVc_detachedState [OF wf pos(2)])
  from nd same show "\<not> (vc_ngDevMode ?st1 \<and> lv_destroyed (vc_lviews ?st1 ?v))" by simp
  show "insert_vcr c viewRef index st = insert_vcr c viewRef index ?st1"
    by (rule insert_vcr_after_detach [OF att nd det na1 same])
qed

lemma insert_attached:
  assumes wf: "wfVc st"
    and par: "lv_parent (vc_lviews st (vr_lView viewRef)) = ParentContainer c0"
    and reg: "viewRef \<in> set (refsOf st c0)"
    and nd: "\<not> (vc_ngDevMode st \<and> lv_destroyed (vc_lviews st (vr_lView viewRef)))"
    and k: "k \<le> length (viewsOf (detachedState st c0 (nat (arrayIndexOf (refsOf st c0) viewRef))) c)"
    and idx: "index = None
                \<and> k = length (viewsOf (detachedState st c0 (nat (arrayIndexOf (refsOf st c0) viewRef))) c)
              \<or> index = Some (int k)"
  shows "insert_vcr c viewRef index st
         = (Inr viewRef,
            insertedState (detachedState st c0 (nat (arrayIndexOf (refsOf st c0) viewRef)))
              c viewRef k)"
proof -
  note red = insert_vcr_detachedState [OF wf par reg nd]
  from red(1) [of c index] insert_unattached [OF red(2) red(3) red(4) k idx]
  show ?thesis by simp
qed

lemma detachedFirst_unattached:
  assumes "\<not> viewAttachedToContainer st (vr_lView viewRef)"
  shows "detachedFirst st viewRef = st"
  using assms by (simp add: detachedFirst_def viewAttachedToContainer_def split: Parent.splits)

lemma insert_valid:
  assumes wf: "wfVc st" and reg: "registered st viewRef"
    and nd: "\<not> (vc_ngDevMode st \<and> lv_destroyed (vc_lviews st (vr_lView viewRef)))"
    and k: "k \<le> length (viewsOf (detachedFirst st viewRef) c)"
    and idx: "index = None \<and> k = length (viewsOf (detachedFirst st viewRef) c)
              \<or> index = Some (int k)"
  shows "insert_vcr c viewRef index st
         = (Inr viewRef, insertedState (detachedFirst st viewRef) c viewRef k)"
    and "wfVc (detachedFirst st viewRef)"
    and "\<not> viewAttachedToContainer (detachedFirst st viewRef) (vr_lView viewRef)"
proof -
  let ?v = "vr_lView viewRef"
  have "insert_vcr c viewRef index st
         = (Inr viewRef, insertedState (detachedFirst st viewRef) c viewRef k)
       \<and> wfVc (detachedFirst st viewRef)
       \<and> \<not> viewAttachedToContainer (detachedFirst st viewRef) ?v"
  proof (cases "viewAttachedToContainer st ?v")
    case False
    note df = detachedFirst_unattached [OF False]
    from insert_unattached [OF wf False nd k [unfolded df] idx [unfolded df]] wf False
    show ?thesis unfolding df by simp
  next
    case True
    then obtain c0 where par: "lv_parent (vc_lviews st ?v) = ParentContainer c0"
      by (cases "lv_parent (vc_lviews st ?v)") (simp_all add: viewAttachedToContainer_def)
    from reg par have r: "viewRef \<in> set (refsOf st c0)" by (simp add: registered_def)
    have df: "detachedFirst st viewRef
              = detachedState st c0 (nat (arrayIndexOf (refsOf st c0) viewRef))"
      by (simp add: detachedFirst_def par)
    note pos = registered_position [OF wf r]
    have "\<not> viewAttachedToContainer (detachedFirst st viewRef) ?v"
      unfolding df using pos(3) by (simp add: viewAttachedToContainer_def detachedState_def)
    moreover have "wfVc (detachedFirst st viewRef)"
      unfolding df by (rule wfVc_detachedState [OF wf pos(2)])
    moreover note insert_attached [OF wf par r nd k [unfolded df] idx [unfolded df]]
    ultimately show ?thesis unfolding df by simp
  qed
  then show "insert_vcr c viewRef index st
         = (Inr viewRef, insertedState (detachedFirst st viewRef) c viewRef k)"
    and "wfVc (detachedFirst st viewRef)"
    and "\<not> viewAttachedToContainer (detachedFirst st viewRef) (vr_lView viewRef)"
    by simp_all
qed

lemma wfVc_emptyVc: "wfVc (emptyVc devMode)"
  by (simp add: wfVc_def emptyVc_def)

lemma wfVc_twoViews: "wfVc (twoViews devMode)"
  unfolding wfVc_def twoViews_def by auto


lemma length_views: "vcLength st c = int (length (viewsOf st c))"
  by (simp add: vcLength_def viewsOf_def)

lemma adjustIndex_omitted: "adjustIndex st c None shift = Inr (vcLength st c + shift)"
  by (simp add: adjustIndex_def)



lemma adjustIndex_removal:
  assumes "k < length (viewsOf st c)"
    and "index = None \<and> Suc k = length (viewsOf st c) \<or> index = Some (int k)"
  shows "adjustIndex st c index (- 1) = Inr (int k)"
  using assms(2)
proof
  assume "index = None \<and> Suc k = length (viewsOf st c)"
  then show ?thesis by (auto simp: adjustIndex_omitted length_views)
next
  assume "index = Some (int k)"
  with assms(1) adjustIndex_in_range [of "int k" st c "- 1"] show ?thesis
    by (simp add: length_views)
qed


lemma remove_at:
  assumes wf: "wfVc st" and k: "k < length (viewsOf st c)"
    and idx: "index = None \<and> Suc k = length (viewsOf st c) \<or> index = Some (int k)"
    and alive: "\<not> lv_destroyed (vc_lviews st (viewsOf st c ! k))"
  shows "remove hooks c index st = (Inr (), hooks (viewsOf st c ! k) (hooksState st c k))"
proof -
  note adj = adjustIndex_removal [OF k idx]
  from wfVc_refs(2) [OF wf, of c] k have kr: "k < length (refsOf st c)" by simp
  then obtain rs where rs: "lc_viewRefs (vc_containers st c) = Some rs" "refsOf st c = rs"
    by (cases "lc_viewRefs (vc_containers st c)") (simp_all add: refsOf_def)
  from kr rs have krs: "k < length rs" by simp
  have vr: "viewRefsRemove c (int k) st' =
      (Some (rs ! k),
       st'\<lparr>vc_containers := (vc_containers st')
              (c := (vc_containers st' c)\<lparr>lc_viewRefs := Some (take k rs @ drop (Suc k) rs)\<rparr>),
           vc_events := vc_events st' @ [EvViewRefsRemove c k]\<rparr>)"
    if "lc_viewRefs (vc_containers st' c) = Some rs" for st'
    using that removeFromArray_valid [OF krs]
    by (simp add: viewRefsRemove_def getOrCreateViewRefs_def updContainer_def logEvent_def
          spliceIndex_def)
  have rec: "(vc_lviews st (viewsOf st c ! k))\<lparr>lv_parent := ParentNull, lv_destroyed := True\<rparr>
             = \<lparr>lv_parent = ParentNull, lv_destroyed = True\<rparr>"
    by simp
  have "destroyLView hooks (viewsOf st c ! k)
          (snd (viewRefsRemove c (int k) (snd (detachView st c (int k)))))
        = hooks (viewsOf st c ! k) (hooksState st c k)"
    using alive
    apply (simp add: detachView_valid [OF k] vr rs destroyLView_def logEvent_def updView_def)
    apply (rule arg_cong [where f = "hooks (viewsOf st c ! k)"])
    apply (auto intro!: VcState.equality LContainer.equality
                simp: hooksState_def rs fun_upd_same_eq)
    done
  then show ?thesis
    by (simp add: remove_def adj detachView_valid [OF k] vr rs)
qed

lemma wfVc_frame:
  assumes "vc_containers st' = vc_containers st"
    and "\<And>v c. (lv_parent (vc_lviews st' v) = ParentContainer c)
                = (lv_parent (vc_lviews st v) = ParentContainer c)"
  shows "wfVc st' = wfVc st"
  unfolding wfVc_def assms by (rule refl)

lemma wfVc_hooksState:
  assumes wf: "wfVc st" and k: "k < length (viewsOf st c)"
  shows "wfVc (hooksState st c k)"
proof -
  have "wfVc (hooksState st c k) = wfVc (detachedState st c k)"
    by (rule wfVc_frame) (simp_all add: hooksState_def detachedState_def)
  with wfVc_detachedState [OF wf k] show ?thesis by simp
qed





lemma insertedState_views:
  "viewsOf (insertedState st c viewRef k) c
   = take k (viewsOf st c) @ vr_lView viewRef # drop k (viewsOf st c)"
  by (simp add: insertedState_def viewsOf_def)


lemma hooksState_facts:
  assumes wf: "wfVc st" and k: "k < length (viewsOf st c)"
  shows "viewsOf (hooksState st c k) c = take k (viewsOf st c) @ drop (Suc k) (viewsOf st c)"
    and "vcLength (hooksState st c k) c = vcLength st c - 1"
    and "length (refsOf (hooksState st c k) c) = length (viewsOf (hooksState st c k) c)"
    and "viewsOf st c ! k \<notin> set (viewsOf (hooksState st c k) c)"
    and "viewsOf st c ! k \<notin> set (lc_dom (vc_containers (hooksState st c k) c))"
    and "\<not> viewAttachedToContainer (hooksState st c k) (viewsOf st c ! k)"
proof -
  let ?h = "hooksState st c k"
  show v: "viewsOf ?h c = take k (viewsOf st c) @ drop (Suc k) (viewsOf st c)"
    by (simp add: hooksState_def viewsOf_def)
  from k show "vcLength ?h c = vcLength st c - 1"
    unfolding length_views v by (simp add: min_def)
  note wfh = wfVc_hooksState [OF wf k]
  show "length (refsOf ?h c) = length (viewsOf ?h c)" by (rule wfVc_refs(2) [OF wfh])
  show na: "\<not> viewAttachedToContainer ?h (viewsOf st c ! k)"
    by (simp add: viewAttachedToContainer_def hooksState_def)
  show nin: "viewsOf st c ! k \<notin> set (viewsOf ?h c)" by (rule unattached_notin [OF wfh na])
  from wfVc_dom [OF wfh, of c] nin
  show "viewsOf st c ! k \<notin> set (lc_dom (vc_containers ?h c))"
    by (simp split: if_splits)
qed

text \<open>
  C3. \<open>remove\<close> at a position that holds a view, given or defaulted to the last one: the
  destruction hooks of the removed view run once, last, and on a state in which the view has
  left the list of the container (whose length is one less), the \<open>VIEW_REFS\<close> array and the
  DOM, its parent pointer no longer points to the container, and the state is well formed.
  The hooks are any function of the state, so one that calls back into the container starts
  from that state.
\<close>

theorem remove_detaches_before_destroy_hooks:
  assumes wf: "wfVc st" and k: "k < length (viewsOf st c)"
    and idx: "index = None \<and> Suc k = length (viewsOf st c) \<or> index = Some (int k)"
    and alive: "\<not> lv_destroyed (vc_lviews st (viewsOf st c ! k))"
  shows "remove hooks c index st = (Inr (), hooks (viewsOf st c ! k) (hooksState st c k))
       \<and> vc_events (hooksState st c k)
           = vc_events st @ [EvDetachLogical c (viewsOf st c ! k),
                             EvDetachPhysical c (viewsOf st c ! k),
                             EvViewRefsRemove c k, EvDestroyHooks (viewsOf st c ! k)]
       \<and> viewsOf (hooksState st c k) c = take k (viewsOf st c) @ drop (Suc k) (viewsOf st c)
       \<and> vcLength (hooksState st c k) c = vcLength st c - 1
       \<and> length (refsOf (hooksState st c k) c) = length (viewsOf (hooksState st c k) c)
       \<and> viewsOf st c ! k \<notin> set (viewsOf (hooksState st c k) c)
       \<and> viewsOf st c ! k \<notin> set (lc_dom (vc_containers (hooksState st c k) c))
       \<and> \<not> viewAttachedToContainer (hooksState st c k) (viewsOf st c ! k)
       \<and> wfVc (hooksState st c k)"
proof -
  note r = remove_at [OF wf k idx alive, of hooks]
  note f = hooksState_facts [OF wf k]
  have ev: "vc_events (hooksState st c k)
           = vc_events st @ [EvDetachLogical c (viewsOf st c ! k),
                             EvDetachPhysical c (viewsOf st c ! k),
                             EvViewRefsRemove c k, EvDestroyHooks (viewsOf st c ! k)]"
    by (simp add: hooksState_def)
  from r ev f wfVc_hooksState [OF wf k] show ?thesis by blast
qed

lemma twoViews_views: "viewsOf (twoViews devMode) 0 = [0, 1]"
  by (simp add: twoViews_def viewsOf_def)

lemma twoViews_alive: "\<not> lv_destroyed (vc_lviews (twoViews devMode) v)"
  by (simp add: twoViews_def)

theorem remove_detaches_before_destroy_hooks_witness:
  "remove (removeLastOnDestroy 0) 0 (Some 0) (twoViews True)
     = (Inr (), removeLastOnDestroy 0 0 (hooksState (twoViews True) 0 0))
   \<and> viewsOf (hooksState (twoViews True) 0 0) 0 = [1]
   \<and> vcLength (hooksState (twoViews True) 0 0) 0 = 1
   \<and> viewsOf (snd (remove (removeLastOnDestroy 0) 0 (Some 0) (twoViews True))) 0 = []"
proof -
  have k: "0 < length (viewsOf (twoViews True) 0)" by (simp add: twoViews_views)
  have idx: "Some 0 = None \<and> Suc 0 = length (viewsOf (twoViews True) 0) \<or> Some 0 = Some (int 0)"
    by simp
  have alive: "\<not> lv_destroyed (vc_lviews (twoViews True) (viewsOf (twoViews True) 0 ! 0))"
    by (rule twoViews_alive)
  note inst = remove_detaches_before_destroy_hooks
    [OF wfVc_twoViews k idx alive, of "removeLastOnDestroy 0"]
  let ?h = "hooksState (twoViews True) 0 0"
  from inst have wfh: "wfVc ?h" by blast
  from inst have vh: "viewsOf ?h 0 = [1]" by (simp add: twoViews_views)
  from inst have lh: "vcLength ?h 0 = 1" by (simp add: length_views twoViews_views)
  from inst have r: "remove (removeLastOnDestroy 0) 0 (Some 0) (twoViews True)
     = (Inr (), removeLastOnDestroy 0 0 ?h)" by (simp add: twoViews_views)
  have k1: "0 < length (viewsOf ?h 0)" by (simp add: vh)
  have idx1: "None = None \<and> Suc 0 = length (viewsOf ?h 0) \<or> None = Some (int 0)"
    by (simp add: vh)
  have alive1: "\<not> lv_destroyed (vc_lviews ?h (viewsOf ?h 0 ! 0))"
    by (simp add: vh) (simp add: hooksState_def twoViews_views twoViews_alive)
  have "removeLastOnDestroy 0 0 ?h = hooksState ?h 0 0"
    unfolding removeLastOnDestroy_def remove_at [OF wfh k1 idx1 alive1] by simp
  moreover have "viewsOf (hooksState ?h 0 0) 0 = []"
    using hooksState_facts(1) [OF wfh k1] by (simp add: vh)
  ultimately have "viewsOf (snd (remove (removeLastOnDestroy 0) 0 (Some 0) (twoViews True))) 0 = []"
    by (simp add: r)
  with r vh lh show ?thesis by blast
qed

lemma insertedState_facts:
  assumes wf: "wfVc st" and na: "\<not> viewAttachedToContainer st (vr_lView viewRef)"
    and k: "k \<le> length (viewsOf st c)"
  shows "vr_lView viewRef \<in> set (viewsOf (insertedState st c viewRef k) c') \<longleftrightarrow> c' = c"
    and "viewsOf (insertedState st c viewRef k) c ! k = vr_lView viewRef"
    and "lc_dom (vc_containers (insertedState st c viewRef k) c)
         = (if lc_hasParentNode (vc_containers st c)
            then viewsOf (insertedState st c viewRef k) c else [])"
    and "map vr_lView (refsOf (insertedState st c viewRef k) c)
         = viewsOf (insertedState st c viewRef k) c"
    and "distinct (viewsOf (insertedState st c viewRef k) c)"
proof -
  let ?i = "insertedState st c viewRef k"
  note wfi = wfVc_insertedState [OF wf na k]
  have "lv_parent (vc_lviews ?i (vr_lView viewRef)) = ParentContainer c"
    by (simp add: insertedState_def)
  with wfVc_parent [OF wfi, of "vr_lView viewRef" c']
  show "vr_lView viewRef \<in> set (viewsOf ?i c') \<longleftrightarrow> c' = c" by auto
  from k show "viewsOf ?i c ! k = vr_lView viewRef"
    unfolding insertedState_views by (simp add: nth_append min_def)
  have "lc_hasParentNode (vc_containers ?i c) = lc_hasParentNode (vc_containers st c)"
    by (simp add: insertedState_def)
  with wfVc_dom [OF wfi, of c]
  show "lc_dom (vc_containers ?i c)
         = (if lc_hasParentNode (vc_containers st c) then viewsOf ?i c else [])" by simp
  show "map vr_lView (refsOf ?i c) = viewsOf ?i c" by (rule wfVc_refs(1) [OF wfi])
  show "distinct (viewsOf ?i c)" by (rule wfVc_refs(3) [OF wfi])
qed

lemma insertedState_events:
  "vc_events (insertedState st c viewRef k)
   = vc_events st @ [EvInsertView c (vr_lView viewRef)]
       @ (if lc_hasParentNode (vc_containers st c)
          then [EvAddViewToContainer c (vr_lView viewRef)] else [])
       @ [EvViewRefsAdd c (vr_lView viewRef)]"
  by (simp add: insertedState_def)


lemma detachedState_hasParentNode:
  "lc_hasParentNode (vc_containers (detachedState st c0 j) c)
   = lc_hasParentNode (vc_containers st c)"
  by (simp add: detachedState_def)







text \<open>
  C4 (as amended). \<open>insert\<close> (here \<open>insert_vcr\<close>) of a registered \<open>ViewRef\<close> at a valid
  position: after the view has left the container it was attached to, if any, the call does
  the logical list mutation \<open>insertView\<close> first, then the physical DOM mutation
  \<open>addViewToContainer\<close>, provided the anchor of the container has a parent node, and
  then the splice of the \<open>VIEW_REFS\<close> array, all in this one call; on completion the view
  is at the position asked for, the DOM shows the views of the list in the order of the list
  (when the anchor is in the DOM), and the \<open>VIEW_REFS\<close> array wraps the views of the list in
  the same order.
\<close>

theorem insert_logical_then_physical:
  assumes wf: "wfVc st" and reg: "registered st viewRef"
    and nd: "\<not> (vc_ngDevMode st \<and> lv_destroyed (vc_lviews st (vr_lView viewRef)))"
    and k: "k \<le> length (viewsOf (detachedFirst st viewRef) c)"
    and idx: "index = None \<and> k = length (viewsOf (detachedFirst st viewRef) c)
              \<or> index = Some (int k)"
  shows "fst (insert_vcr c viewRef index st) = Inr viewRef
       \<and> vc_events (snd (insert_vcr c viewRef index st))
           = vc_events (detachedFirst st viewRef)
             @ [EvInsertView c (vr_lView viewRef)]
             @ (if lc_hasParentNode (vc_containers st c)
                then [EvAddViewToContainer c (vr_lView viewRef)] else [])
             @ [EvViewRefsAdd c (vr_lView viewRef)]
       \<and> viewsOf (snd (insert_vcr c viewRef index st)) c
           = take k (viewsOf (detachedFirst st viewRef) c) @ vr_lView viewRef
               # drop k (viewsOf (detachedFirst st viewRef) c)
       \<and> lc_dom (vc_containers (snd (insert_vcr c viewRef index st)) c)
           = (if lc_hasParentNode (vc_containers st c)
              then viewsOf (snd (insert_vcr c viewRef index st)) c else [])
       \<and> map vr_lView (refsOf (snd (insert_vcr c viewRef index st)) c)
           = viewsOf (snd (insert_vcr c viewRef index st)) c"
proof -
  let ?d = "detachedFirst st viewRef"
  note ins = insert_valid [OF wf reg nd k idx]
  have s: "snd (insert_vcr c viewRef index st) = insertedState ?d c viewRef k"
    and f: "fst (insert_vcr c viewRef index st) = Inr viewRef"
    using ins(1) by simp_all
  note facts = insertedState_facts [OF ins(2) ins(3) k]
  have hp: "lc_hasParentNode (vc_containers ?d c) = lc_hasParentNode (vc_containers st c)"
    by (simp add: detachedFirst_def detachedState_hasParentNode split: Parent.splits)
  from f insertedState_events [of ?d c viewRef k] insertedState_views [of ?d c viewRef k]
    facts(3) facts(4)
  show ?thesis unfolding s hp by blast
qed

lemma emptyVc_facts:
  "viewsOf (emptyVc devMode) c = []"
  "\<not> viewAttachedToContainer (emptyVc devMode) v"
  "\<not> lv_destroyed (vc_lviews (emptyVc devMode) v)"
  "lc_hasParentNode (vc_containers (emptyVc devMode) c)"
  "vc_events (emptyVc devMode) = []"
  "registered (emptyVc devMode) viewRef"
  "detachedFirst (emptyVc devMode) viewRef = emptyVc devMode"
  by (simp_all add: emptyVc_def viewsOf_def viewAttachedToContainer_def registered_def
        detachedFirst_def)

theorem insert_logical_then_physical_witness:
  "vc_events (snd (insert_vcr 0 \<lparr>vr_id = 0, vr_lView = 0\<rparr> None (emptyVc True)))
     = [EvInsertView 0 0, EvAddViewToContainer 0 0, EvViewRefsAdd 0 0]
   \<and> viewsOf (snd (insert_vcr 0 \<lparr>vr_id = 0, vr_lView = 0\<rparr> None (emptyVc True))) 0 = [0]
   \<and> lc_dom (vc_containers (snd (insert_vcr 0 \<lparr>vr_id = 0, vr_lView = 0\<rparr> None (emptyVc True))) 0)
     = [0]"
proof -
  let ?r = "\<lparr>vr_id = 0, vr_lView = 0\<rparr> :: ViewRef"
  have nd: "\<not> (vc_ngDevMode (emptyVc True)
                \<and> lv_destroyed (vc_lviews (emptyVc True) (vr_lView ?r)))"
    by (simp add: emptyVc_facts)
  have k: "0 \<le> length (viewsOf (detachedFirst (emptyVc True) ?r) 0)" by simp
  have idx: "None = None \<and> 0 = length (viewsOf (detachedFirst (emptyVc True) ?r) 0)
             \<or> None = Some (int 0)"
    by (simp add: emptyVc_facts)
  note inst = insert_logical_then_physical [OF wfVc_emptyVc emptyVc_facts(6) nd k idx]
  from inst show ?thesis by (simp add: emptyVc_facts)
qed

theorem insert_physical_first_counterexample:
  "precedes (EvInsertView 0 0) (EvAddViewToContainer 0 0)
     (vc_events (snd (insert_vcr 0 \<lparr>vr_id = 0, vr_lView = 0\<rparr> None (emptyVc True))))
   \<and> \<not> precedes (EvAddViewToContainer 0 0) (EvInsertView 0 0)
     (vc_events (snd (insert_vcr 0 \<lparr>vr_id = 0, vr_lView = 0\<rparr> None (emptyVc True))))"
proof -
  let ?r = "\<lparr>vr_id = 0, vr_lView = 0\<rparr> :: ViewRef"
  have nd: "\<not> (vc_ngDevMode (emptyVc True)
                \<and> lv_destroyed (vc_lviews (emptyVc True) (vr_lView ?r)))"
    by (simp add: emptyVc_facts)
  have k: "0 \<le> length (viewsOf (emptyVc True) 0)" by simp
  have idx: "None = None \<and> 0 = length (viewsOf (emptyVc True) 0) \<or> None = Some (int 0)"
    by (simp add: emptyVc_facts)
  have "insert_vcr 0 ?r None (emptyVc True) = (Inr ?r, insertedState (emptyVc True) 0 ?r 0)"
    by (rule insert_unattached [OF wfVc_emptyVc emptyVc_facts(2) nd k idx])
  then have "vc_events (snd (insert_vcr 0 ?r None (emptyVc True)))
             = [EvInsertView 0 0, EvAddViewToContainer 0 0, EvViewRefsAdd 0 0]"
    by (simp add: insertedState_events emptyVc_facts)
  then show ?thesis by (simp add: precedes_def)
qed












end
